(* ===== verification/Prelude.thy ===== *)
theory Prelude
  imports Main "HOL-Library.Word" "HOL-Library.List_Lexorder" "HOL-Library.Char_ord"
begin

text \<open>
  Shared vocabulary of the development: the parts of Go's standard library that every component
  of Yadra Bridge uses. Byte strings (package strings), decimal conversion (package strconv),
  time and durations (package time), 64-bit integers, error values with a wrapped sentinel
  (packages errors and fmt), and structured log entries (the fields the sources hand to zerolog).
  A Go string is a sequence of bytes, so it is a \<open>string\<close> here (a list of 8-bit
  characters) and \<open>length\<close> is Go's \<open>len\<close>.
\<close>

named_theorems gostr "facts about Go byte strings"
named_theorems gotime "facts about Go time arithmetic"

section \<open>Bytes and strings\<close>

abbreviation byte :: "char \<Rightarrow> nat" where
  "byte c \<equiv> of_char c"

definition is_digit :: "char \<Rightarrow> bool" where
  "is_digit c \<longleftrightarrow> 48 \<le> byte c \<and> byte c \<le> 57"

definition is_upper :: "char \<Rightarrow> bool" where
  "is_upper c \<longleftrightarrow> 65 \<le> byte c \<and> byte c \<le> 90"

definition is_lower :: "char \<Rightarrow> bool" where
  "is_lower c \<longleftrightarrow> 97 \<le> byte c \<and> byte c \<le> 122"

definition lower_char :: "char \<Rightarrow> char" where
  "lower_char c = (if is_upper c then char_of (byte c + 32) else c)"

definition upper_char :: "char \<Rightarrow> char" where
  "upper_char c = (if is_lower c then char_of (byte c - 32) else c)"

text \<open>\<open>strings.HasPrefix\<close>, \<open>strings.TrimPrefix\<close>, \<open>strings.TrimRight(s, "/")\<close>,
  \<open>strings.Contains\<close> and \<open>strings.Split\<close> with a one-byte separator.\<close>

fun has_prefix :: "string \<Rightarrow> string \<Rightarrow> bool" where
  "has_prefix s [] = True"
| "has_prefix [] (p # ps) = False"
| "has_prefix (c # s) (p # ps) = (c = p \<and> has_prefix s ps)"

definition trim_prefix :: "string \<Rightarrow> string \<Rightarrow> string" where
  "trim_prefix s p = (if has_prefix s p then drop (length p) s else s)"

definition trim_right_char :: "char \<Rightarrow> string \<Rightarrow> string" where
  "trim_right_char c s = rev (dropWhile (\<lambda>x. x = c) (rev s))"

fun contains :: "string \<Rightarrow> string \<Rightarrow> bool" where
  "contains [] sub = (sub = [])"
| "contains (c # s) sub = (has_prefix (c # s) sub \<or> contains s sub)"

fun split_char :: "char \<Rightarrow> string \<Rightarrow> string list" where
  "split_char d [] = [[]]"
| "split_char d (c # s) =
     (if c = d then [] # split_char d s
      else case split_char d s of
             [] \<Rightarrow> [[c]]
           | w # ws \<Rightarrow> (c # w) # ws)"

lemma has_prefix_iff [gostr]: "has_prefix s p \<longleftrightarrow> (\<exists>t. s = p @ t)"
  by (induction s p rule: has_prefix.induct) auto

lemma has_prefix_append [simp, gostr]: "has_prefix (p @ s) p"
  by (auto simp: has_prefix_iff)

lemma has_prefix_length: "has_prefix s p \<Longrightarrow> length p \<le> length s"
  by (auto simp: has_prefix_iff)

lemma trim_prefix_append [simp, gostr]: "trim_prefix (p @ s) p = s"
  by (simp add: trim_prefix_def)

lemma contains_iff [gostr]: "contains s sub \<longleftrightarrow> (\<exists>a b. s = a @ sub @ b)"
proof (induction s)
  case Nil
  then show ?case by auto
next
  case (Cons c s)
  show ?case
  proof
    assume "contains (c # s) sub"
    then consider t where "c # s = sub @ t" | a b where "s = a @ sub @ b"
      using Cons by (auto simp: has_prefix_iff)
    then show "\<exists>a b. c # s = a @ sub @ b"
    proof cases
      case 1
      then show ?thesis by (metis append_Nil)
    next
      case 2
      then show ?thesis by (metis append_Cons)
    qed
  next
    assume "\<exists>a b. c # s = a @ sub @ b"
    then obtain a b where ab: "c # s = a @ sub @ b" by blast
    show "contains (c # s) sub"
    proof (cases a)
      case Nil
      with ab have "has_prefix (c # s) sub" unfolding has_prefix_iff by auto
      then show ?thesis by simp
    next
      case (Cons x xs)
      with ab have "s = xs @ sub @ b" by simp
      then have "contains s sub" using Cons.IH by blast
      then show ?thesis by simp
    qed
  qed
qed

lemma contains_append [gostr]: "contains (a @ sub @ b) sub"
  by (auto simp: contains_iff)

lemma split_char_nonempty [simp]: "split_char d s \<noteq> []"
  by (induction s) (auto split: list.splits)

lemma trim_right_char_no_suffix [gostr]:
  "trim_right_char c s = [] \<or> last (trim_right_char c s) \<noteq> c"
proof -
  have "dropWhile (\<lambda>x. x = c) (rev s) = [] \<or> hd (dropWhile (\<lambda>x. x = c) (rev s)) \<noteq> c"
    using hd_dropWhile by blast
  then show ?thesis by (auto simp: trim_right_char_def last_rev)
qed

text \<open>
  \<open>strings.TrimSpace\<close>. The white space of package unicode, as the UTF-8 encodings of its code
  points; a lead byte determines the encoding, so trimming encodings is trimming runes.
\<close>

definition space_seqs :: "string list" where
  "space_seqs =
     map (map char_of)
       ([[9], [10], [11], [12], [13], [32], [194, 133], [194, 160], [225, 154, 128],
         [226, 128, 168], [226, 128, 169], [226, 128, 175], [226, 129, 159], [227, 128, 128]] @
        map (\<lambda>k. [226, 128, k]) [128, 129, 130, 131, 132, 133, 134, 135, 136, 137, 138 :: nat])"

lemma space_seqs_nonempty: "q \<in> set space_seqs \<Longrightarrow> q \<noteq> []"
  by (auto simp: space_seqs_def)

definition strip_one :: "string list \<Rightarrow> string \<Rightarrow> string option" where
  "strip_one qs s = (case find (has_prefix s) qs of
                       None \<Rightarrow> None
                     | Some q \<Rightarrow> if q = [] then None else Some (drop (length q) s))"

lemma strip_one_shorter: "strip_one qs s = Some t \<Longrightarrow> length t < length s"
  by (auto simp: strip_one_def find_Some_iff has_prefix_iff split: option.splits if_splits)

function trim_left_seqs :: "string list \<Rightarrow> string \<Rightarrow> string" where
  "trim_left_seqs qs s = (case strip_one qs s of None \<Rightarrow> s | Some t \<Rightarrow> trim_left_seqs qs t)"
  by pat_completeness auto
termination
  by (relation "measure (\<lambda>(qs, s). length s)") (auto dest: strip_one_shorter)

declare trim_left_seqs.simps [simp del]

definition trim_space :: "string \<Rightarrow> string" where
  "trim_space s =
     rev (trim_left_seqs (map rev space_seqs) (rev (trim_left_seqs space_seqs s)))"

lemma trim_left_seqs_length: "length (trim_left_seqs qs s) \<le> length s"
proof (induction qs s rule: trim_left_seqs.induct)
  case (1 qs s)
  show ?case
  proof (cases "strip_one qs s")
    case None
    then show ?thesis by (simp add: trim_left_seqs.simps [of qs s])
  next
    case (Some t)
    with 1 [OF Some] strip_one_shorter [OF Some] show ?thesis
      by (simp add: trim_left_seqs.simps [of qs s])
  qed
qed

lemma trim_left_seqs_stuck: "strip_one qs (trim_left_seqs qs s) = None"
proof (induction qs s rule: trim_left_seqs.induct)
  case (1 qs s)
  then show ?case
    by (cases "strip_one qs s") (auto simp: trim_left_seqs.simps [of qs s])
qed

lemma trim_space_length: "length (trim_space s) \<le> length s"
  using trim_left_seqs_length [of space_seqs s]
    trim_left_seqs_length [of "map rev space_seqs" "rev (trim_left_seqs space_seqs s)"]
  by (simp add: trim_space_def)

text \<open>A text that starts and ends with visible ASCII characters has nothing to trim.\<close>

definition visible :: "char \<Rightarrow> bool" where
  "visible c \<longleftrightarrow> 33 \<le> byte c \<and> byte c < 127"

lemma strip_one_None:
  "(\<And>q. q \<in> set qs \<Longrightarrow> q \<noteq> [] \<and> hd q \<noteq> c) \<Longrightarrow> strip_one qs (c # s) = None"
  by (auto simp: strip_one_def find_Some_iff in_set_conv_nth neq_Nil_conv split: option.splits)
    (metis has_prefix.simps(3) list.sel(1) neq_Nil_conv nth_mem)

lemma visible_space_seqs:
  "visible c \<Longrightarrow> q \<in> set space_seqs \<Longrightarrow> q \<noteq> [] \<and> hd q \<noteq> c \<and> hd (rev q) \<noteq> c"
  by (auto simp: space_seqs_def visible_def)

lemma trim_space_visible:
  assumes "s \<noteq> []" "visible (hd s)" "visible (last s)"
  shows "trim_space s = s"
proof -
  have "strip_one space_seqs s = None"
    using assms(1,2) visible_space_seqs strip_one_None [of space_seqs "hd s" "tl s"] by simp
  then have l: "trim_left_seqs space_seqs s = s" by (simp add: trim_left_seqs.simps [of _ s])
  have "strip_one (map rev space_seqs) (last s # rev (butlast s)) = None"
    using assms(3) visible_space_seqs by (intro strip_one_None) auto
  then have "strip_one (map rev space_seqs) (rev s) = None"
    using assms(1) by (metis append_butlast_last_id rev.simps(2) rev_rev_ident rev_swap)
  then show ?thesis by (simp add: trim_space_def l trim_left_seqs.simps [of _ "rev s"])
qed

section \<open>Decimal conversion\<close>

text \<open>The decimal digits of a number, most significant first: what \<open>strconv.Itoa\<close>,
  \<open>strconv.FormatInt(n, 10)\<close> and the verb \<open>%d\<close> print.\<close>

definition digit_char :: "int \<Rightarrow> char" where
  "digit_char d = char_of (48 + nat d)"

function dec :: "int \<Rightarrow> string" where
  "dec n = (if n < 10 then [digit_char n] else dec (n div 10) @ [digit_char (n mod 10)])"
  by pat_completeness auto
termination
  by (relation "measure nat") auto

declare dec.simps [simp del]

definition format_int :: "int \<Rightarrow> string" where
  "format_int i = (if i < 0 then CHR ''-'' # dec (- i) else dec i)"

definition digit_val :: "char \<Rightarrow> int" where
  "digit_val c = int (byte c) - 48"

definition undec :: "string \<Rightarrow> int" where
  "undec s = fold (\<lambda>c acc. 10 * acc + digit_val c) s 0"

lemma byte_digit_char: "0 \<le> d \<Longrightarrow> d < 10 \<Longrightarrow> byte (digit_char d) = 48 + nat d"
  by (simp add: digit_char_def nat_less_iff)

lemma is_digit_digit_char [simp]: "0 \<le> d \<Longrightarrow> d < 10 \<Longrightarrow> is_digit (digit_char d)"
  by (simp add: is_digit_def byte_digit_char nat_less_iff)

lemma digit_val_digit_char [simp]: "0 \<le> d \<Longrightarrow> d < 10 \<Longrightarrow> digit_val (digit_char d) = d"
  by (simp add: digit_val_def byte_digit_char)

lemma dec_nonempty [simp]: "dec n \<noteq> []"
  by (subst dec.simps) simp

lemma dec_digits: "0 \<le> n \<Longrightarrow> c \<in> set (dec n) \<Longrightarrow> is_digit c"
proof (induction n arbitrary: c rule: dec.induct)
  case (1 n)
  then show ?case
    by (cases "n < 10") (auto simp: dec.simps [of n])
qed

lemma undec_snoc: "undec (s @ [c]) = 10 * undec s + digit_val c"
  by (simp add: undec_def)

lemma undec_dec [simp]: "0 \<le> n \<Longrightarrow> undec (dec n) = n"
proof (induction n rule: dec.induct)
  case (1 n)
  show ?case
  proof (cases "n < 10")
    case True
    with 1 show ?thesis by (simp add: dec.simps [of n] undec_def)
  next
    case False
    then have "undec (dec n) = 10 * undec (dec (n div 10)) + n mod 10"
      by (simp add: dec.simps [of n] undec_snoc)
    with 1 False show ?thesis by simp
  qed
qed

lemma dec_inj: "0 \<le> m \<Longrightarrow> 0 \<le> n \<Longrightarrow> dec m = dec n \<Longrightarrow> m = n"
  by (metis undec_dec)

section \<open>64-bit integers\<close>

text \<open>Go's \<open>int\<close> and \<open>int64\<close> have 64 bits and wrap around silently.\<close>

definition wrap64 :: "int \<Rightarrow> int" where
  "wrap64 i = (i + 2 ^ 63) mod 2 ^ 64 - 2 ^ 63"

definition int64 :: "int \<Rightarrow> bool" where
  "int64 i \<longleftrightarrow> - (2 ^ 63) \<le> i \<and> i < 2 ^ 63"

lemma wrap64_id: "int64 i \<Longrightarrow> wrap64 i = i"
  by (simp add: wrap64_def int64_def)

lemma wrap64_int64 [simp]: "int64 (wrap64 i)"
  by (simp add: wrap64_def int64_def)

text \<open>
  \<open>strconv.Atoi\<close>: an optional sign and decimal digits. A syntax error returns 0; a value out of
  range returns the nearest bound together with an error.
\<close>

datatype atoi_status = AtoiOk | AtoiSyntax | AtoiRange

definition atoi :: "string \<Rightarrow> int \<times> atoi_status" where
  "atoi s =
     (let neg = (s \<noteq> [] \<and> hd s = CHR ''-'');
          ds = (if s \<noteq> [] \<and> (hd s = CHR ''-'' \<or> hd s = CHR ''+'') then tl s else s)
      in if ds = [] \<or> \<not> list_all is_digit ds then (0, AtoiSyntax)
         else let v = (if neg then - undec ds else undec ds)
              in if v < - (2 ^ 63) then (- (2 ^ 63), AtoiRange)
                 else if 2 ^ 63 \<le> v then (2 ^ 63 - 1, AtoiRange)
                 else (v, AtoiOk))"

lemma digit_not_sign: "is_digit c \<Longrightarrow> c \<noteq> CHR ''-'' \<and> c \<noteq> CHR ''+''"
  by (auto simp: is_digit_def)

lemma atoi_dec: "0 \<le> n \<Longrightarrow> n < 2 ^ 63 \<Longrightarrow> atoi (dec n) = (n, AtoiOk)"
proof -
  assume n: "0 \<le> n" "n < 2 ^ 63"
  have h: "hd (dec n) \<noteq> CHR ''-'' \<and> hd (dec n) \<noteq> CHR ''+''"
    using dec_digits [of n "hd (dec n)"] n digit_not_sign by simp
  have a: "list_all is_digit (dec n)"
    using dec_digits n by (auto simp: list_all_iff)
  show ?thesis using n h a by (simp add: atoi_def Let_def)
qed

section \<open>Time\<close>

text \<open>
  A \<open>time.Time\<close> is the number of nanoseconds since Go's zero time (January 1 of year 1, UTC), so
  the zero value of the Go type is 0; a \<open>time.Duration\<close> is a 64-bit number of nanoseconds.
  \<open>Time.Truncate\<close> rounds down to a multiple of the duration since the zero time;
  \<open>Time.Sub\<close> saturates; \<open>Time.Unix\<close> counts seconds since 1970.
\<close>

type_synonym go_time = int
type_synonym duration = int

definition second :: duration where "second = 1000000000"
definition minute :: duration where "minute = 60 * second"
definition hour :: duration where "hour = 60 * minute"
definition millisecond :: duration where "millisecond = 1000000"

definition time_truncate :: "go_time \<Rightarrow> duration \<Rightarrow> go_time" where
  "time_truncate t d = (if d \<le> 0 then t else t - t mod d)"

definition time_sub :: "go_time \<Rightarrow> go_time \<Rightarrow> duration" where
  "time_sub a b = max (- (2 ^ 63)) (min (2 ^ 63 - 1) (a - b))"

definition time_unix :: "go_time \<Rightarrow> int" where
  "time_unix t = t div second - 62135596800"

text \<open>\<open>Duration.Milliseconds\<close> and \<open>int(d.Seconds())\<close> truncate towards zero.\<close>

definition quot_trunc :: "int \<Rightarrow> int \<Rightarrow> int" where
  "quot_trunc a b = (if a < 0 then - ((- a) div b) else a div b)"

definition milliseconds :: "duration \<Rightarrow> int" where
  "milliseconds d = quot_trunc d millisecond"

definition whole_seconds :: "duration \<Rightarrow> int" where
  "whole_seconds d = quot_trunc d second"

lemma second_pos [simp]: "0 < second" by (simp add: second_def)
lemma minute_pos [simp]: "0 < minute" by (simp add: minute_def second_def)
lemma hour_pos [simp]: "0 < hour" by (simp add: hour_def minute_def second_def)

lemma truncate_le [gotime]: "0 < d \<Longrightarrow> time_truncate t d \<le> t"
  by (simp add: time_truncate_def)

lemma truncate_gt [gotime]: "0 < d \<Longrightarrow> t < time_truncate t d + d"
  using pos_mod_bound [of d t] by (simp add: time_truncate_def)

lemma truncate_dvd [gotime]: "0 < d \<Longrightarrow> d dvd time_truncate t d"
  by (simp add: time_truncate_def minus_mod_eq_mult_div)

lemma truncate_div: "0 < d \<Longrightarrow> time_truncate t d = d * (t div d)"
  by (simp add: time_truncate_def minus_mod_eq_mult_div)

lemma truncate_same_window:
  assumes "0 < d" "time_truncate t d \<le> u" "u < time_truncate t d + d"
  shows "time_truncate u d = time_truncate t d"
proof -
  have "d * (t div d) \<le> u" "u < d * (t div d) + d"
    using assms(2,3) by (simp_all only: truncate_div [OF assms(1)])
  then have "u div d = t div d"
    using assms(1) by (intro int_div_pos_eq [of u d "t div d" "u - d * (t div d)"]) auto
  then show ?thesis using assms(1) by (simp add: truncate_div)
qed

section \<open>Errors\<close>

text \<open>
  An \<open>error\<close> value carries its text and the package-level sentinel it is or wraps (\<open>%w\<close>), which is
  what \<open>errors.Is\<close> looks for. A function with an error result returns \<open>go_error + 'a\<close>.
\<close>

datatype sentinel =
    ErrRoutingUnavailable | ErrRoutingEmpty | ErrModelNotFound | ErrInvalidRoute
  | ErrPlatformUnavailable | ErrManifestUnavailable | ErrManifestInvalid

datatype go_error = GoError (err_text: string) (err_wraps: "sentinel option")

fun sentinel_text :: "sentinel \<Rightarrow> string" where
  "sentinel_text ErrRoutingUnavailable = ''routing unavailable''"
| "sentinel_text ErrRoutingEmpty = ''routing empty''"
| "sentinel_text ErrModelNotFound = ''model not found''"
| "sentinel_text ErrInvalidRoute = ''invalid route entry''"
| "sentinel_text ErrPlatformUnavailable = ''platform config unavailable''"
| "sentinel_text ErrManifestUnavailable = ''manifest unavailable''"
| "sentinel_text ErrManifestInvalid = ''manifest invalid''"

definition sentinel_err :: "sentinel \<Rightarrow> go_error" where
  "sentinel_err s = GoError (sentinel_text s) (Some s)"

definition errorf :: "string \<Rightarrow> go_error" where
  "errorf t = GoError t None"

definition errorf_w :: "sentinel \<Rightarrow> string \<Rightarrow> go_error" where
  "errorf_w s t = GoError (sentinel_text s @ '': '' @ t) (Some s)"

definition errors_is :: "go_error \<Rightarrow> sentinel \<Rightarrow> bool" where
  "errors_is e s \<longleftrightarrow> err_wraps e = Some s"

lemma errors_is_simps [simp]:
  "errors_is (sentinel_err a) s \<longleftrightarrow> a = s"
  "errors_is (errorf_w a t) s \<longleftrightarrow> a = s"
  "\<not> errors_is (errorf t) s"
  by (auto simp: errors_is_def sentinel_err_def errorf_w_def errorf_def)

section \<open>Structured log entries\<close>

datatype log_level = DebugLevel | InfoLevel | WarnLevel | ErrorLevel | FatalLevel

fun level_num :: "log_level \<Rightarrow> nat" where
  "level_num DebugLevel = 0"
| "level_num InfoLevel = 1"
| "level_num WarnLevel = 2"
| "level_num ErrorLevel = 3"
| "level_num FatalLevel = 4"

lemma level_num_inj [simp]: "level_num a = level_num b \<longleftrightarrow> a = b"
  by (cases a; cases b) simp_all

instantiation log_level :: linorder
begin

definition less_eq_log_level :: "log_level \<Rightarrow> log_level \<Rightarrow> bool" where
  "less_eq_log_level a b \<longleftrightarrow> level_num a \<le> level_num b"

definition less_log_level :: "log_level \<Rightarrow> log_level \<Rightarrow> bool" where
  "less_log_level a b \<longleftrightarrow> level_num a < level_num b"

instance
  by standard (auto simp: less_eq_log_level_def less_log_level_def)

end

datatype field_value = LStr string | LInt int | LBool bool | LErr go_error

record log_entry =
  le_level :: log_level
  le_fields :: "(string \<times> field_value) list"
  le_msg :: string

text \<open>The byte strings that a log entry writes out, apart from its field names.\<close>

definition entry_strings :: "log_entry \<Rightarrow> string set" where
  "entry_strings e =
     {s. \<exists>k. (k, LStr s) \<in> set (le_fields e)} \<union>
     {err_text x | x k. (k, LErr x) \<in> set (le_fields e)} \<union> {le_msg e}"

end
