(* ===== verification/Float64.thy ===== *)
theory Float64
  imports Complex_Main Prelude
begin

text \<open>
  Go's \<open>float64\<close> (IEEE 754 binary64, round to nearest, ties to even), which the sources use for
  provider prices and request costs, and the two conversions that encoding/json applies to it:
  the value of a decimal literal and the shortest literal that reads back as the same value. A
  finite value is the rational number it stands for; the sign of a zero is not kept.
\<close>

datatype f64 = Fin rat | PInf | NInf | NaN

definition pow2 :: "int \<Rightarrow> rat" where
  "pow2 e = (if 0 \<le> e then 2 ^ nat e else 1 / 2 ^ nat (- e))"

definition pow10 :: "int \<Rightarrow> rat" where
  "pow10 e = (if 0 \<le> e then 10 ^ nat e else 1 / 10 ^ nat (- e))"

function num_len :: "int \<Rightarrow> int \<Rightarrow> int" where
  "num_len b n = (if b < 2 \<or> n \<le> 0 then 0 else 1 + num_len b (n div b))"
  by pat_completeness auto
termination
  by (relation "measure (\<lambda>(b, n). nat n)") (auto simp: int_div_less_self)

declare num_len.simps [simp del]

text \<open>The greatest \<open>e\<close> with \<open>b ^ e \<le> x\<close>, for a positive \<open>x\<close>.\<close>

definition ilog :: "int \<Rightarrow> (int \<Rightarrow> rat) \<Rightarrow> rat \<Rightarrow> int" where
  "ilog b pow x =
     (case quotient_of x of (p, q) \<Rightarrow>
        let e = num_len b p - num_len b q
        in if pow e \<le> x then e else e - 1)"

definition nearest_even :: "rat \<Rightarrow> int" where
  "nearest_even x =
     (let f = \<lfloor>x\<rfloor>; r = x - of_int f
      in if r < 1 / 2 then f else if 1 / 2 < r then f + 1 else if even f then f else f + 1)"

text \<open>Rounding to 53 significant bits, with the exponent range of binary64.\<close>

definition f64_round :: "rat \<Rightarrow> f64" where
  "f64_round x =
     (if x = 0 then Fin 0
      else let e = max (ilog 2 pow2 \<bar>x\<bar>) (- 1022);
               ulp = pow2 (e - 52);
               y = of_int (nearest_even (\<bar>x\<bar> / ulp)) * ulp
           in if pow2 1024 \<le> y then (if x < 0 then NInf else PInf)
              else Fin (if x < 0 then - y else y))"

definition f64_of_int :: "int \<Rightarrow> f64" where
  "f64_of_int i = f64_round (of_int i)"

fun f64_add :: "f64 \<Rightarrow> f64 \<Rightarrow> f64" where
  "f64_add (Fin a) (Fin b) = f64_round (a + b)"
| "f64_add NaN y = NaN"
| "f64_add x NaN = NaN"
| "f64_add PInf NInf = NaN"
| "f64_add NInf PInf = NaN"
| "f64_add PInf y = PInf"
| "f64_add x PInf = PInf"
| "f64_add NInf y = NInf"
| "f64_add x NInf = NInf"

definition f64_inf_times :: "bool \<Rightarrow> rat \<Rightarrow> f64" where
  "f64_inf_times neg b =
     (if b = 0 then NaN else if neg = (b < 0) then PInf else NInf)"

fun f64_mul :: "f64 \<Rightarrow> f64 \<Rightarrow> f64" where
  "f64_mul (Fin a) (Fin b) = f64_round (a * b)"
| "f64_mul NaN y = NaN"
| "f64_mul x NaN = NaN"
| "f64_mul PInf (Fin b) = f64_inf_times False b"
| "f64_mul NInf (Fin b) = f64_inf_times True b"
| "f64_mul (Fin a) PInf = f64_inf_times False a"
| "f64_mul (Fin a) NInf = f64_inf_times True a"
| "f64_mul PInf PInf = PInf"
| "f64_mul NInf NInf = PInf"
| "f64_mul PInf NInf = NInf"
| "f64_mul NInf PInf = NInf"

text \<open>Division by a positive constant, the only division of the sources.\<close>

fun f64_div_const :: "f64 \<Rightarrow> rat \<Rightarrow> f64" where
  "f64_div_const (Fin a) c = f64_round (a / c)"
| "f64_div_const x c = x"

section \<open>Literals\<close>

text \<open>The exact value of a JSON number literal, then \<open>strconv.ParseFloat\<close>: out of range is an error.\<close>

definition lit_value :: "string \<Rightarrow> rat" where
  "lit_value s =
     (let neg = (s \<noteq> [] \<and> hd s = CHR ''-'');
          t = (if neg then tl s else s);
          ip = takeWhile is_digit t;
          r1 = dropWhile is_digit t;
          fp = (if r1 \<noteq> [] \<and> hd r1 = CHR ''.'' then takeWhile is_digit (tl r1) else []);
          r2 = (if r1 \<noteq> [] \<and> hd r1 = CHR ''.'' then dropWhile is_digit (tl r1) else r1);
          es = (if r2 = [] then [] else tl r2);
          eneg = (es \<noteq> [] \<and> hd es = CHR ''-'');
          ed = (if es \<noteq> [] \<and> (hd es = CHR ''-'' \<or> hd es = CHR ''+'') then tl es else es);
          ex = (if eneg then - undec ed else undec ed);
          v = of_int (undec (ip @ fp)) * pow10 (ex - int (length fp))
      in if neg then - v else v)"

definition parse_float :: "string \<Rightarrow> f64 option" where
  "parse_float s = (case f64_round (lit_value s) of Fin r \<Rightarrow> Some (Fin r) | _ \<Rightarrow> None)"

text \<open>
  \<open>strconv.FormatFloat(x, fmt, -1, 64)\<close> as encoding/json calls it: the shortest decimal that rounds
  to \<open>x\<close> (at most 17 digits are ever needed), in plain notation for magnitudes from 1e-6 to below
  1e21 and in exponent notation outside, with a two-digit negative exponent shortened.
\<close>

definition short_candidate :: "rat \<Rightarrow> nat \<Rightarrow> (int \<times> int) option" where
  "short_candidate x n =
     (let k = ilog 10 pow10 x - int n + 1;
          q = x / pow10 k;
          lo = \<lfloor>q\<rfloor>; hi = lo + 1;
          ok = (\<lambda>m. f64_round (of_int m * pow10 k) = Fin x)
      in if ok lo \<and> ok hi
         then (if q - of_int lo \<le> of_int hi - q then Some (lo, k) else Some (hi, k))
         else if ok lo then Some (lo, k)
         else if ok hi then Some (hi, k) else None)"

definition shortest :: "rat \<Rightarrow> int \<times> int" where
  "shortest x =
     (case List.map_filter (short_candidate x) [1..<18] of [] \<Rightarrow> (0, 0) | c # _ \<Rightarrow> c)"

fun f64_less :: "f64 \<Rightarrow> f64 \<Rightarrow> bool" where
  "f64_less (Fin a) (Fin b) = (a < b)"
| "f64_less (Fin a) PInf = True"
| "f64_less NInf (Fin b) = True"
| "f64_less NInf PInf = True"
| "f64_less _ _ = False"

definition strip_zeros :: "string \<Rightarrow> string" where
  "strip_zeros ds = trim_right_char (CHR ''0'') ds"

definition format_pos :: "rat \<Rightarrow> string" where
  "format_pos x =
     (case shortest x of (m, k) \<Rightarrow>
        let ds = strip_zeros (dec m);
            e = int (length (dec m)) - 1 + k
        in if f64_less (Fin x) (f64_round (pow10 (- 6))) \<or> pow10 21 \<le> x
           then take 1 ds @ (if length ds > 1 then ''.'' @ drop 1 ds else []) @ ''e'' @
                (if e < 0 then ''-'' else ''+'') @ dec \<bar>e\<bar>
           else if e < 0 then ''0.'' @ replicate (nat (- e - 1)) (CHR ''0'') @ ds
           else if int (length ds) \<le> e + 1
                then ds @ replicate (nat (e + 1) - length ds) (CHR ''0'')
                else take (nat (e + 1)) ds @ ''.'' @ drop (nat (e + 1)) ds)"

text \<open>A value that is not finite has no JSON form (\<open>json.Marshal\<close> fails): no text.\<close>

fun format_float :: "f64 \<Rightarrow> string option" where
  "format_float (Fin x) =
     Some (if x = 0 then ''0'' else if x < 0 then CHR ''-'' # format_pos (- x) else format_pos x)"
| "format_float _ = None"

section \<open>Signs\<close>

fun f64_nonneg :: "f64 \<Rightarrow> bool" where
  "f64_nonneg (Fin x) = (0 \<le> x)"
| "f64_nonneg PInf = True"
| "f64_nonneg _ = False"

lemma pow2_pos [simp]: "0 < pow2 e"
  by (simp add: pow2_def)

lemma nearest_even_nonneg: "0 \<le> x \<Longrightarrow> 0 \<le> nearest_even x"
  by (auto simp: nearest_even_def Let_def)

lemma f64_round_nonneg: "0 \<le> x \<Longrightarrow> f64_nonneg (f64_round x)"
  by (auto simp: f64_round_def Let_def nearest_even_nonneg less_imp_le)

lemma f64_add_nonneg: "f64_nonneg a \<Longrightarrow> f64_nonneg b \<Longrightarrow> f64_nonneg (f64_add a b)"
  by (induction a b rule: f64_add.induct) (auto intro: f64_round_nonneg)

lemma f64_mul_nonneg: "0 \<le> x \<Longrightarrow> 0 \<le> y \<Longrightarrow> f64_nonneg (f64_mul (Fin x) (Fin y))"
  by (simp add: f64_round_nonneg)

lemma f64_round_0 [simp]: "f64_round 0 = Fin 0"
  by (simp add: f64_round_def)

section \<open>Finite results\<close>

lemma pow2_powi: "pow2 e = 2 powi e"
  by (simp add: pow2_def power_int_def power_one_over)

lemma pow2_le: "a \<le> b \<Longrightarrow> pow2 a \<le> pow2 b"
  unfolding pow2_powi by (rule power_int_increasing) auto

lemma pow2_less_D: "pow2 a < pow2 b \<Longrightarrow> a < b"
  using pow2_le [of b a] by (meson leD not_less)

lemma pow2_diff: "pow2 (a - b) = pow2 a / pow2 b"
  unfolding pow2_powi by (rule power_int_diff) simp

lemma num_len_bounds:
  "0 < n \<Longrightarrow> 1 \<le> num_len 2 n \<and> pow2 (num_len 2 n - 1) \<le> of_int n \<and> of_int n < pow2 (num_len 2 n)"
proof (induction "2 :: int" n rule: num_len.induct)
  case (1 n)
  show ?case
  proof (cases "n = 1")
    case True
    then show ?thesis by (simp add: num_len.simps [of 2 1] num_len.simps [of 2 0] pow2_def)
  next
    case False
    let ?m = "n div 2" and ?l = "num_len 2 (n div 2)"
    have m: "0 < ?m" using False 1 by simp
    then have IH: "1 \<le> ?l" "pow2 (?l - 1) \<le> of_int ?m" "of_int ?m < pow2 ?l" using 1 by auto
    have l: "num_len 2 n = ?l + 1" using 1 by (simp add: num_len.simps [of 2 n])
    have "pow2 ?l = of_int (2 ^ nat ?l)" using IH(1) by (simp add: pow2_def)
    with IH(3) have "?m + 1 \<le> 2 ^ nat ?l" by (simp only: of_int_less_iff)
    then have "(of_int (?m + 1) :: rat) \<le> pow2 ?l"
      using \<open>pow2 ?l = of_int (2 ^ nat ?l)\<close> by (simp only: of_int_le_iff)
    moreover have "(of_int n :: rat) < of_int (2 * (?m + 1))" "(of_int (2 * ?m) :: rat) \<le> of_int n"
      unfolding of_int_less_iff of_int_le_iff by presburger+
    moreover have "pow2 (?l + 1) = 2 * pow2 ?l" "pow2 ?l = 2 * pow2 (?l - 1)"
      using pow2_diff [of "?l + 1" 1] pow2_diff [of ?l 1] by (simp_all add: pow2_def [of 1])
    ultimately show ?thesis using IH l by simp
  qed
qed

lemma ilog_less:
  assumes "0 < x" "x < 2 ^ k"
  shows "ilog 2 pow2 x < int k"
proof -
  obtain p q where pq: "quotient_of x = (p, q)" by fastforce
  have x: "x = of_int p / of_int q" "0 < q" "0 < p"
    using quotient_of_div [OF pq] quotient_of_denom_pos [OF pq] assms(1)
    by (auto simp: zero_less_divide_iff)
  have k: "(2 :: rat) ^ k = pow2 (int k)" by (simp add: pow2_def)
  let ?e = "num_len 2 p - num_len 2 q"
  have "pow2 (?e - 1) = pow2 (num_len 2 p - 1) / pow2 (num_len 2 q)"
    using pow2_diff [of "num_len 2 p - 1" "num_len 2 q"] by (simp add: algebra_simps)
  also have "\<dots> < x"
    using num_len_bounds [OF x(3)] num_len_bounds [OF x(2)] x by (auto simp: intro!: frac_less2)
  finally have "?e - 1 < int k" using assms(2) k pow2_less_D [of "?e - 1" "int k"] by simp
  moreover have "?e < int k" if "pow2 ?e \<le> x" using that assms(2) k pow2_less_D [of ?e "int k"] by simp
  ultimately show ?thesis by (simp add: ilog_def pq Let_def)
qed

lemma nearest_even_le: "of_int (nearest_even z) \<le> z + 1"
proof -
  have "nearest_even z \<le> \<lfloor>z\<rfloor> + 1" by (auto simp: nearest_even_def Let_def)
  then have "(of_int (nearest_even z) :: rat) \<le> of_int (\<lfloor>z\<rfloor> + 1)" by (simp only: of_int_le_iff)
  also have "\<dots> \<le> z + 1" by simp
  finally show ?thesis .
qed

lemma f64_round_bounded:
  assumes "0 \<le> x" "x < 2 ^ k" "k \<le> 1000"
  shows "\<exists>y. f64_round x = Fin y \<and> 0 \<le> y \<and> y < 2 ^ Suc k"
proof (cases "x = 0")
  case True
  then show ?thesis by simp
next
  case False
  then have x: "0 < x" using assms(1) by simp
  define ulp where "ulp = pow2 (max (ilog 2 pow2 x) (- 1022) - 52)"
  define y where "y = of_int (nearest_even (x / ulp)) * ulp"
  have u: "0 < ulp" by (simp add: ulp_def)
  have "ulp \<le> pow2 (int k)"
    using ilog_less [OF x assms(2)] unfolding ulp_def by (intro pow2_le) auto
  then have uk: "ulp \<le> 2 ^ k" by (simp add: pow2_def)
  have "of_int (nearest_even (x / ulp)) \<le> x / ulp + 1" by (rule nearest_even_le)
  then have "y \<le> (x / ulp + 1) * ulp" using u unfolding y_def by (intro mult_right_mono) auto
  then have "y \<le> x + ulp" using u by (simp add: distrib_right)
  then have yk: "y < 2 ^ Suc k" using uk assms(2) by simp
  have y0: "0 \<le> y" using u x by (simp add: y_def nearest_even_nonneg)
  have "(2 :: rat) ^ Suc k \<le> 2 ^ 1024" using assms(3) by (intro power_increasing) auto
  then have "y < pow2 1024" using yk by (simp add: pow2_def)
  then have "f64_round x = Fin y"
    using x by (simp add: f64_round_def Let_def ulp_def y_def)
  with yk y0 show ?thesis by blast
qed

lemma f64_tokens:
  assumes "0 \<le> i" "i < 2 ^ 63"
  shows "\<exists>y. f64_div_const (f64_of_int i) 1000000 = Fin y \<and> 0 \<le> y"
proof -
  have "(of_int i :: rat) < of_int (2 ^ 63)" using assms(2) by (simp only: of_int_less_iff)
  then obtain a where a: "f64_of_int i = Fin a" "0 \<le> a" "a < 2 ^ 64"
    using f64_round_bounded [of "of_int i" 63] assms(1) by (auto simp: f64_of_int_def)
  then show ?thesis using f64_round_bounded [of "a / 1000000" 64] by auto
qed

section \<open>Accuracy\<close>

text \<open>A rounding is off by at most half a unit in the last of 53 bits, or of the least number.\<close>

lemma ilog_le:
  assumes "0 < x"
  shows "pow2 (ilog 2 pow2 x) \<le> x"
proof -
  obtain p q where pq: "quotient_of x = (p, q)" by fastforce
  have x: "x = of_int p / of_int q" "0 < q" "0 < p"
    using quotient_of_div [OF pq] quotient_of_denom_pos [OF pq] assms
    by (auto simp: zero_less_divide_iff)
  let ?e = "num_len 2 p - num_len 2 q"
  have "pow2 (?e - 1) = pow2 (num_len 2 p - 1) / pow2 (num_len 2 q)"
    using pow2_diff [of "num_len 2 p - 1" "num_len 2 q"] by (simp add: algebra_simps)
  also have "\<dots> < x"
    using num_len_bounds [OF x(3)] num_len_bounds [OF x(2)] x by (auto simp: intro!: frac_less2)
  finally show ?thesis by (auto simp: ilog_def pq Let_def)
qed

lemma nearest_even_error: "\<bar>of_int (nearest_even z) - z\<bar> \<le> 1 / 2"
proof -
  have "of_int \<lfloor>z\<rfloor> \<le> z" "z < of_int \<lfloor>z\<rfloor> + 1" by linarith+
  then show ?thesis by (simp add: nearest_even_def Let_def abs_if) linarith
qed

lemma f64_round_error:
  assumes "0 \<le> x" "x < 2 ^ k" "k \<le> 1000"
  shows "\<exists>y. f64_round x = Fin y \<and> 0 \<le> y \<and> \<bar>y - x\<bar> \<le> x / 2 ^ 53 + 1 / 2 ^ 1075"
proof (cases "x = 0")
  case True
  then show ?thesis by simp
next
  case False
  then have x: "0 < x" using assms(1) by simp
  define e where "e = max (ilog 2 pow2 x) (- 1022)"
  define ulp where "ulp = pow2 (e - 52)"
  define y where "y = of_int (nearest_even (x / ulp)) * ulp"
  have u: "0 < ulp" by (simp add: ulp_def)
  have y0: "0 \<le> y" using u x by (simp add: y_def nearest_even_nonneg)
  have r: "f64_round x = Fin y"
    using f64_round_bounded [OF assms] x
    by (auto simp: f64_round_def Let_def ulp_def y_def e_def split: if_splits)
  have "\<bar>y - x\<bar> = \<bar>of_int (nearest_even (x / ulp)) - x / ulp\<bar> * ulp"
    using u by (simp add: y_def left_diff_distrib abs_mult_pos)
  also have "\<dots> \<le> 1 / 2 * ulp" using u by (intro mult_right_mono nearest_even_error) auto
  finally have err: "\<bar>y - x\<bar> \<le> ulp / 2" by simp
  have "ulp / 2 \<le> x / 2 ^ 53 + 1 / 2 ^ 1075"
  proof (cases "ilog 2 pow2 x \<le> - 1022")
    case True
    then have "ulp = 1 / 2 ^ 1074" by (simp add: ulp_def e_def pow2_def)
    moreover have "(0 :: rat) \<le> x / 2 ^ 53" using x by simp
    ultimately show ?thesis by simp
  next
    case False
    then have "ulp = pow2 (ilog 2 pow2 x) / 2 ^ 52"
      using pow2_diff [of e 52] by (simp add: ulp_def e_def pow2_def [of 52])
    then have "ulp \<le> x / 2 ^ 52" using ilog_le [OF x] by (simp add: divide_right_mono)
    moreover have "(0 :: rat) \<le> 1 / 2 ^ 1075" by simp
    ultimately show ?thesis by simp
  qed
  with err r y0 show ?thesis by (intro exI [of _ y]) (auto intro: order_trans)
qed

text \<open>The error after one more rounding of a value that is close to an exact one.\<close>

lemma f64_round_near:
  assumes "0 \<le> x" "x < 2 ^ k" "k \<le> 1000" "\<bar>x - z\<bar> \<le> a * z + t" "0 \<le> z"
    "a + (1 + a) / 2 ^ 53 \<le> b" "t + t / 2 ^ 53 + 1 / 2 ^ 1075 \<le> s"
  shows "\<exists>y. f64_round x = Fin y \<and> 0 \<le> y \<and> y < 2 ^ Suc k \<and> \<bar>y - z\<bar> \<le> b * z + s"
proof -
  obtain y where y: "f64_round x = Fin y" "0 \<le> y" "\<bar>y - x\<bar> \<le> x / 2 ^ 53 + 1 / 2 ^ 1075"
    using f64_round_error [OF assms(1-3)] by blast
  have "y < 2 ^ Suc k" using f64_round_bounded [OF assms(1-3)] y(1) by simp
  have "x \<le> z + a * z + t" using assms(4) by (simp add: abs_le_iff)
  then have "x / 2 ^ 53 \<le> (z + a * z + t) / 2 ^ 53" by (rule divide_right_mono) simp
  then have "\<bar>y - z\<bar> \<le> (z + a * z + t) / 2 ^ 53 + 1 / 2 ^ 1075 + (a * z + t)"
    using y(3) assms(4) by linarith
  also have "\<dots> = (a + (1 + a) / 2 ^ 53) * z + (t + t / 2 ^ 53 + 1 / 2 ^ 1075)"
    by (simp add: field_simps)
  also have "\<dots> \<le> b * z + s" using assms(5-7) by (intro add_mono mult_right_mono)
  finally show ?thesis using y \<open>y < 2 ^ Suc k\<close> by blast
qed

end
