(* ===== verification/Json.thy ===== *)
theory Json
  imports Float64
begin

text \<open>
  Package encoding/json as the sources use it: JSON values, the parser behind \<open>json.Unmarshal\<close> and
  \<open>Decoder.Decode\<close>, the printer behind \<open>json.Marshal\<close> and \<open>Encoder.Encode\<close>, and decoding into Go
  values under the rules of the package (exact field names first, then names equal up to case; null
  leaves a value unchanged; a type mismatch is an error, which every caller here answers by
  discarding the value). A number keeps the literal it was written with.
\<close>

datatype json =
    JNull
  | JBool bool
  | JNum string
  | JStr string
  | JArr "json list"
  | JObj "(string \<times> json) list"

section \<open>UTF-8\<close>

definition utf8_encode :: "nat \<Rightarrow> string" where
  "utf8_encode c =
     map char_of
       (if c < 128 then [c]
        else if c < 2048 then [192 + c div 64, 128 + c mod 64]
        else if c < 65536 then [224 + c div 4096, 128 + c div 64 mod 64, 128 + c mod 64]
        else [240 + c div 262144, 128 + c div 4096 mod 64, 128 + c div 64 mod 64,
              128 + c mod 64])"

definition rune_error :: string where
  "rune_error = map char_of [239, 191, 189 :: nat]"

definition in_range :: "nat \<Rightarrow> nat \<Rightarrow> char \<Rightarrow> bool" where
  "in_range lo hi c \<longleftrightarrow> lo \<le> byte c \<and> byte c \<le> hi"

text \<open>The length of the valid encoding that a byte string starts with, 0 if there is none
  (\<open>utf8.DecodeRune\<close> then reads one invalid byte).\<close>

definition rune_len :: "string \<Rightarrow> nat" where
  "rune_len s =
     (case s of
        [] \<Rightarrow> 0
      | a # t \<Rightarrow>
          if byte a < 128 then 1
          else if in_range 194 223 a then
            (case t of b # _ \<Rightarrow> if in_range 128 191 b then 2 else 0 | [] \<Rightarrow> 0)
          else if in_range 224 239 a then
            (case t of
               b # c # _ \<Rightarrow>
                 if in_range (if byte a = 224 then 160 else 128)
                             (if byte a = 237 then 159 else 191) b \<and> in_range 128 191 c
                 then 3 else 0
             | _ \<Rightarrow> 0)
          else if in_range 240 244 a then
            (case t of
               b # c # d # _ \<Rightarrow>
                 if in_range (if byte a = 240 then 144 else 128)
                             (if byte a = 244 then 143 else 191) b \<and>
                    in_range 128 191 c \<and> in_range 128 191 d
                 then 4 else 0
             | _ \<Rightarrow> 0)
          else 0)"

lemma rune_len_le: "rune_len s \<le> length s"
  by (auto simp: rune_len_def split: list.splits)

section \<open>Printing\<close>

definition hex_digit :: "nat \<Rightarrow> char" where
  "hex_digit d = (if d < 10 then char_of (48 + d) else char_of (87 + d))"

text \<open>
  The escapes of a string: quotes and backslashes, the control characters, the three HTML
  characters, an invalid byte as the replacement character, and U+2028 and U+2029.
\<close>

definition escape_ascii :: "char \<Rightarrow> string" where
  "escape_ascii c =
     (if c = CHR 0x22 then [CHR 0x5C, CHR 0x22]
      else if c = CHR 0x5C then [CHR 0x5C, CHR 0x5C]
      else if byte c = 8 then [CHR 0x5C, CHR ''b'']
      else if byte c = 12 then [CHR 0x5C, CHR ''f'']
      else if byte c = 10 then [CHR 0x5C, CHR ''n'']
      else if byte c = 13 then [CHR 0x5C, CHR ''r'']
      else if byte c = 9 then [CHR 0x5C, CHR ''t'']
      else if byte c < 32 \<or> c = CHR ''<'' \<or> c = CHR ''>'' \<or> c = CHR ''&''
      then [CHR 0x5C, CHR ''u'', CHR ''0'', CHR ''0'', hex_digit (byte c div 16),
            hex_digit (byte c mod 16)]
      else [c])"

definition escape_rune :: "string \<Rightarrow> string" where
  "escape_rune r =
     (if r = map char_of [226, 128, 168 :: nat] then CHR 0x5C # ''u2028''
      else if r = map char_of [226, 128, 169 :: nat] then CHR 0x5C # ''u2029''
      else r)"

function escape :: "string \<Rightarrow> string" where
  "escape s =
     (case s of
        [] \<Rightarrow> []
      | c # t \<Rightarrow>
          if byte c < 128 then escape_ascii c @ escape t
          else if rune_len s = 0 then CHR 0x5C # ''ufffd'' @ escape t
          else escape_rune (take (rune_len s) s) @ escape (drop (rune_len s) s))"
  by pat_completeness auto
termination
  by (relation "measure length") auto

declare escape.simps [simp del]

definition quote_json :: "string \<Rightarrow> string" where
  "quote_json s = CHR 0x22 # escape s @ [CHR 0x22]"

fun join :: "string \<Rightarrow> string list \<Rightarrow> string" where
  "join sep [] = []"
| "join sep [x] = x"
| "join sep (x # y # zs) = x @ sep @ join sep (y # zs)"

fun marshal :: "json \<Rightarrow> string" where
  "marshal JNull = ''null''"
| "marshal (JBool b) = (if b then ''true'' else ''false'')"
| "marshal (JNum l) = l"
| "marshal (JStr s) = quote_json s"
| "marshal (JArr js) = ''['' @ join '','' (map marshal js) @ '']''"
| "marshal (JObj kvs) =
     ''{'' @ join '','' (map (\<lambda>(k, v). quote_json k @ '':'' @ marshal v) kvs) @ ''}''"

text \<open>A Go map is printed with its keys in byte order.\<close>

definition jmap :: "(string \<times> json) list \<Rightarrow> json" where
  "jmap kvs = JObj (sort_key fst kvs)"

definition jint :: "int \<Rightarrow> json" where
  "jint i = JNum (format_int i)"

text \<open>\<open>Encoder.Encode\<close> prints the value and a newline.\<close>

definition encode_line :: "json \<Rightarrow> string" where
  "encode_line j = marshal j @ [char_of (10 :: nat)]"

section \<open>Parsing\<close>

definition is_ws :: "char \<Rightarrow> bool" where
  "is_ws c \<longleftrightarrow> byte c = 32 \<or> byte c = 9 \<or> byte c = 10 \<or> byte c = 13"

definition skip_ws :: "string \<Rightarrow> string" where
  "skip_ws s = dropWhile is_ws s"

definition hex_val :: "char \<Rightarrow> nat option" where
  "hex_val c =
     (if is_digit c then Some (byte c - 48)
      else if in_range 97 102 c then Some (byte c - 87)
      else if in_range 65 70 c then Some (byte c - 55)
      else None)"

fun hex4 :: "string \<Rightarrow> (nat \<times> string) option" where
  "hex4 (a # b # c # d # s) =
     (case (hex_val a, hex_val b, hex_val c, hex_val d) of
        (Some w, Some x, Some y, Some z) \<Rightarrow> Some (4096 * w + 256 * x + 16 * y + z, s)
      | _ \<Rightarrow> None)"
| "hex4 _ = None"

text \<open>After \<open>\u\<close>: a surrogate pair is one code point, a lone surrogate the replacement character.\<close>

definition unicode_escape :: "string \<Rightarrow> (string \<times> string) option" where
  "unicode_escape s =
     (case hex4 s of
        None \<Rightarrow> None
      | Some (u, r) \<Rightarrow>
          if 55296 \<le> u \<and> u < 57344 then
            (if u < 56320 \<and> has_prefix r (CHR 0x5C # ''u'') then
               (case hex4 (drop 2 r) of
                  Some (v, r') \<Rightarrow>
                    if 56320 \<le> v \<and> v < 57344
                    then Some (utf8_encode (65536 + (u - 55296) * 1024 + (v - 56320)), r')
                    else Some (rune_error, r)
                | None \<Rightarrow> Some (rune_error, r))
             else Some (rune_error, r))
          else Some (utf8_encode u, r))"

definition simple_escape :: "char \<Rightarrow> nat option" where
  "simple_escape c =
     map_of [(CHR 0x22, 34), (CHR 0x5C, 92), (CHR ''/'', 47), (CHR ''b'', 8), (CHR ''f'', 12),
             (CHR ''n'', 10), (CHR ''r'', 13), (CHR ''t'', 9)] c"

lemma hex4_shorter: "hex4 s = Some (u, r) \<Longrightarrow> length r + 4 = length s"
  by (induction s rule: hex4.induct) (auto split: option.splits)

lemma unicode_escape_shorter: "unicode_escape s = Some (u, r) \<Longrightarrow> length r < length s"
  by (fastforce simp: unicode_escape_def split: option.splits if_splits dest: hex4_shorter)

text \<open>The rest of a string literal, after its opening quote.\<close>

function parse_str :: "string \<Rightarrow> (string \<times> string) option" where
  "parse_str s =
     (case s of
        [] \<Rightarrow> None
      | c # t \<Rightarrow>
          if c = CHR 0x22 then Some ([], t)
          else if c = CHR 0x5C then
            (case t of
               [] \<Rightarrow> None
             | e # t' \<Rightarrow>
                 if e = CHR ''u'' then
                   (case unicode_escape t' of
                      None \<Rightarrow> None
                    | Some (u, r) \<Rightarrow> map_option (map_prod (append u) id) (parse_str r))
                 else (case simple_escape e of
                         None \<Rightarrow> None
                       | Some n \<Rightarrow>
                           map_option (map_prod (append [char_of n]) id) (parse_str t')))
          else if byte c < 32 then None
          else if rune_len s = 0
          then map_option (map_prod (append rune_error) id) (parse_str t)
          else map_option (map_prod (append (take (rune_len s) s)) id)
                 (parse_str (drop (rune_len s) s)))"
  by pat_completeness auto
termination
  by (relation "measure length") (auto dest: unicode_escape_shorter)

declare parse_str.simps [simp del]

text \<open>The number grammar: the literal and the rest of the input.\<close>

definition take_digits :: "string \<Rightarrow> string \<times> string" where
  "take_digits s = (takeWhile is_digit s, dropWhile is_digit s)"

definition parse_int_part :: "string \<Rightarrow> (string \<times> string) option" where
  "parse_int_part s =
     (case s of
        [] \<Rightarrow> None
      | c # t \<Rightarrow> if c = CHR ''0'' then Some ([c], t)
                else if is_digit c then Some (take_digits s) else None)"

definition parse_frac :: "string \<Rightarrow> (string \<times> string) option" where
  "parse_frac s =
     (case s of
        [] \<Rightarrow> Some ([], [])
      | c # t \<Rightarrow>
          if c = CHR ''.'' then
            (case take_digits t of (ds, r) \<Rightarrow> if ds = [] then None else Some (c # ds, r))
          else Some ([], s))"

definition parse_exp :: "string \<Rightarrow> (string \<times> string) option" where
  "parse_exp s =
     (case s of
        [] \<Rightarrow> Some ([], [])
      | c # t \<Rightarrow>
          if c = CHR ''e'' \<or> c = CHR ''E'' then
            (let sg = (if t \<noteq> [] \<and> (hd t = CHR ''-'' \<or> hd t = CHR ''+'') then [hd t] else []);
                 u = drop (length sg) t
             in case take_digits u of
                  (ds, r) \<Rightarrow> if ds = [] then None else Some (c # sg @ ds, r))
          else Some ([], s))"

definition parse_num :: "string \<Rightarrow> (string \<times> string) option" where
  "parse_num s =
     (let sg = (if s \<noteq> [] \<and> hd s = CHR ''-'' then [hd s] else [])
      in Option.bind (parse_int_part (drop (length sg) s)) (\<lambda>(i, r1).
         Option.bind (parse_frac r1) (\<lambda>(f, r2).
         Option.bind (parse_exp r2) (\<lambda>(e, r3). Some (sg @ i @ f @ e, r3)))))"

text \<open>
  Values. The first argument bounds the recursion: every call reads at least one byte or ends an
  enclosing list, so a little more than twice the length of the input is enough. The second is the
  nesting depth, which encoding/json limits to 10000.
\<close>

fun parse_val :: "nat \<Rightarrow> nat \<Rightarrow> string \<Rightarrow> (json \<times> string) option"
and parse_elems :: "nat \<Rightarrow> nat \<Rightarrow> string \<Rightarrow> (json list \<times> string) option"
and parse_members :: "nat \<Rightarrow> nat \<Rightarrow> string \<Rightarrow> ((string \<times> json) list \<times> string) option" where
  "parse_val 0 d s = None"
| "parse_val (Suc n) d s =
     (case skip_ws s of
        [] \<Rightarrow> None
      | c # t \<Rightarrow>
          if c = CHR 0x22 then map_option (map_prod JStr id) (parse_str t)
          else if c = CHR ''{'' then
            (if 10000 \<le> d then None
             else if has_prefix (skip_ws t) ''}'' then Some (JObj [], tl (skip_ws t))
             else map_option (map_prod JObj id) (parse_members n (Suc d) t))
          else if c = CHR ''['' then
            (if 10000 \<le> d then None
             else if has_prefix (skip_ws t) '']'' then Some (JArr [], tl (skip_ws t))
             else map_option (map_prod JArr id) (parse_elems n (Suc d) t))
          else if has_prefix (c # t) ''null'' then Some (JNull, drop 4 (c # t))
          else if has_prefix (c # t) ''true'' then Some (JBool True, drop 4 (c # t))
          else if has_prefix (c # t) ''false'' then Some (JBool False, drop 5 (c # t))
          else map_option (map_prod JNum id) (parse_num (c # t)))"
| "parse_elems 0 d s = None"
| "parse_elems (Suc n) d s =
     (case parse_val n d s of
        None \<Rightarrow> None
      | Some (j, r) \<Rightarrow>
          (case skip_ws r of
             [] \<Rightarrow> None
           | c # t \<Rightarrow>
               if c = CHR '']'' then Some ([j], t)
               else if c = CHR '','' then map_option (map_prod (Cons j) id) (parse_elems n d t)
               else None))"
| "parse_members 0 d s = None"
| "parse_members (Suc n) d s =
     (case skip_ws s of
        [] \<Rightarrow> None
      | q # s1 \<Rightarrow>
          if q \<noteq> CHR 0x22 then None
          else (case parse_str s1 of
                  None \<Rightarrow> None
                | Some (k, r) \<Rightarrow>
                    (case skip_ws r of
                       [] \<Rightarrow> None
                     | c # t \<Rightarrow>
                         if c \<noteq> CHR '':'' then None
                         else (case parse_val n d t of
                                 None \<Rightarrow> None
                               | Some (j, r2) \<Rightarrow>
                                   (case skip_ws r2 of
                                      [] \<Rightarrow> None
                                    | e # t2 \<Rightarrow>
                                        if e = CHR ''}'' then Some ([(k, j)], t2)
                                        else if e = CHR '',''
                                        then map_option (map_prod (Cons (k, j)) id)
                                               (parse_members n d t2)
                                        else None)))))"

declare parse_val.simps [simp del] parse_elems.simps [simp del] parse_members.simps [simp del]

text \<open>\<open>Decoder.Decode\<close> reads the first value of its input and leaves the rest;
  \<open>json.Unmarshal\<close> wants nothing but white space after it.\<close>

definition json_decode :: "string \<Rightarrow> json option" where
  "json_decode s = map_option fst (parse_val (2 * length s + 2) 0 s)"

definition json_unmarshal :: "string \<Rightarrow> json option" where
  "json_unmarshal s =
     (case parse_val (2 * length s + 2) 0 s of
        Some (j, r) \<Rightarrow> if skip_ws r = [] then Some j else None
      | None \<Rightarrow> None)"

end
