(* ===== verification/Json_Lemmas.thy ===== *)
theory Json_Lemmas
  imports Json
begin

text \<open>
  The parser of encoding/json never needs the whole of its fuel: every value takes at least a byte
  from the input, so from the fuel that \<open>json_decode\<close> gives on, more fuel changes nothing.
\<close>

section \<open>What the parsers leave\<close>

lemma skip_ws_length: "length (skip_ws s) \<le> length s"
  by (simp add: skip_ws_def length_dropWhile_le)

lemma skip_ws_rest: "skip_ws s = c # t \<Longrightarrow> length t < length s"
  using skip_ws_length [of s] by simp

text \<open>A string literal is its closing quote, or an escape, an invalid byte or a rune before one.\<close>

lemma parse_str_induct [consumes 1, case_names quote unicode simple bad rune]:
  assumes "parse_str s = Some (x, r)"
    and quote: "\<And>r. P (CHR 0x22 # r) [] r"
    and unicode: "\<And>t u t' y r. unicode_escape t = Some (u, t') \<Longrightarrow> P t' y r \<Longrightarrow>
      P (CHR 0x5C # CHR ''u'' # t) (u @ y) r"
    and simple: "\<And>e n t y r. simple_escape e = Some n \<Longrightarrow> P t y r \<Longrightarrow>
      P (CHR 0x5C # e # t) (char_of n # y) r"
    and bad: "\<And>c t y r. P t y r \<Longrightarrow> P (c # t) (rune_error @ y) r"
    and rune: "\<And>s y r. rune_len s \<noteq> 0 \<Longrightarrow> P (drop (rune_len s) s) y r \<Longrightarrow> P s (take (rune_len s) s @ y) r"
  shows "P s x r"
  using assms(1)
proof (induction s arbitrary: x r rule: parse_str.induct)
  case (1 s)
  show ?case
  proof (cases s)
    case Nil
    then show ?thesis using 1(5) by (simp add: parse_str.simps [of "[]"])
  next
    case (Cons c t)
    note eq = 1(5) [unfolded Cons parse_str.simps [of "c # t"] list.case]
    consider (q) "c = CHR 0x22" | (slash) "c = CHR 0x5C"
      | (control) "c \<noteq> CHR 0x22" "c \<noteq> CHR 0x5C" "byte c < 32"
      | (b) "c \<noteq> CHR 0x22" "c \<noteq> CHR 0x5C" "\<not> byte c < 32" "rune_len s = 0"
      | (rn) "c \<noteq> CHR 0x22" "c \<noteq> CHR 0x5C" "\<not> byte c < 32" "rune_len s \<noteq> 0" by blast
    then show ?thesis
    proof cases
      case q
      then show ?thesis using eq Cons quote by simp
    next
      case slash
      then obtain e t' where t: "t = e # t'" using eq by (cases t) simp_all
      show ?thesis
      proof (cases "e = CHR ''u''")
        case True
        then obtain u r' y where u: "unicode_escape t' = Some (u, r')" "parse_str r' = Some (y, r)" "x = u @ y"
          using eq slash t by (auto split: option.splits)
        then have "P r' y r" using 1(1) [OF Cons _ slash t True] slash by auto
        then show ?thesis using unicode [OF u(1)] u(3) Cons t True slash by simp
      next
        case False
        then obtain n y where n: "simple_escape e = Some n" "parse_str t' = Some (y, r)" "x = char_of n # y"
          using eq slash t by (auto split: option.splits)
        then have "P t' y r" using 1(2) [OF Cons _ slash t False] slash by auto
        then show ?thesis using simple [OF n(1)] n(3) Cons t slash by simp
      qed
    next
      case control
      then show ?thesis using eq by simp
    next
      case b
      then obtain y where y: "parse_str t = Some (y, r)" "x = rune_error @ y" using eq Cons by auto
      then have "P t y r" using 1(3) [OF Cons] b by auto
      then show ?thesis using y(2) bad Cons by simp
    next
      case rn
      then obtain y where y: "parse_str (drop (rune_len s) s) = Some (y, r)" "x = take (rune_len s) s @ y"
        using eq Cons by auto
      then have "P (drop (rune_len s) s) y r" using 1(4) [OF Cons] rn by auto
      then show ?thesis using y(2) rune rn(4) by simp
    qed
  qed
qed

lemma parse_str_shorter: "parse_str s = Some (x, r) \<Longrightarrow> length r < length s"
  by (induction rule: parse_str_induct) (auto dest: unicode_escape_shorter)

lemma take_digits_length: "take_digits s = (ds, r) \<Longrightarrow> length s = length ds + length r"
  by (auto simp: take_digits_def simp flip: length_append)

lemma parse_int_part_shorter: "parse_int_part s = Some (x, r) \<Longrightarrow> length r < length s"
  by (auto simp: parse_int_part_def take_digits_def length_dropWhile_le less_Suc_eq_le
      split: list.splits if_splits)

lemma parse_frac_length: "parse_frac s = Some (x, r) \<Longrightarrow> length r \<le> length s"
  by (auto simp: parse_frac_def dest!: take_digits_length split: list.splits if_splits prod.splits)

lemma parse_exp_length: "parse_exp s = Some (x, r) \<Longrightarrow> length r \<le> length s"
  by (auto simp: parse_exp_def Let_def dest!: take_digits_length split: list.splits if_splits prod.splits)

lemma parse_num_shorter: "parse_num s = Some (x, r) \<Longrightarrow> length r < length s"
  by (fastforce simp: parse_num_def Let_def bind_eq_Some_conv split: if_splits prod.splits
      dest!: parse_int_part_shorter parse_frac_length parse_exp_length)

text \<open>
  Every value takes a byte from the input, and what holds of the leaves and is kept by arrays and
  objects holds of it.
\<close>

lemma parse_closed:
  fixes P :: "json \<Rightarrow> bool" and Q :: "string \<Rightarrow> bool"
  assumes leaf: "P JNull" "\<And>b. P (JBool b)" "\<And>s l r. parse_num s = Some (l, r) \<Longrightarrow> P (JNum l)" "\<And>x. Q x \<Longrightarrow> P (JStr x)"
    and key: "\<And>s x r. parse_str s = Some (x, r) \<Longrightarrow> Q x"
    and arr: "\<And>js. list_all P js \<Longrightarrow> P (JArr js)"
    and obj: "\<And>kvs. list_all (\<lambda>(k, v). Q k \<and> P v) kvs \<Longrightarrow> P (JObj kvs)"
  shows "parse_val n d s = Some (j, r) \<Longrightarrow> length r < length s \<and> P j"
    "parse_elems n d s = Some (js, r) \<Longrightarrow> length r < length s \<and> list_all P js"
    "parse_members n d s = Some (kvs, r) \<Longrightarrow> length r < length s \<and> list_all (\<lambda>(k, v). Q k \<and> P v) kvs"
proof (induction n d s and n d s and n d s arbitrary: j r and js r and kvs r
    rule: parse_val_parse_elems_parse_members.induct)
  case (2 n d s)
  obtain c t where s: "skip_ws s = c # t"
    using 2(3) by (cases "skip_ws s") (simp_all add: parse_val.simps)
  have t: "length t < length s" using skip_ws_rest [OF s] .
  note eq = 2(3) [unfolded parse_val.simps(2) s list.case]
  consider (quote) "c = CHR 0x22" | (brace) "c = CHR ''{''" | (bracket) "c = CHR ''[''"
    | (lit) "c \<noteq> CHR 0x22" "c \<noteq> CHR ''{''" "c \<noteq> CHR ''[''" by blast
  then show ?case
  proof cases
    case quote
    then show ?thesis using eq t by (auto dest: parse_str_shorter key intro: leaf)
  next
    case brace
    then show ?thesis using eq t skip_ws_length [of t] 2(1) [OF s] by (auto intro!: obj split: if_splits)
  next
    case bracket
    then show ?thesis using eq t skip_ws_length [of t] 2(2) [OF s] by (auto intro!: arr split: if_splits)
  next
    case lit
    then show ?thesis using eq t by (auto split: if_splits dest: parse_num_shorter intro: leaf)
  qed
next
  case (4 n d s)
  obtain j' r' where v: "parse_val n d s = Some (j', r')"
    using 4(3) by (auto simp: parse_elems.simps split: option.splits)
  obtain c t where w: "skip_ws r' = c # t"
    using 4(3) v by (cases "skip_ws r'") (simp_all add: parse_elems.simps)
  show ?case
    using 4(3) 4(1) [OF v] skip_ws_rest [OF w] 4(2) [OF v refl w] v w
    by (fastforce simp: parse_elems.simps(2) split: if_splits)
next
  case (6 n d s)
  obtain s1 where q: "skip_ws s = CHR 0x22 # s1"
    using 6(3) by (cases "skip_ws s") (auto simp: parse_members.simps split: if_splits)
  obtain k r1 where k: "parse_str s1 = Some (k, r1)"
    using 6(3) q by (auto simp: parse_members.simps split: option.splits)
  obtain t where c: "skip_ws r1 = CHR '':'' # t"
    using 6(3) q k by (cases "skip_ws r1") (auto simp: parse_members.simps split: if_splits)
  obtain j' r2 where v: "parse_val n d t = Some (j', r2)"
    using 6(3) q k c by (auto simp: parse_members.simps split: option.splits)
  obtain e t2 where w: "skip_ws r2 = e # t2"
    using 6(3) q k c v by (cases "skip_ws r2") (auto simp: parse_members.simps)
  have kv: "Q k \<and> P j'" "length t2 < length s"
    using key [OF k] 6(1) [OF q _ k refl c _ v] skip_ws_rest [OF q] parse_str_shorter [OF k]
      skip_ws_rest [OF c] skip_ws_rest [OF w] by simp_all
  consider "kvs = [(k, j')]" "r = t2"
    | kvs' where "e = CHR '',''" "parse_members n d t2 = Some (kvs', r)" "kvs = (k, j') # kvs'"
    using 6(3) q k c v w by (auto simp: parse_members.simps split: if_splits)
  then show ?case
  proof cases
    case 2
    then show ?thesis using kv 6(2) [OF q _ k refl c _ v refl w _ 2(1) 2(2)] by simp
  qed (use kv in simp)
qed (simp_all add: parse_val.simps parse_elems.simps parse_members.simps)

lemma parse_shorter: "parse_val n d s = Some (j, r) \<Longrightarrow> length r < length s"
  by (rule conjunct1, rule parse_closed(1) [where P = "\<lambda>_. True" and Q = "\<lambda>_. True"]) (auto simp: list_all_iff)

section \<open>Enough fuel\<close>

lemma parse_fuel_step:
  assumes val: "\<And>m d s. 2 * length s + 2 \<le> n \<Longrightarrow> 2 * length s + 2 \<le> m \<Longrightarrow> parse_val n d s = parse_val m d s"
    and elems: "\<And>m d s. 2 * length s + 3 \<le> n \<Longrightarrow> 2 * length s + 3 \<le> m \<Longrightarrow> parse_elems n d s = parse_elems m d s"
    and members: "\<And>m d s. 2 * length s + 3 \<le> n \<Longrightarrow> 2 * length s + 3 \<le> m \<Longrightarrow>
      parse_members n d s = parse_members m d s"
  shows "2 * length s + 2 \<le> Suc n \<Longrightarrow> 2 * length s + 2 \<le> m \<Longrightarrow> parse_val (Suc n) d s = parse_val m d s"
    "2 * length s + 3 \<le> Suc n \<Longrightarrow> 2 * length s + 3 \<le> m \<Longrightarrow> parse_elems (Suc n) d s = parse_elems m d s"
    "2 * length s + 3 \<le> Suc n \<Longrightarrow> 2 * length s + 3 \<le> m \<Longrightarrow> parse_members (Suc n) d s = parse_members m d s"
proof -
  show "parse_val (Suc n) d s = parse_val m d s"
    if b: "2 * length s + 2 \<le> Suc n" "2 * length s + 2 \<le> m"
  proof (cases "skip_ws s")
    case Nil
    then show ?thesis using b by (cases m) (simp_all add: parse_val.simps)
  next
    case (Cons c t)
    obtain k where m: "m = Suc k" using b(2) by (cases m) simp_all
    have "parse_members n (Suc d) t = parse_members k (Suc d) t"
      "parse_elems n (Suc d) t = parse_elems k (Suc d) t"
      using b skip_ws_rest [OF Cons] m by (auto intro!: members elems)
    then show ?thesis by (simp add: m parse_val.simps(2) Cons)
  qed
  show "parse_elems (Suc n) d s = parse_elems m d s"
    if b: "2 * length s + 3 \<le> Suc n" "2 * length s + 3 \<le> m"
  proof -
    obtain k where m: "m = Suc k" using b(2) by (cases m) simp_all
    have v: "parse_val n d s = parse_val k d s" using b m by (auto intro!: val)
    show ?thesis
    proof (cases "parse_val k d s")
      case None
      then show ?thesis by (simp add: m parse_elems.simps(2) v)
    next
      case (Some x)
      obtain j r where x: "x = (j, r)" by (cases x)
      have "parse_elems n d t = parse_elems k d t" if "skip_ws r = c # t" for c t
        using b m skip_ws_rest [OF that] parse_shorter [OF Some [unfolded x]]
        by (auto intro!: elems)
      then show ?thesis
        by (cases "skip_ws r") (simp_all add: m parse_elems.simps(2) v Some x)
    qed
  qed
  show "parse_members (Suc n) d s = parse_members m d s"
    if b: "2 * length s + 3 \<le> Suc n" "2 * length s + 3 \<le> m"
  proof -
    obtain k where m: "m = Suc k" using b(2) by (cases m) simp_all
    have v: "parse_val n d t = parse_val k d t" "parse_members n d t = parse_members k d t"
      if "length t < length s" for t
      using b m that by (auto intro!: val members)
    show ?thesis
    proof (cases "\<exists>s1 key r1 t. skip_ws s = CHR 0x22 # s1 \<and> parse_str s1 = Some (key, r1) \<and>
        skip_ws r1 = CHR '':'' # t")
      case False
      then show ?thesis
        by (auto simp: m parse_members.simps(2) split: list.splits option.splits)
    next
      case True
      then obtain s1 key r1 t where q: "skip_ws s = CHR 0x22 # s1" "parse_str s1 = Some (key, r1)"
        "skip_ws r1 = CHR '':'' # t" by blast
      have t: "length t < length s"
        using skip_ws_rest [OF q(1)] parse_str_shorter [OF q(2)] skip_ws_rest [OF q(3)] by simp
      show ?thesis
      proof (cases "parse_val k d t")
        case None
        then show ?thesis by (simp add: m parse_members.simps(2) q v(1) [OF t])
      next
        case (Some x)
        obtain j r where x: "x = (j, r)" by (cases x)
        have "parse_members n d t2 = parse_members k d t2" if "skip_ws r = c # t2" for c t2
          using skip_ws_rest [OF that] parse_shorter [OF Some [unfolded x]] t by (auto intro!: v(2))
        then show ?thesis
          by (cases "skip_ws r") (simp_all add: m parse_members.simps(2) q v(1) [OF t] Some x)
      qed
    qed
  qed
qed

lemma parse_fuel:
  "2 * length s + 2 \<le> n \<Longrightarrow> 2 * length s + 2 \<le> m \<Longrightarrow> parse_val n d s = parse_val m d s"
  "2 * length s + 3 \<le> n \<Longrightarrow> 2 * length s + 3 \<le> m \<Longrightarrow> parse_elems n d s = parse_elems m d s"
  "2 * length s + 3 \<le> n \<Longrightarrow> 2 * length s + 3 \<le> m \<Longrightarrow> parse_members n d s = parse_members m d s"
proof (induction n arbitrary: s m d)
  case (Suc n)
  {
    case 1
    show ?case by (rule parse_fuel_step(1) [OF _ _ _ 1]) (rule Suc.IH; assumption)+
  }
  {
    case 2
    show ?case by (rule parse_fuel_step(2) [OF _ _ _ 2]) (rule Suc.IH; assumption)+
  }
  {
    case 3
    show ?case by (rule parse_fuel_step(3) [OF _ _ _ 3]) (rule Suc.IH; assumption)+
  }
qed simp_all

text \<open>The two entries of the parser, with any fuel that is enough.\<close>

lemma json_decode_fuel:
  "2 * length s + 2 \<le> n \<Longrightarrow> json_decode s = map_option fst (parse_val n 0 s)"
  using parse_fuel(1) [of s n "2 * length s + 2" 0] by (simp add: json_decode_def)

lemma json_unmarshal_fuel:
  "2 * length s + 2 \<le> n \<Longrightarrow>
   json_unmarshal s = (case parse_val n 0 s of
     Some (j, r) \<Rightarrow> if skip_ws r = [] then Some j else None | None \<Rightarrow> None)"
  using parse_fuel(1) [of s n "2 * length s + 2" 0] by (simp add: json_unmarshal_def)

end
