(* ===== verification/Json_Roundtrip.thy ===== *)
theory Json_Roundtrip
  imports Json_Lemmas
begin

text \<open>
  Printing and parsing JSON. The parser without its fuel is three equations; a printed value parses
  back to itself when its strings are UTF-8 and its numbers literals, and to itself with every
  invalid byte replaced when only its numbers are; and every parsed value has
  strings that are UTF-8, since the parser replaces what is not.
\<close>

section \<open>The parser without fuel\<close>

definition pval :: "nat \<Rightarrow> string \<Rightarrow> (json \<times> string) option" where
  "pval d s = parse_val (2 * length s + 2) d s"

definition pelems :: "nat \<Rightarrow> string \<Rightarrow> (json list \<times> string) option" where
  "pelems d s = parse_elems (2 * length s + 3) d s"

definition pmembers :: "nat \<Rightarrow> string \<Rightarrow> ((string \<times> json) list \<times> string) option" where
  "pmembers d s = parse_members (2 * length s + 3) d s"

lemma pval_eq:
  "pval d s =
     (case skip_ws s of
        [] \<Rightarrow> None
      | c # t \<Rightarrow>
          if c = CHR 0x22 then map_option (map_prod JStr id) (parse_str t)
          else if c = CHR ''{'' then
            (if 10000 \<le> d then None
             else if has_prefix (skip_ws t) ''}'' then Some (JObj [], tl (skip_ws t))
             else map_option (map_prod JObj id) (pmembers (Suc d) t))
          else if c = CHR ''['' then
            (if 10000 \<le> d then None
             else if has_prefix (skip_ws t) '']'' then Some (JArr [], tl (skip_ws t))
             else map_option (map_prod JArr id) (pelems (Suc d) t))
          else if has_prefix (c # t) ''null'' then Some (JNull, drop 4 (c # t))
          else if has_prefix (c # t) ''true'' then Some (JBool True, drop 4 (c # t))
          else if has_prefix (c # t) ''false'' then Some (JBool False, drop 5 (c # t))
          else map_option (map_prod JNum id) (parse_num (c # t)))"
proof (cases "skip_ws s")
  case Nil
  then show ?thesis by (simp add: pval_def parse_val.simps)
next
  case (Cons c t)
  have t: "length t < length s" using skip_ws_rest [OF Cons] .
  have "parse_members (2 * length s + 1) (Suc d) t = pmembers (Suc d) t"
    "parse_elems (2 * length s + 1) (Suc d) t = pelems (Suc d) t"
    using t by (auto simp: pmembers_def pelems_def intro!: parse_fuel)
  then show ?thesis by (simp add: pval_def parse_val.simps(2) Cons)
qed

lemma pelems_eq:
  "pelems d s =
     (case pval d s of
        None \<Rightarrow> None
      | Some (j, r) \<Rightarrow>
          (case skip_ws r of
             [] \<Rightarrow> None
           | c # t \<Rightarrow>
               if c = CHR '']'' then Some ([j], t)
               else if c = CHR '','' then map_option (map_prod (Cons j) id) (pelems d t)
               else None))"
proof -
  have v: "parse_val (2 * length s + 2) d s = pval d s" by (simp add: pval_def)
  have e: "parse_elems (2 * length s + 2) d t = pelems d t"
    if "pval d s = Some (j, r)" "skip_ws r = c # t" for j r c t
    using parse_shorter [OF that(1) [unfolded pval_def]] skip_ws_rest [OF that(2)]
    by (auto simp: pelems_def intro!: parse_fuel)
  have "pelems d s = parse_elems (Suc (2 * length s + 2)) d s"
    by (simp add: pelems_def numeral_3_eq_3)
  also have "\<dots> = (case pval d s of
        None \<Rightarrow> None
      | Some (j, r) \<Rightarrow>
          (case skip_ws r of
             [] \<Rightarrow> None
           | c # t \<Rightarrow>
               if c = CHR '']'' then Some ([j], t)
               else if c = CHR '','' then map_option (map_prod (Cons j) id) (pelems d t)
               else None))"
    unfolding parse_elems.simps(2) v using e by (auto split: option.splits list.splits)
  finally show ?thesis .
qed

lemma pmembers_eq:
  "pmembers d s =
     (case skip_ws s of
        [] \<Rightarrow> None
      | q # s1 \<Rightarrow>
          if q \<noteq> CHR 0x22 then None
          else (case parse_str s1 of
                  None \<Rightarrow> None
                | Some (k, r) \<Rightarrow>
                    (case skip_ws r of
                       [] \<Rightarrow> None
                     | c # t \<Rightarrow>
                         if c \<noteq> CHR '':'' then None
                         else (case pval d t of
                                 None \<Rightarrow> None
                               | Some (j, r2) \<Rightarrow>
                                   (case skip_ws r2 of
                                      [] \<Rightarrow> None
                                    | e # t2 \<Rightarrow>
                                        if e = CHR ''}'' then Some ([(k, j)], t2)
                                        else if e = CHR '',''
                                        then map_option (map_prod (Cons (k, j)) id) (pmembers d t2)
                                        else None)))))"
proof -
  have v: "parse_val (2 * length s + 2) d t = pval d t"
    if "skip_ws s = q # s1" "parse_str s1 = Some (k, r)" "skip_ws r = c # t" for q s1 k r c t
    using skip_ws_rest [OF that(1)] parse_str_shorter [OF that(2)] skip_ws_rest [OF that(3)]
    by (auto simp: pval_def intro!: parse_fuel)
  have m: "parse_members (2 * length s + 2) d t2 = pmembers d t2"
    if "skip_ws s = q # s1" "parse_str s1 = Some (k, r)" "skip_ws r = c # t" "pval d t = Some (j, r2)"
      "skip_ws r2 = e # t2" for q s1 k r c t j r2 e t2
    using skip_ws_rest [OF that(1)] parse_str_shorter [OF that(2)] skip_ws_rest [OF that(3)]
      parse_shorter [OF that(4) [unfolded pval_def]] skip_ws_rest [OF that(5)]
    by (auto simp: pmembers_def intro!: parse_fuel)
  have "pmembers d s = parse_members (Suc (2 * length s + 2)) d s"
    by (simp add: pmembers_def numeral_3_eq_3)
  then show ?thesis
    unfolding parse_members.simps(2) using v m
    by (auto split: list.splits option.splits)
qed

lemma json_decode_pval: "json_decode s = map_option fst (pval 0 s)"
  by (simp add: json_decode_def pval_def)

lemma json_unmarshal_pval:
  "json_unmarshal s =
     (case pval 0 s of Some (j, r) \<Rightarrow> if skip_ws r = [] then Some j else None | None \<Rightarrow> None)"
  by (simp add: json_unmarshal_def pval_def)

section \<open>Strings\<close>

text \<open>Valid UTF-8.\<close>

function utf8_ok :: "string \<Rightarrow> bool" where
  "utf8_ok s =
     (if s = [] then True else if rune_len s = 0 then False else utf8_ok (drop (rune_len s) s))"
  by pat_completeness auto
termination
  by (relation "measure length") auto

declare utf8_ok.simps [simp del]

lemma utf8_ok_Nil [simp]: "utf8_ok []"
  by (simp add: utf8_ok.simps)

lemma utf8_ok_drop: "utf8_ok s \<Longrightarrow> s \<noteq> [] \<Longrightarrow> rune_len s \<noteq> 0 \<and> utf8_ok (drop (rune_len s) s)"
  by (subst (asm) utf8_ok.simps) (simp split: if_splits)

lemma rune_len_ascii: "byte c < 128 \<Longrightarrow> rune_len (c # t) = 1"
  by (simp add: rune_len_def)

text \<open>A valid encoding is valid whatever follows.\<close>

lemma rune_len_take:
  assumes "rune_len s \<noteq> 0"
  shows "rune_len (take (rune_len s) s @ x) = rune_len s"
proof (cases s)
  case Nil
  then show ?thesis using assms by (simp add: rune_len_def)
next
  case (Cons a t)
  note defs = rune_len_def Cons list.case
  consider (one) "byte a < 128" | (two) "in_range 194 223 a" "\<not> byte a < 128"
    | (three) "in_range 224 239 a" "\<not> byte a < 128" "\<not> in_range 194 223 a"
    | (four) "in_range 240 244 a" "\<not> byte a < 128" "\<not> in_range 194 223 a" "\<not> in_range 224 239 a"
    using assms by (auto simp: defs split: if_splits)
  then show ?thesis
  proof cases
    case one
    then show ?thesis by (simp add: defs)
  next
    case two
    then obtain b t1 where t: "t = b # t1" "in_range 128 191 b"
      using assms by (cases t) (auto simp: defs split: if_splits)
    then have "rune_len s = 2" using two by (simp add: defs)
    then show ?thesis using two t Cons by (simp add: rune_len_def)
  next
    case three
    then obtain b c t1 where t: "t = b # c # t1" "rune_len s = 3"
      using assms by (cases t; cases "tl t") (auto simp: defs split: if_splits)
    then have "rune_len (a # b # c # x) = 3" using three Cons by (auto simp: rune_len_def split: if_split_asm)
    then show ?thesis using t Cons by simp
  next
    case four
    then obtain b c d t1 where t: "t = b # c # d # t1" "rune_len s = 4"
      using assms by (cases t; cases "tl t"; cases "tl (tl t)") (auto simp: defs split: if_splits)
    then have "rune_len (a # b # c # d # x) = 4" using four Cons by (auto simp: rune_len_def split: if_split_asm)
    then show ?thesis using t Cons by simp
  qed
qed

lemma rune_len_append:
  assumes "rune_len s \<noteq> 0"
  shows "rune_len (s @ x) = rune_len s"
proof -
  have "s @ x = take (rune_len s) s @ drop (rune_len s) s @ x" by (simp flip: append.assoc)
  then show ?thesis using rune_len_take [OF assms] by metis
qed

lemma utf8_ok_append: "utf8_ok s \<Longrightarrow> utf8_ok t \<Longrightarrow> utf8_ok (s @ t)"
proof (induction s rule: utf8_ok.induct)
  case (1 s)
  show ?case
  proof (cases "s = []")
    case False
    then have r: "rune_len s \<noteq> 0" "utf8_ok (drop (rune_len s) s)" using utf8_ok_drop 1(2) by auto
    then have "utf8_ok (drop (rune_len s) s @ t)" using 1 False by simp
    moreover have "drop (rune_len s) (s @ t) = drop (rune_len s) s @ t" using rune_len_le [of s] by simp
    ultimately show ?thesis using r by (subst utf8_ok.simps) (simp add: rune_len_append)
  qed (use 1 in simp)
qed

lemma parse_str_rune:
  assumes "128 \<le> byte (hd s)" "rune_len s \<noteq> 0"
  shows "parse_str (take (rune_len s) s @ x) = map_option (map_prod (append (take (rune_len s) s)) id) (parse_str x)"
proof -
  let ?s = "take (rune_len s) s @ x"
  obtain c t where s: "s = c # t" using assms(2) by (cases s) (auto simp: rune_len_def)
  then obtain t' where t': "?s = c # t'" using assms(2) by (cases "rune_len s") auto
  have c: "c \<noteq> CHR 0x22" "c \<noteq> CHR 0x5C" "\<not> byte c < 32" using assms(1) s by auto
  have l: "rune_len ?s = rune_len s" using rune_len_take [OF assms(2)] .
  have "parse_str ?s = map_option (map_prod (append (take (rune_len s) ?s)) id) (parse_str (drop (rune_len s) ?s))"
    using c l assms(2) unfolding t' by (subst parse_str.simps) simp
  then show ?thesis using rune_len_le [of s] by simp
qed

lemma hex_val_digit: "d < 16 \<Longrightarrow> hex_val (hex_digit d) = Some d"
  by (auto simp: hex_val_def hex_digit_def is_digit_def in_range_def)

lemma parse_str_plain:
  assumes "32 \<le> byte c" "byte c < 128" "c \<noteq> CHR 0x22" "c \<noteq> CHR 0x5C"
  shows "parse_str (c # x) = map_option (map_prod (append [c]) id) (parse_str x)"
  using assms by (subst parse_str.simps) (simp add: rune_len_ascii)

lemma parse_str_simple:
  assumes "simple_escape e = Some n" "e \<noteq> CHR ''u''"
  shows "parse_str (CHR 0x5C # e # x) = map_option (map_prod (append [char_of n]) id) (parse_str x)"
  using assms by (subst parse_str.simps) simp

lemma parse_str_unicode:
  assumes "unicode_escape t = Some (u, x)"
  shows "parse_str (CHR 0x5C # CHR ''u'' # t) = map_option (map_prod (append u) id) (parse_str x)"
  using assms by (subst parse_str.simps) simp

lemma unicode_escape_ascii:
  assumes "byte c < 128"
  shows "unicode_escape (CHR ''0'' # CHR ''0'' # hex_digit (byte c div 16) # hex_digit (byte c mod 16) # x) = Some ([c], x)"
proof -
  have "hex_val (CHR ''0'') = Some 0" by code_simp
  then have "hex4 (CHR ''0'' # CHR ''0'' # hex_digit (byte c div 16) # hex_digit (byte c mod 16) # x) = Some (byte c, x)"
    using assms hex_val_digit [of "byte c div 16"] hex_val_digit [of "byte c mod 16"] by simp
  then show ?thesis using assms by (simp add: unicode_escape_def utf8_encode_def)
qed

lemma parse_str_ascii:
  assumes "byte c < 128"
  shows "parse_str (escape_ascii c @ x) = map_option (map_prod (append [c]) id) (parse_str x)"
proof -
  have c: "char_of (byte c) = c" by simp
  have q: "char_of (34 :: nat) = CHR 0x22" "char_of (92 :: nat) = CHR 0x5C" by code_simp+
  consider "c = CHR 0x22" | "c = CHR 0x5C" | "byte c = 8" | "byte c = 12" | "byte c = 10" | "byte c = 13" | "byte c = 9"
    | (esc) "c \<noteq> CHR 0x22" "c \<noteq> CHR 0x5C" "byte c \<notin> {8, 12, 10, 13, 9}"
      "byte c < 32 \<or> c = CHR ''<'' \<or> c = CHR ''>'' \<or> c = CHR ''&''"
    | (plain) "c \<noteq> CHR 0x22" "c \<noteq> CHR 0x5C" "\<not> byte c < 32" "c \<noteq> CHR ''<'' \<and> c \<noteq> CHR ''>'' \<and> c \<noteq> CHR ''&''"
    by auto
  then show ?thesis
  proof cases
    case 1 then show ?thesis using q by (simp add: escape_ascii_def parse_str_simple [of _ 34] simple_escape_def)
  next
    case 2 then show ?thesis using q by (simp add: escape_ascii_def parse_str_simple [of _ 92] simple_escape_def)
  next
    case 3 then show ?thesis using c by (auto simp: escape_ascii_def parse_str_simple [of _ 8] simple_escape_def)
  next
    case 4 then show ?thesis using c by (auto simp: escape_ascii_def parse_str_simple [of _ 12] simple_escape_def)
  next
    case 5 then show ?thesis using c by (auto simp: escape_ascii_def parse_str_simple [of _ 10] simple_escape_def)
  next
    case 6 then show ?thesis using c by (auto simp: escape_ascii_def parse_str_simple [of _ 13] simple_escape_def)
  next
    case 7 then show ?thesis using c by (auto simp: escape_ascii_def parse_str_simple [of _ 9] simple_escape_def)
  next
    case esc
    then have "escape_ascii c = [CHR 0x5C, CHR ''u'', CHR ''0'', CHR ''0'', hex_digit (byte c div 16), hex_digit (byte c mod 16)]"
      by (auto simp: escape_ascii_def)
    then show ?thesis using parse_str_unicode [OF unicode_escape_ascii [OF assms]] by simp
  next
    case plain
    then have "escape_ascii c = [c]" by (auto simp: escape_ascii_def)
    then show ?thesis using plain assms parse_str_plain [of c x] by simp
  qed
qed

text \<open>
  The printer writes U+FFFD for every byte that is not part of a valid encoding, so a printed string
  parses to its cleaned form, which is the string itself when it was valid.
\<close>

function clean :: "string \<Rightarrow> string" where
  "clean s =
     (if s = [] then []
      else if rune_len s = 0 then rune_error @ clean (tl s)
      else take (rune_len s) s @ clean (drop (rune_len s) s))"
  by pat_completeness auto
termination
  by (relation "measure length") auto

declare clean.simps [simp del]

lemma clean_Nil [simp]: "clean [] = []"
  by (simp add: clean.simps)

lemma clean_id: "utf8_ok s \<Longrightarrow> clean s = s"
proof (induction s rule: utf8_ok.induct)
  case (1 s)
  show ?case
  proof (cases "s = []")
    case False
    then have "rune_len s \<noteq> 0" "utf8_ok (drop (rune_len s) s)" using utf8_ok_drop 1(2) by auto
    then show ?thesis using 1(1) False by (subst clean.simps) simp
  qed simp
qed

lemma parse_str_escape: "parse_str (escape s @ CHR 0x22 # x) = Some (clean s, x)"
proof (induction s rule: escape.induct)
  case (1 s)
  show ?case
  proof (cases s)
    case Nil
    then show ?thesis by (simp add: escape.simps parse_str.simps [of "CHR 0x22 # x"])
  next
    case (Cons c t)
    show ?thesis
    proof (cases "byte c < 128")
      case True
      have "parse_str (escape t @ CHR 0x22 # x) = Some (clean t, x)" using 1(1) [OF Cons True] .
      moreover have "clean s = c # clean t"
        using True Cons by (subst clean.simps) (simp add: rune_len_ascii)
      ultimately show ?thesis
        using True Cons by (subst escape.simps) (simp add: parse_str_ascii)
    next
      case False
      let ?r = "take (rune_len s) s" and ?d = "drop (rune_len s) s"
      show ?thesis
      proof (cases "rune_len s = 0")
        case True
        have "parse_str (escape t @ CHR 0x22 # x) = Some (clean t, x)" using 1(2) [OF Cons False True] .
        moreover have "unicode_escape (''fffd'' @ y) = Some (rune_error, y)" for y
          by (simp add: unicode_escape_def hex_val_def is_digit_def in_range_def utf8_encode_def rune_error_def)
        moreover have "escape s = CHR 0x5C # ''ufffd'' @ escape t"
          using False True Cons by (subst escape.simps) simp
        moreover have "clean s = rune_error @ clean t" using True Cons by (subst clean.simps) simp
        ultimately show ?thesis using parse_str_unicode by simp
      next
        case r: False
        have ih: "parse_str (escape ?d @ CHR 0x22 # x) = Some (clean ?d, x)" using 1(3) [OF Cons False r] .
        have "parse_str (escape_rune ?r @ y) = map_option (map_prod (append ?r) id) (parse_str y)" for y
        proof -
          have "unicode_escape (''2028'' @ y) = Some (map char_of [226, 128, 168 :: nat], y)"
            "unicode_escape (''2029'' @ y) = Some (map char_of [226, 128, 169 :: nat], y)"
            by (simp_all add: unicode_escape_def hex_val_def is_digit_def in_range_def utf8_encode_def)
          then show ?thesis
            using parse_str_rune [of s y] False Cons r parse_str_unicode
            by (auto simp: escape_rune_def)
        qed
        moreover have "escape s = escape_rune ?r @ escape ?d"
          using False r Cons by (subst escape.simps) simp
        moreover have "clean s = ?r @ clean ?d" using r Cons by (subst clean.simps) simp
        ultimately show ?thesis using ih by simp
      qed
    qed
  qed
qed

text \<open>What the parser makes of a string literal is valid.\<close>

lemma utf8_ok_single: "rune_len s = length s \<Longrightarrow> utf8_ok s"
  by (subst utf8_ok.simps) simp

lemma digit64_less: "v div 64 = k \<Longrightarrow> v < k * 64 + n \<Longrightarrow> v mod 64 < (n :: nat)"
  using div_mult_mod_eq [of v 64] by linarith

lemma rune_len_3:
  fixes u :: nat
  assumes "u < 65536" "2048 \<le> u" "\<not> (55296 \<le> u \<and> u < 57344)"
  shows "rune_len (map char_of [224 + u div 4096, 128 + u div 64 mod 64, 128 + u mod 64]) = 3"
proof -
  have b: "u div 4096 < 16" "u div 64 mod 64 < 64" "u mod 64 < 64" using assms by auto
  have lo: "32 \<le> u div 64 mod 64" if "u div 4096 = 0" using that assms(2) by auto
  have hi: "u div 64 mod 64 < 32" if "u div 4096 = 13"
  proof -
    have "u < 57344" using that by auto
    then have "u div 64 < 864" using assms(3) by auto
    moreover have "u div 64 div 64 = 13" using that by (simp flip: div_mult2_eq)
    ultimately show ?thesis using digit64_less [of "u div 64" 13 32] by simp
  qed
  show ?thesis using b lo hi by (auto simp: rune_len_def in_range_def)
qed

lemma rune_len_4:
  fixes u :: nat
  assumes "65536 \<le> u" "u < 1114112"
  shows "rune_len (map char_of [240 + u div 262144, 128 + u div 4096 mod 64, 128 + u div 64 mod 64, 128 + u mod 64]) = 4"
proof -
  have b: "u div 262144 < 5" "u div 4096 mod 64 < 64" "u div 64 mod 64 < 64" "u mod 64 < 64" using assms by auto
  have lo: "16 \<le> u div 4096 mod 64" if "u div 262144 = 0" using that assms(1) by auto
  have hi: "u div 4096 mod 64 < 16" if "u div 262144 = 4"
  proof -
    have "u div 4096 div 64 = 4" using that by (simp flip: div_mult2_eq)
    moreover have "u div 4096 < 272" using assms(2) by auto
    ultimately show ?thesis using digit64_less [of "u div 4096" 4 16] by simp
  qed
  show ?thesis using b lo hi by (auto simp: rune_len_def in_range_def)
qed

lemma utf8_ok_encode:
  assumes "u < 1114112" "\<not> (55296 \<le> u \<and> u < 57344)"
  shows "utf8_ok (utf8_encode u)"
proof (rule utf8_ok_single)
  consider "u < 128" | "128 \<le> u" "u < 2048" | "2048 \<le> u" "u < 65536" | "65536 \<le> u" by linarith
  then show "rune_len (utf8_encode u) = length (utf8_encode u)"
  proof cases
    case 1
    then show ?thesis by (simp add: utf8_encode_def rune_len_def)
  next
    case 2
    then have "2 \<le> u div 64" "u div 64 < 32" by auto
    then show ?thesis using 2 by (simp add: utf8_encode_def rune_len_def in_range_def)
  next
    case 3
    then show ?thesis using rune_len_3 [of u] assms(2) by (simp add: utf8_encode_def)
  next
    case 4
    then show ?thesis using rune_len_4 [of u] assms(1) by (simp add: utf8_encode_def)
  qed
qed

lemma utf8_ok_error: "utf8_ok rune_error"
  by (rule utf8_ok_single) (simp add: rune_error_def rune_len_def in_range_def)

lemma hex_val_less: "hex_val c = Some w \<Longrightarrow> w < 16"
  by (auto simp: hex_val_def is_digit_def in_range_def split: if_splits)

lemma hex4_less: "hex4 s = Some (u, r) \<Longrightarrow> u < 65536"
  by (induction s rule: hex4.induct) (fastforce split: option.splits dest!: hex_val_less)+

lemma surrogate_pair:
  assumes "a < 56320" "b < 57344"
  shows "(a - 55296) * 1024 + b < (1104896 :: nat)"
proof -
  have "a - 55296 \<le> 1023" using assms(1) by simp
  then have "(a - 55296) * 1024 \<le> 1023 * 1024" by (rule mult_le_mono1)
  then show ?thesis using assms(2) by simp
qed

lemma unicode_escape_ok: "unicode_escape s = Some (u, r) \<Longrightarrow> utf8_ok u"
  by (auto simp: surrogate_pair unicode_escape_def utf8_ok_error split: option.splits if_splits
      dest!: hex4_less intro!: utf8_ok_encode)

lemma simple_escape_ascii: "simple_escape c = Some n \<Longrightarrow> n < 128"
  by (auto simp: simple_escape_def split: if_splits)

lemma utf8_ok_take: "rune_len s \<noteq> 0 \<Longrightarrow> utf8_ok (take (rune_len s) s)"
  using rune_len_take [of s "[]"] rune_len_le [of s] by (intro utf8_ok_single) simp

lemma utf8_ok_char: "(n :: nat) < 128 \<Longrightarrow> utf8_ok y \<Longrightarrow> utf8_ok (char_of n # y)"
  using utf8_ok_append [of "[char_of n]" y] utf8_ok_single [of "[char_of n]"] by (simp add: rune_len_def)

lemma parse_str_ok: "parse_str s = Some (x, r) \<Longrightarrow> utf8_ok x"
  by (induction rule: parse_str_induct)
     (auto simp: utf8_ok_append utf8_ok_error utf8_ok_take utf8_ok_char
      dest: unicode_escape_ok simple_escape_ascii)

section \<open>Numbers\<close>

text \<open>What may follow a number.\<close>

definition delimited :: "string \<Rightarrow> bool" where
  "delimited r \<longleftrightarrow>
     (case r of [] \<Rightarrow> True | c # _ \<Rightarrow> \<not> is_digit c \<and> c \<noteq> CHR ''.'' \<and> c \<noteq> CHR ''e'' \<and> c \<noteq> CHR ''E'')"

definition num_ok :: "string \<Rightarrow> bool" where
  "num_ok l \<longleftrightarrow> parse_num l = Some (l, [])"

lemma take_digits_append:
  "delimited r \<Longrightarrow> take_digits (s @ r) = (case take_digits s of (ds, t) \<Rightarrow> (ds, t @ r))"
  by (induction s) (auto simp: take_digits_def delimited_def split: list.splits)

lemma parse_int_part_append:
  assumes "delimited r" "parse_int_part s = Some (x, t)"
  shows "parse_int_part (s @ r) = Some (x, t @ r)"
  using assms take_digits_append [OF assms(1), of s]
  by (auto simp: parse_int_part_def split: list.splits if_splits prod.splits)

lemma parse_frac_append:
  assumes "delimited r" "parse_frac s = Some (x, t)"
  shows "parse_frac (s @ r) = Some (x, t @ r)"
  using assms take_digits_append [OF assms(1), of "tl s"]
  by (cases s) (auto simp: parse_frac_def delimited_def split: list.splits if_splits prod.splits)

lemma parse_exp_append:
  assumes "delimited r" "parse_exp s = Some (x, t)"
  shows "parse_exp (s @ r) = Some (x, t @ r)"
proof (cases s)
  case Nil
  then show ?thesis using assms by (cases r) (auto simp: parse_exp_def delimited_def)
next
  case (Cons c u)
  show ?thesis
  proof (cases "c = CHR ''e'' \<or> c = CHR ''E''")
    case False
    then show ?thesis using assms(2) Cons by (auto simp: parse_exp_def)
  next
    case True
    define sg where "sg = (if u \<noteq> [] \<and> (hd u = CHR ''-'' \<or> hd u = CHR ''+'') then [hd u] else [])"
    obtain ds where ds: "take_digits (drop (length sg) u) = (ds, t)" "ds \<noteq> []" "x = c # sg @ ds"
      using assms(2) Cons True by (auto simp: parse_exp_def Let_def sg_def split: prod.splits if_splits)
    then have "u \<noteq> []" by (auto simp: take_digits_def)
    then obtain a v where u: "u = a # v" by (cases u) auto
    show ?thesis
      using ds True take_digits_append [OF assms(1), of "drop (length sg) u"]
      by (cases "a = CHR ''-'' \<or> a = CHR ''+''") (auto simp: parse_exp_def Let_def sg_def Cons u)
  qed
qed

lemma parse_num_append:
  assumes "delimited r" "parse_num s = Some (x, t)"
  shows "parse_num (s @ r) = Some (x, t @ r)"
proof -
  define sg where "sg = (if s \<noteq> [] \<and> hd s = CHR ''-'' then [hd s] else [])"
  obtain i r1 f r2 e where p: "parse_int_part (drop (length sg) s) = Some (i, r1)"
    "parse_frac r1 = Some (f, r2)" "parse_exp r2 = Some (e, t)" "x = sg @ i @ f @ e"
    using assms(2) by (auto simp: parse_num_def Let_def bind_eq_Some_conv sg_def)
  then have "s \<noteq> []" by (auto simp: parse_int_part_def)
  then obtain c u where s: "s = c # u" by (cases s) auto
  show ?thesis
    using p parse_int_part_append [OF assms(1) p(1)] parse_frac_append [OF assms(1) p(2)]
      parse_exp_append [OF assms(1) p(3)]
    by (cases "c = CHR ''-''") (simp_all add: parse_num_def Let_def sg_def s)
qed

text \<open>A literal starts with a digit or a minus sign.\<close>

lemma num_ok_first:
  assumes "num_ok l"
  obtains c t where "l = c # t" "is_digit c \<or> c = CHR ''-''"
proof -
  obtain i f e r1 r2 r3 where p: "parse_int_part (drop (length (if l \<noteq> [] \<and> hd l = CHR ''-'' then [hd l] else [])) l) = Some (i, r1)"
    "parse_frac r1 = Some (f, r2)" "parse_exp r2 = Some (e, r3)"
    using assms by (auto simp: num_ok_def parse_num_def Let_def bind_eq_Some_conv)
  have "\<exists>c t. l = c # t \<and> (is_digit c \<or> c = CHR ''-'')"
  proof (cases l)
    case Nil
    then show ?thesis using p(1) by (simp add: parse_int_part_def)
  next
    case (Cons c t)
    then show ?thesis
      using p(1) by (cases "c = CHR ''-''") (auto simp: parse_int_part_def is_digit_def split: if_splits)
  qed
  then show thesis using that by blast
qed

lemma dec_first: "0 < n \<Longrightarrow> \<exists>c t. dec n = c # t \<and> is_digit c \<and> c \<noteq> CHR ''0''"
proof (induction n rule: dec.induct)
  case (1 n)
  show ?case
  proof (cases "n < 10")
    case True
    then have "digit_char n \<noteq> CHR ''0''"
      using 1(2) digit_val_digit_char [of n] by (auto simp: digit_val_def)
    then show ?thesis using True 1(2) by (simp add: dec.simps [of n] is_digit_digit_char)
  next
    case False
    then obtain c t where "dec (n div 10) = c # t" "is_digit c" "c \<noteq> CHR ''0''"
      using 1 pos_imp_zdiv_pos_iff [of 10 n] by auto
    then show ?thesis using False by (simp add: dec.simps [of n])
  qed
qed

lemma parse_int_part_dec: "0 \<le> n \<Longrightarrow> parse_int_part (dec n) = Some (dec n, [])"
proof (cases "n = 0")
  case True
  have "parse_int_part (dec 0) = Some (dec 0, [])" by code_simp
  then show ?thesis using True by simp
next
  case False
  assume "0 \<le> n"
  then obtain c t where c: "dec n = c # t" "is_digit c" "c \<noteq> CHR ''0''" using dec_first [of n] False by auto
  have "list_all is_digit (dec n)" using dec_digits \<open>0 \<le> n\<close> by (auto simp: list_all_iff)
  then have "take_digits (dec n) = (dec n, [])" by (auto simp: take_digits_def list_all_iff)
  then show ?thesis using c by (simp add: parse_int_part_def)
qed

lemma num_ok_int: "num_ok (format_int i)"
proof (cases "i < 0")
  case True
  then show ?thesis
    using parse_int_part_dec [of "- i"]
    by (simp add: num_ok_def format_int_def parse_num_def parse_frac_def parse_exp_def)
next
  case False
  have "hd (dec i) \<noteq> CHR ''-''"
  proof (cases "i = 0")
    case True
    have "hd (dec 0) = CHR ''0''" by code_simp
    then show ?thesis using True by simp
  next
    case i: False
    obtain c t where "dec i = c # t" "is_digit c" using dec_first [of i] False i by auto
    then show ?thesis by (auto simp: is_digit_def)
  qed
  then show ?thesis
    using False parse_int_part_dec [of i]
    by (simp add: num_ok_def format_int_def parse_num_def parse_frac_def parse_exp_def)
qed

section \<open>Values\<close>

fun json_ok :: "json \<Rightarrow> bool" where
  "json_ok JNull = True"
| "json_ok (JBool b) = True"
| "json_ok (JNum l) = num_ok l"
| "json_ok (JStr s) = utf8_ok s"
| "json_ok (JArr js) = list_all json_ok js"
| "json_ok (JObj kvs) = list_all (\<lambda>(k, v). utf8_ok k \<and> json_ok v) kvs"

fun depth :: "json \<Rightarrow> nat" where
  "depth (JArr js) = Suc (foldr max (map depth js) 0)"
| "depth (JObj kvs) = Suc (foldr max (map (\<lambda>(k, v). depth v) kvs) 0)"
| "depth j = 0"

text \<open>A value whose numbers are literals, and the value as it is read after printing.\<close>

fun nums_ok :: "json \<Rightarrow> bool" where
  "nums_ok (JNum l) = num_ok l"
| "nums_ok (JArr js) = list_all nums_ok js"
| "nums_ok (JObj kvs) = list_all (\<lambda>(k, v). nums_ok v) kvs"
| "nums_ok j = True"

fun clean_json :: "json \<Rightarrow> json" where
  "clean_json (JStr s) = JStr (clean s)"
| "clean_json (JArr js) = JArr (map clean_json js)"
| "clean_json (JObj kvs) = JObj (map (\<lambda>(k, v). (clean k, clean_json v)) kvs)"
| "clean_json j = j"

lemma json_ok_clean: "json_ok j \<Longrightarrow> nums_ok j \<and> clean_json j = j"
  by (induction j rule: json_ok.induct)
     (auto simp: list_all_iff clean_id intro!: map_idI)

lemma foldr_max_le: "x \<in> set xs \<Longrightarrow> f x \<le> foldr max (map f xs) (0 :: nat)"
  by (induction xs) auto

lemma foldr_max_bound: "(\<And>x. x \<in> set xs \<Longrightarrow> f x \<le> n) \<Longrightarrow> foldr max (map f xs) 0 \<le> (n :: nat)"
  by (induction xs) auto

lemma marshal_first:
  assumes "nums_ok j"
  obtains c t where "marshal j = c # t" "\<not> is_ws c" "c \<noteq> CHR '']''"
proof -
  have "\<exists>c t. marshal j = c # t \<and> \<not> is_ws c \<and> c \<noteq> CHR '']''"
  proof (cases j)
    case (JNum l)
    then have "num_ok l" using assms by simp
    then obtain c t where "l = c # t" "is_digit c \<or> c = CHR ''-''" by (rule num_ok_first)
    moreover from this(2) have "\<not> is_ws c \<and> c \<noteq> CHR '']''" by (auto simp: is_ws_def is_digit_def)
    ultimately show ?thesis using JNum by simp
  qed (auto simp: is_ws_def quote_json_def)
  then show thesis using that by blast
qed

lemma skip_ws_id: "\<not> is_ws c \<Longrightarrow> skip_ws (c # t) = c # t"
  by (simp add: skip_ws_def)

lemma punctuation [simp]:
  "\<not> is_ws (CHR '']'')" "\<not> is_ws (CHR ''}'')" "\<not> is_ws (CHR '','')" "\<not> is_ws (CHR '':'')" "\<not> is_ws (CHR 0x22)"
  "\<not> is_ws (CHR ''['')" "\<not> is_ws (CHR ''{'')"
  "delimited (CHR '']'' # r)" "delimited (CHR ''}'' # r)" "delimited (CHR '','' # r)"
  by (simp_all add: is_ws_def delimited_def is_digit_def)

lemma pelems_marshal:
  assumes "\<And>j r. j \<in> set js \<Longrightarrow> delimited r \<Longrightarrow> pval d (marshal j @ r) = Some (f j, r)" "js \<noteq> []"
  shows "pelems d (join '','' (map marshal js) @ CHR '']'' # r) = Some (map f js, r)"
  using assms
proof (induction js)
  case (Cons j js)
  show ?case
  proof (cases js)
    case Nil
    then show ?thesis using Cons.prems(1) [of j "CHR '']'' # r"] by (subst pelems_eq) (simp add: skip_ws_id)
  next
    case (Cons j2 js2)
    then have "pelems d (join '','' (map marshal js) @ CHR '']'' # r) = Some (map f js, r)"
      using Cons.IH Cons.prems by simp
    then show ?thesis
      using Cons Cons.prems(1) [of j "CHR '','' # join '','' (map marshal js) @ CHR '']'' # r"]
      by (subst pelems_eq) (simp add: skip_ws_id)
  qed
qed simp

lemma pmembers_marshal:
  assumes "\<And>k v r. (k, v) \<in> set kvs \<Longrightarrow> delimited r \<Longrightarrow> pval d (marshal v @ r) = Some (f v, r)" "kvs \<noteq> []"
  shows "pmembers d (join '','' (map (\<lambda>(k, v). quote_json k @ '':'' @ marshal v) kvs) @ CHR ''}'' # r) =
    Some (map (\<lambda>(k, v). (clean k, f v)) kvs, r)"
  using assms
proof (induction kvs)
  case (Cons kv kvs)
  obtain k v where kv: "kv = (k, v)" by fastforce
  show ?case
  proof (cases kvs)
    case Nil
    then show ?thesis using Cons.prems(1) [of k v "CHR ''}'' # r"]
      by (subst pmembers_eq) (simp add: kv quote_json_def skip_ws_id parse_str_escape)
  next
    case (Cons kv2 kvs2)
    then have "kvs \<noteq> []" by simp
    with Cons.IH Cons.prems(1)
    have "pmembers d (join '','' (map (\<lambda>(k, v). quote_json k @ '':'' @ marshal v) kvs) @ CHR ''}'' # r) =
        Some (map (\<lambda>(k, v). (clean k, f v)) kvs, r)"
      by (metis list.set_intros(2))
    then show ?thesis
      using Cons Cons.prems(1) [of k v "CHR '','' # join '','' (map (\<lambda>(k, v). quote_json k @ '':'' @ marshal v) kvs) @ CHR ''}'' # r"]
      by (subst pmembers_eq) (simp add: kv quote_json_def skip_ws_id parse_str_escape)
  qed
qed simp

lemma pval_marshal:
  "nums_ok j \<Longrightarrow> d + depth j \<le> 10000 \<Longrightarrow> delimited r \<Longrightarrow>
   pval d (marshal j @ r) = Some (clean_json j, r)"
proof (induction j arbitrary: d r rule: marshal.induct)
  case 1
  then show ?case by (simp add: pval_eq skip_ws_def is_ws_def)
next
  case (2 b)
  then show ?case by (simp add: pval_eq skip_ws_def is_ws_def)
next
  case (3 l)
  then have l: "num_ok l" by simp
  then obtain c t where c: "l = c # t" "is_digit c \<or> c = CHR ''-''" by (rule num_ok_first)
  then have ne: "\<not> is_ws c" "c \<noteq> CHR 0x22" "c \<noteq> CHR ''{''" "c \<noteq> CHR ''[''" "c \<noteq> CHR ''n''" "c \<noteq> CHR ''t''" "c \<noteq> CHR ''f''"
    by (auto simp: is_ws_def is_digit_def)
  have "parse_num (c # t @ r) = Some (l, r)"
    using parse_num_append [OF 3(3), of l l "[]"] l c(1) by (simp add: num_ok_def)
  then show ?case using ne c(1) by (simp add: pval_eq skip_ws_id)
next
  case (4 s)
  then show ?case by (simp add: pval_eq quote_json_def skip_ws_id parse_str_escape)
next
  case (5 js)
  show ?case
  proof (cases js)
    case Nil
    then show ?thesis using 5 by (simp add: pval_eq skip_ws_id)
  next
    case (Cons j js2)
    have "pval (Suc d) (marshal x @ y) = Some (clean_json x, y)" if "x \<in> set js" "delimited y" for x y
      using 5 that foldr_max_le [OF that(1), of depth] by (auto simp: list_all_iff)
    then have e: "pelems (Suc d) (join '','' (map marshal js) @ CHR '']'' # r) = Some (map clean_json js, r)"
      using Cons by (intro pelems_marshal) auto
    have "nums_ok j" using 5(2) Cons by simp
    then obtain c t where "marshal j = c # t" "\<not> is_ws c" "c \<noteq> CHR '']''" by (rule marshal_first)
    then have "\<exists>t. join '','' (map marshal js) = c # t" using Cons by (cases js2) auto
    then show ?thesis
      using e 5(3) \<open>\<not> is_ws c\<close> \<open>c \<noteq> CHR '']''\<close> by (auto simp: pval_eq skip_ws_id)
  qed
next
  case (6 kvs)
  show ?case
  proof (cases kvs)
    case Nil
    then show ?thesis using 6 by (simp add: pval_eq skip_ws_id)
  next
    case (Cons kv kvs2)
    have "pval (Suc d) (marshal x @ y) = Some (clean_json x, y)" if "(k, x) \<in> set kvs" "delimited y" for k x y
      using 6 that foldr_max_le [OF that(1), of "\<lambda>(k, v). depth v"] by (fastforce simp: list_all_iff)
    then have e: "pmembers (Suc d) (join '','' (map (\<lambda>(k, v). quote_json k @ '':'' @ marshal v) kvs) @ CHR ''}'' # r) =
        Some (map (\<lambda>(k, v). (clean k, clean_json v)) kvs, r)"
      using Cons by (intro pmembers_marshal) auto
    have "\<exists>t. join '','' (map (\<lambda>(k, v). quote_json k @ '':'' @ marshal v) kvs) = CHR 0x22 # t"
      using Cons by (cases kv; cases kvs2) (auto simp: quote_json_def)
    then show ?thesis
      using e 6(3) by (auto simp: pval_eq skip_ws_id)
  qed
qed

lemma json_reads:
  assumes "nums_ok j" "depth j \<le> 10000"
  shows "json_unmarshal (encode_line j) = Some (clean_json j)"
proof -
  have nl: "delimited [char_of (10 :: nat)]" "skip_ws [char_of (10 :: nat)] = []" by code_simp+
  show ?thesis
    using pval_marshal [OF assms(1) _ nl(1), of 0] assms(2) nl(2)
    by (simp add: json_unmarshal_pval encode_line_def)
qed

lemma json_roundtrip: "json_ok j \<Longrightarrow> depth j \<le> 10000 \<Longrightarrow> json_unmarshal (encode_line j) = Some j"
  using json_reads json_ok_clean by metis

text \<open>Every parsed value has strings that are UTF-8.\<close>

fun strings_ok :: "json \<Rightarrow> bool" where
  "strings_ok (JStr s) = utf8_ok s"
| "strings_ok (JArr js) = list_all strings_ok js"
| "strings_ok (JObj kvs) = list_all (\<lambda>(k, v). utf8_ok k \<and> strings_ok v) kvs"
| "strings_ok j = True"

lemma parse_val_strings: "parse_val n d s = Some (j, r) \<Longrightarrow> strings_ok j"
  by (rule conjunct2, rule parse_closed(1) [where Q = utf8_ok]) (auto dest: parse_str_ok)

lemma json_unmarshal_strings: "json_unmarshal s = Some j \<Longrightarrow> strings_ok j"
  by (auto simp: json_unmarshal_def dest: parse_val_strings split: option.splits if_splits)

end
