(* ===== verification/Decode.thy ===== *)
theory Decode
  imports Json
begin

text \<open>
  Decoding a JSON value into a Go value, as \<open>json.Unmarshal\<close> does it for the types of the sources: a
  decoder takes the value and the Go value to overwrite, and gives the new Go value or an error.
  \<open>null\<close> leaves any value but a pointer, slice or interface as it was.
\<close>

type_synonym 'a dec = "json \<Rightarrow> 'a \<Rightarrow> 'a option"

fun dec_string :: "string dec" where
  "dec_string (JStr s) old = Some s"
| "dec_string JNull old = Some old"
| "dec_string _ old = None"

fun dec_bool :: "bool dec" where
  "dec_bool (JBool b) old = Some b"
| "dec_bool JNull old = Some old"
| "dec_bool _ old = None"

text \<open>An integer field takes a literal without fraction or exponent that is in range.\<close>

fun dec_int :: "int dec" where
  "dec_int (JNum l) old = (case atoi l of (v, AtoiOk) \<Rightarrow> Some v | _ \<Rightarrow> None)"
| "dec_int JNull old = Some old"
| "dec_int _ old = None"

fun dec_uint64 :: "int dec" where
  "dec_uint64 (JNum l) old =
     (if l \<noteq> [] \<and> list_all is_digit l \<and> undec l < 2 ^ 64 then Some (undec l) else None)"
| "dec_uint64 JNull old = Some old"
| "dec_uint64 _ old = None"

fun dec_float :: "f64 dec" where
  "dec_float (JNum l) old = parse_float l"
| "dec_float JNull old = Some old"
| "dec_float _ old = None"

fun dec_ptr :: "'a dec \<Rightarrow> 'a \<Rightarrow> 'a option dec" where
  "dec_ptr d zero JNull old = Some None"
| "dec_ptr d zero j old = map_option Some (d j (case old of Some x \<Rightarrow> x | None \<Rightarrow> zero))"

fun traverse :: "('a \<Rightarrow> 'b option) \<Rightarrow> 'a list \<Rightarrow> 'b list option" where
  "traverse f [] = Some []"
| "traverse f (x # xs) =
     (case f x of
        None \<Rightarrow> None
      | Some y \<Rightarrow> (case traverse f xs of None \<Rightarrow> None | Some ys \<Rightarrow> Some (y # ys)))"

lemma traverse_cong [fundef_cong]:
  "xs = ys \<Longrightarrow> (\<And>x. x \<in> set ys \<Longrightarrow> f x = g x) \<Longrightarrow> traverse f xs = traverse g ys"
  by (induction ys arbitrary: xs) (auto split: option.splits)

lemma traverse_length: "traverse f xs = Some ys \<Longrightarrow> length ys = length xs"
  by (induction xs arbitrary: ys) (auto split: option.splits)

lemma traverse_all:
  "traverse f xs = Some ys \<Longrightarrow> (\<And>x y. f x = Some y \<Longrightarrow> P y) \<Longrightarrow> list_all P ys"
  by (induction xs arbitrary: ys) (auto split: option.splits)

fun dec_list :: "'a dec \<Rightarrow> 'a \<Rightarrow> 'a list dec" where
  "dec_list d zero (JArr js) old = traverse (\<lambda>j. d j zero) js"
| "dec_list d zero JNull old = Some []"
| "dec_list d zero _ old = None"

section \<open>Structs\<close>

text \<open>
  A field of a struct by its JSON name. Keys match exactly or up to case; the case folding of a
  letter of an ASCII name includes the Kelvin sign (for k) and the long s (for s).
\<close>

fun fold_key :: "string \<Rightarrow> string" where
  "fold_key [] = []"
| "fold_key (c # s) =
     (if byte c = 197 \<and> has_prefix s [char_of (191 :: nat)] then CHR ''s'' # fold_key (drop 1 s)
      else if byte c = 226 \<and> has_prefix s [char_of (132 :: nat), char_of (170 :: nat)]
      then CHR ''k'' # fold_key (drop 2 s)
      else lower_char c # fold_key s)"

type_synonym 's field = "string \<times> (json \<Rightarrow> 's \<Rightarrow> 's option)"

definition find_field :: "'s field list \<Rightarrow> string \<Rightarrow> 's field option" where
  "find_field fs k =
     (case find (\<lambda>f. fst f = k) fs of
        Some f \<Rightarrow> Some f
      | None \<Rightarrow> find (\<lambda>f. fold_key (fst f) = fold_key k) fs)"

fun dec_members :: "'s field list \<Rightarrow> (string \<times> json) list \<Rightarrow> 's \<Rightarrow> 's option" where
  "dec_members fs [] s = Some s"
| "dec_members fs ((k, v) # kvs) s =
     (case find_field fs k of
        None \<Rightarrow> dec_members fs kvs s
      | Some (n, f) \<Rightarrow>
          (case f v s of None \<Rightarrow> None | Some s' \<Rightarrow> dec_members fs kvs s'))"

fun dec_struct :: "'s field list \<Rightarrow> 's dec" where
  "dec_struct fs (JObj kvs) s = dec_members fs kvs s"
| "dec_struct fs JNull s = Some s"
| "dec_struct fs _ s = None"

definition field ::
    "string \<Rightarrow> 'a dec \<Rightarrow> ('s \<Rightarrow> 'a) \<Rightarrow> ('a \<Rightarrow> 's \<Rightarrow> 's) \<Rightarrow> 's field" where
  "field n d get put = (n, \<lambda>j s. map_option (\<lambda>x. put x s) (d j (get s)))"

text \<open>A property that no field decoder breaks holds of the decoded struct.\<close>

lemma find_field_member: "find_field fs k = Some f \<Longrightarrow> f \<in> set fs"
  by (auto simp: find_field_def find_Some_iff split: option.splits)

lemma dec_members_invariant:
  assumes "\<And>n f v s s'. (n, f) \<in> set fs \<Longrightarrow> P s \<Longrightarrow> f v s = Some s' \<Longrightarrow> P s'"
  shows "P s \<Longrightarrow> dec_members fs kvs s = Some s' \<Longrightarrow> P s'"
proof (induction kvs arbitrary: s)
  case Nil
  then show ?case by simp
next
  case (Cons kv kvs)
  obtain k v where kv: "kv = (k, v)" by fastforce
  show ?case
  proof (cases "find_field fs k")
    case None
    with Cons kv show ?thesis by simp
  next
    case (Some nf)
    obtain n f where nf: "nf = (n, f)" by fastforce
    with Some Cons.prems kv obtain s1
      where s1: "f v s = Some s1" "dec_members fs kvs s1 = Some s'"
      by (auto split: option.splits)
    have "(n, f) \<in> set fs" using find_field_member [OF Some] nf by simp
    then have "P s1" using Cons.prems(1) s1(1) by (rule assms)
    then show ?thesis using Cons.IH s1(2) by blast
  qed
qed

section \<open>Values of type any\<close>

text \<open>
  Decoding into an interface value: a number becomes a float64 (here its literal becomes the one
  \<open>json.Marshal\<close> prints for that float64), an object a map, whose later members replace earlier
  ones and which prints in key order.
\<close>

fun last_member :: "(string \<times> 'a) list \<Rightarrow> (string \<times> 'a) list" where
  "last_member [] = []"
| "last_member ((k, v) # kvs) =
     (if k \<in> fst ` set kvs then last_member kvs else (k, v) # last_member kvs)"

definition canonical_num :: "string \<Rightarrow> string option" where
  "canonical_num l = Option.bind (parse_float l) format_float"

fun to_any :: "json \<Rightarrow> json option" where
  "to_any JNull = Some JNull"
| "to_any (JBool b) = Some (JBool b)"
| "to_any (JStr s) = Some (JStr s)"
| "to_any (JNum l) = map_option JNum (canonical_num l)"
| "to_any (JArr js) = map_option JArr (traverse to_any js)"
| "to_any (JObj kvs) =
     map_option (\<lambda>vs. jmap (last_member (zip (map fst kvs) vs)))
       (traverse (\<lambda>kv. to_any (snd kv)) kvs)"

fun dec_any :: "json dec" where
  "dec_any j old = to_any j"

text \<open>Reading a decoded value: a map access and a type assertion, \<open>m[k].(T)\<close>.\<close>

fun obj_get :: "json \<Rightarrow> string \<Rightarrow> json option" where
  "obj_get (JObj kvs) k = map_of kvs k"
| "obj_get _ k = None"

fun as_string :: "json option \<Rightarrow> string option" where
  "as_string (Some (JStr s)) = Some s"
| "as_string _ = None"

fun as_array :: "json option \<Rightarrow> json list option" where
  "as_array (Some (JArr js)) = Some js"
| "as_array _ = None"

fun as_object :: "json option \<Rightarrow> json option" where
  "as_object (Some (JObj kvs)) = Some (JObj kvs)"
| "as_object _ = None"

end
