(* ===== verification/Http.thy ===== *)
theory Http
  imports Json
begin

text \<open>
  Package net/http as the sources use it. Outgoing: a request, the outcome of building and sending
  it, and the error text of \<open>Client.Do\<close>; the remote end is a transport, a parameter of every
  definition that sends. Incoming: the response writer, whose header map is frozen by the first
  \<open>WriteHeader\<close> (implicit in the first \<open>Write\<close>, with status 200).
\<close>

section \<open>Headers\<close>

text \<open>\<open>Header.Set\<close> stores under the canonical key: capitals at the start and after each dash.\<close>

fun canon_from :: "bool \<Rightarrow> string \<Rightarrow> string" where
  "canon_from up [] = []"
| "canon_from up (c # s) =
     (if up then upper_char c else lower_char c) # canon_from (c = CHR ''-'') s"

definition canonical_key :: "string \<Rightarrow> string" where
  "canonical_key k = canon_from True k"

type_synonym headers = "string \<Rightarrow> string option"

definition header_set :: "headers \<Rightarrow> string \<Rightarrow> string \<Rightarrow> headers" where
  "header_set h k v = h(canonical_key k \<mapsto> v)"

definition header_get :: "headers \<Rightarrow> string \<Rightarrow> string" where
  "header_get h k = (case h (canonical_key k) of Some v \<Rightarrow> v | None \<Rightarrow> [])"

lemma header_get_set:
  "header_get (header_set h k v) k' =
     (if canonical_key k = canonical_key k' then v else header_get h k')"
  by (simp add: header_get_def header_set_def)

section \<open>Outgoing requests\<close>

record http_request =
  rq_method :: string
  rq_url :: string
  rq_headers :: headers
  rq_body :: string

text \<open>
  The outcome of \<open>http.NewRequestWithContext\<close> and \<open>Client.Do\<close>: the URL does not parse; sending fails,
  with the text of the cause; or a response, with its status, the body bytes that could be read and
  the error that ended reading early, if any.
\<close>

datatype http_result =
    ReqInvalid go_error
  | DoFailed string
  | Response nat string "go_error option"

type_synonym transport = "http_request \<Rightarrow> http_result"

text \<open>The requests that an operation sends to a provider, listed beside its result.\<close>

type_synonym sent = "http_request list"

text \<open>
  The text of the \<open>*url.Error\<close> that \<open>Client.Do\<close> returns: operation, URL quoted by \<open>%q\<close>, cause. Quotes
  and backslashes are escaped; control characters are no part of a URL that parses, and runes beyond
  ASCII are taken to be printable. The URL is taken to be one that net/url prints as it was given.
\<close>

definition quoted :: "string \<Rightarrow> string" where
  "quoted s = concat (map (\<lambda>c. if c = CHR 0x22 \<or> c = CHR 0x5C then [CHR 0x5C, c] else [c]) s)"

lemma quoted_append [simp]: "quoted (s @ t) = quoted s @ quoted t"
  by (simp add: quoted_def)

lemma quoted_plain: "CHR 0x22 \<notin> set s \<Longrightarrow> CHR 0x5C \<notin> set s \<Longrightarrow> quoted s = s"
  by (induction s) (auto simp: quoted_def)

definition url_error :: "http_request \<Rightarrow> string \<Rightarrow> go_error" where
  "url_error rq cause =
     errorf ((case rq_method rq of [] \<Rightarrow> ''Get'' | c # m \<Rightarrow> c # map lower_char m) @ '' '' @
             [CHR 0x22] @ quoted (rq_url rq) @ [CHR 0x22] @ '': '' @ cause)"

section \<open>The response writer\<close>

record response_writer =
  rw_header :: headers
  rw_sent :: "(nat \<times> headers) option"
  rw_body :: string
  rw_writes :: nat

definition new_writer :: response_writer where
  "new_writer = \<lparr>rw_header = (\<lambda>_. None), rw_sent = None, rw_body = [], rw_writes = 0\<rparr>"

definition set_header :: "string \<Rightarrow> string \<Rightarrow> response_writer \<Rightarrow> response_writer" where
  "set_header k v w = w\<lparr>rw_header := header_set (rw_header w) k v\<rparr>"

definition write_header :: "nat \<Rightarrow> response_writer \<Rightarrow> response_writer" where
  "write_header code w =
     (case rw_sent w of
        None \<Rightarrow> w\<lparr>rw_sent := Some (code, rw_header w)\<rparr>
      | Some _ \<Rightarrow> w)"

definition write_body :: "string \<Rightarrow> response_writer \<Rightarrow> response_writer" where
  "write_body bs w =
     (let w' = write_header 200 w
      in w'\<lparr>rw_body := rw_body w' @ bs, rw_writes := Suc (rw_writes w')\<rparr>)"

text \<open>What the client receives: the status, 200 when nothing was ever written, and the headers.\<close>

definition rw_status :: "response_writer \<Rightarrow> nat" where
  "rw_status w = (case rw_sent w of Some (c, _) \<Rightarrow> c | None \<Rightarrow> 200)"

definition rw_sent_header :: "response_writer \<Rightarrow> string \<Rightarrow> string" where
  "rw_sent_header w k =
     header_get (case rw_sent w of Some (_, h) \<Rightarrow> h | None \<Rightarrow> rw_header w) k"

definition untouched :: "response_writer \<Rightarrow> bool" where
  "untouched w \<longleftrightarrow> rw_sent w = None \<and> rw_body w = []"

named_theorems writer "how the operations of the response writer change its fields"

lemma set_header_fields [simp, writer]:
  "rw_sent (set_header k v w) = rw_sent w"
  "rw_body (set_header k v w) = rw_body w"
  "rw_writes (set_header k v w) = rw_writes w"
  "rw_header (set_header k v w) = header_set (rw_header w) k v"
  by (simp_all add: set_header_def)

lemma write_header_fields [simp, writer]:
  "rw_sent (write_header c w) =
     (case rw_sent w of None \<Rightarrow> Some (c, rw_header w) | Some x \<Rightarrow> Some x)"
  "rw_body (write_header c w) = rw_body w"
  "rw_header (write_header c w) = rw_header w"
  "rw_writes (write_header c w) = rw_writes w"
  by (simp_all add: write_header_def split: option.splits)

lemma write_body_fields [simp, writer]:
  "rw_body (write_body bs w) = rw_body w @ bs"
  "rw_sent (write_body bs w) =
     (case rw_sent w of None \<Rightarrow> Some (200, rw_header w) | Some x \<Rightarrow> Some x)"
  "rw_header (write_body bs w) = rw_header w"
  "rw_writes (write_body bs w) = Suc (rw_writes w)"
  by (simp_all add: write_body_def Let_def)

lemma untouched_set_header [simp]: "untouched (set_header k v w) = untouched w"
  by (simp add: untouched_def)

lemma untouched_new [simp]: "untouched new_writer"
  by (simp add: untouched_def new_writer_def)

end
