(* ===== verification/Apierr.thy ===== *)
theory Apierr
  imports Http Decode Json_Roundtrip
begin

text \<open>
  internal/apierr: the stable error codes, the unified error body and one writer per kind of error,
  in the order of the source, with the decimal conversion \<open>itoa\<close> over its 20-byte buffer.
\<close>

definition CodeUnauthorized :: string where "CodeUnauthorized = ''unauthorized''"
definition CodeInvalidRequest :: string where "CodeInvalidRequest = ''invalid_request''"
definition CodeRateLimitExceeded :: string where "CodeRateLimitExceeded = ''rate_limit_exceeded''"
definition CodeRateLimitUnavailable :: string where
  "CodeRateLimitUnavailable = ''rate_limit_unavailable''"
definition CodeRoutingUnavailable :: string where "CodeRoutingUnavailable = ''routing_unavailable''"
definition CodeModelNotAvailable :: string where "CodeModelNotAvailable = ''model_not_available''"
definition CodeModelTierDenied :: string where "CodeModelTierDenied = ''model_tier_denied''"
definition CodeProviderUnavailable :: string where
  "CodeProviderUnavailable = ''provider_unavailable''"
definition CodeProviderTimeout :: string where "CodeProviderTimeout = ''provider_timeout''"
definition CodeStreamingNotSupported :: string where
  "CodeStreamingNotSupported = ''streaming_not_supported''"
definition CodeServiceUnavailable :: string where
  "CodeServiceUnavailable = ''service_unavailable''"
definition CodeInternalError :: string where "CodeInternalError = ''internal_error''"
definition CodeManifestUnavailable :: string where
  "CodeManifestUnavailable = ''manifest_unavailable''"
definition CodeManifestInvalid :: string where "CodeManifestInvalid = ''manifest_invalid''"

lemmas code_defs = CodeUnauthorized_def CodeInvalidRequest_def CodeRateLimitExceeded_def
  CodeRateLimitUnavailable_def CodeRoutingUnavailable_def CodeModelNotAvailable_def
  CodeModelTierDenied_def CodeProviderUnavailable_def CodeProviderTimeout_def
  CodeStreamingNotSupported_def CodeManifestUnavailable_def CodeManifestInvalid_def

text \<open>The body: \<open>details\<close> is a Go map, left out when it is nil or empty.\<close>

definition error_body :: "string \<Rightarrow> string \<Rightarrow> (string \<times> json) list \<Rightarrow> json" where
  "error_body code message details =
     JObj [(''error'',
       JObj ([(''code'', JStr code), (''message'', JStr message)] @
             (if details = [] then [] else [(''details'', jmap details)])))]"

definition Write ::
    "nat \<Rightarrow> string \<Rightarrow> string \<Rightarrow> (string \<times> json) list \<Rightarrow> response_writer \<Rightarrow> response_writer" where
  "Write status code message details w =
     write_body (encode_line (error_body code message details))
       (write_header status (set_header ''Content-Type'' ''application/json'' w))"

section \<open>Decimal conversion in a fixed buffer\<close>

text \<open>
  \<open>for n > 0 { i--; buf[i] = byte('0' + n%10); n /= 10 }\<close>. The state is the buffer and the index; an
  index below 0 is Go's index-out-of-range panic, None.
\<close>

function itoa_loop :: "int \<Rightarrow> nat \<Rightarrow> string \<Rightarrow> (nat \<times> string) option" where
  "itoa_loop n i buf =
     (if n \<le> 0 then Some (i, buf)
      else if i = 0 then None
      else itoa_loop (n div 10) (i - 1) (buf[i - 1 := digit_char (n mod 10)]))"
  by pat_completeness auto
termination
  by (relation "measure (\<lambda>(n, i, buf). i)") auto

declare itoa_loop.simps [simp del]

definition itoa :: "int \<Rightarrow> string option" where
  "itoa n =
     (if n \<le> 0 then Some ''0''
      else case itoa_loop n 20 (replicate 20 (char_of (0 :: nat))) of
             None \<Rightarrow> None
           | Some (i, buf) \<Rightarrow> Some (drop i buf))"

lemma itoa_loop_dec:
  "0 < n \<Longrightarrow> length (dec n) \<le> i \<Longrightarrow> i \<le> length buf \<Longrightarrow>
   \<exists>buf'. itoa_loop n i buf = Some (i - length (dec n), buf') \<and> length buf' = length buf \<and>
          drop (i - length (dec n)) buf' = dec n @ drop i buf"
proof (induction n i buf rule: itoa_loop.induct)
  case (1 n i buf)
  let ?c = "digit_char (n mod 10)"
  have i: "0 < i" using "1.prems"(2) by (cases i) (simp_all add: dec.simps [of n] split: if_splits)
  have dl: "drop (i - 1) (buf[i - 1 := ?c]) = ?c # drop i buf"
    using i "1.prems"(3) by (simp add: drop_update_swap Cons_nth_drop_Suc [symmetric])
  have step: "itoa_loop n i buf = itoa_loop (n div 10) (i - 1) (buf[i - 1 := ?c])"
    using i "1.prems"(1) by (simp add: itoa_loop.simps [of n i buf])
  show ?case
  proof (cases "n < 10")
    case True
    then have "dec n = [?c]" "n div 10 = 0" using "1.prems"(1) by (simp_all add: dec.simps [of n])
    then show ?thesis
      using step dl by (simp add: itoa_loop.simps [of 0])
  next
    case False
    then have d: "dec n = dec (n div 10) @ [?c]" by (simp add: dec.simps [of n])
    have "\<exists>buf'. itoa_loop (n div 10) (i - 1) (buf[i - 1 := ?c]) =
            Some (i - 1 - length (dec (n div 10)), buf') \<and>
          length buf' = length (buf[i - 1 := ?c]) \<and>
          drop (i - 1 - length (dec (n div 10))) buf' =
            dec (n div 10) @ drop (i - 1) (buf[i - 1 := ?c])"
      using "1.IH" "1.prems" False i d by simp
    then show ?thesis using step d dl by simp
  qed
qed

lemma dec_length_bound: "0 \<le> n \<Longrightarrow> n < 10 ^ Suc k \<Longrightarrow> length (dec n) \<le> Suc k"
proof (induction k arbitrary: n)
  case 0
  then show ?case by (simp add: dec.simps [of n])
next
  case (Suc k)
  show ?case
  proof (cases "n < 10")
    case True
    then show ?thesis by (simp add: dec.simps [of n])
  next
    case False
    have "n div 10 < 10 ^ Suc k" using Suc.prems(2) by (simp add: div_less_iff_less_mult)
    with Suc.IH [of "n div 10"] Suc.prems(1) False show ?thesis by (simp add: dec.simps [of n])
  qed
qed

text \<open>Every 64-bit value fits the buffer: the loop never leaves it and yields the decimal digits.\<close>

lemma itoa_int64: "n < 2 ^ 63 \<Longrightarrow> itoa n = Some (if n \<le> 0 then ''0'' else dec n)"
proof (cases "n \<le> 0")
  case False
  assume n: "n < 2 ^ 63"
  let ?buf = "replicate 20 (char_of (0 :: nat)) :: string"
  have "length (dec n) \<le> Suc 18" using n False by (intro dec_length_bound) auto
  then have "length (dec n) \<le> 20" by simp
  then obtain buf' where "itoa_loop n 20 ?buf = Some (20 - length (dec n), buf')"
      "drop (20 - length (dec n)) buf' = dec n @ drop 20 ?buf"
    using itoa_loop_dec [of n 20 ?buf] False by auto
  then show ?thesis using False by (simp add: itoa_def)
qed (simp add: itoa_def)

section \<open>The error writers\<close>

definition WriteUnauthorized :: "response_writer \<Rightarrow> response_writer" where
  "WriteUnauthorized = Write 401 CodeUnauthorized ''Valid Bearer token required.'' []"

definition WriteInvalidRequest ::
    "string \<Rightarrow> (string \<times> json) list \<Rightarrow> response_writer \<Rightarrow> response_writer" where
  "WriteInvalidRequest message details =
     Write 400 CodeInvalidRequest
       (if message = [] then ''Request body or parameters are invalid.'' else message) details"

text \<open>The panic of \<open>itoa\<close> cannot occur on a 64-bit argument (\<open>itoa_int64\<close>).\<close>

definition WriteRateLimitExceeded :: "int \<Rightarrow> response_writer \<Rightarrow> response_writer" where
  "WriteRateLimitExceeded retryAfterSec w =
     Write 429 CodeRateLimitExceeded ''Rate limit exceeded for your subscription tier.''
       [(''retry_after_seconds'', jint retryAfterSec)]
       (if 0 < retryAfterSec
        then set_header ''Retry-After''
               (case itoa retryAfterSec of Some s \<Rightarrow> s | None \<Rightarrow> []) w
        else w)"

definition WriteRateLimitUnavailable :: "response_writer \<Rightarrow> response_writer" where
  "WriteRateLimitUnavailable =
     Write 503 CodeRateLimitUnavailable ''Rate limiting service is temporarily unavailable.'' []"

definition WriteRoutingUnavailable :: "response_writer \<Rightarrow> response_writer" where
  "WriteRoutingUnavailable =
     Write 503 CodeRoutingUnavailable
       ''AI routing configuration is unavailable. Admin must configure providers in Core.'' []"

definition WriteModelNotAvailable :: "string \<Rightarrow> response_writer \<Rightarrow> response_writer" where
  "WriteModelNotAvailable model =
     Write 404 CodeModelNotAvailable
       ''Requested model is not configured or not enabled for Proxy Mode.''
       [(''model'', JStr model)]"

definition WriteModelTierDenied ::
    "string \<Rightarrow> string \<Rightarrow> string \<Rightarrow> response_writer \<Rightarrow> response_writer" where
  "WriteModelTierDenied model tier tierMin =
     Write 403 CodeModelTierDenied ''Your subscription tier does not include this model.''
       [(''model'', JStr model), (''tier'', JStr tier), (''tier_min'', JStr tierMin)]"

definition WriteProviderUnavailable :: "response_writer \<Rightarrow> response_writer" where
  "WriteProviderUnavailable =
     Write 502 CodeProviderUnavailable ''Upstream AI provider is unavailable.'' []"

definition WriteProviderTimeout :: "response_writer \<Rightarrow> response_writer" where
  "WriteProviderTimeout =
     Write 504 CodeProviderTimeout ''Upstream AI provider timed out.'' []"

definition WriteStreamingNotSupported :: "string \<Rightarrow> response_writer \<Rightarrow> response_writer" where
  "WriteStreamingNotSupported providerType =
     Write 501 CodeStreamingNotSupported ''Streaming is not supported for this provider.''
       [(''provider_type'', JStr providerType)]"

definition WriteManifestUnavailable :: "response_writer \<Rightarrow> response_writer" where
  "WriteManifestUnavailable =
     Write 503 CodeManifestUnavailable ''Yad model manifest is temporarily unavailable.'' []"

definition WriteManifestInvalid :: "response_writer \<Rightarrow> response_writer" where
  "WriteManifestInvalid =
     Write 502 CodeManifestInvalid ''Upstream Yad manifest is invalid or empty.'' []"

section \<open>The error contract\<close>

text \<open>
  A response in the unified shape: the status, the content type and a body that parses to an object
  with the code and a message.
\<close>

definition error_reply :: "nat \<Rightarrow> string \<Rightarrow> response_writer \<Rightarrow> bool" where
  "error_reply status code w \<longleftrightarrow>
     rw_status w = status \<and> rw_sent_header w ''Content-Type'' = ''application/json'' \<and>
     (\<exists>message details. message \<noteq> [] \<and>
        json_unmarshal (rw_body w) =
          Some (JObj [(''error'',
                  JObj ([(''code'', JStr code), (''message'', JStr message)] @ details))]))"

text \<open>Details that print to JSON whatever the strings in them.\<close>

definition details_ok :: "(string \<times> json) list \<Rightarrow> bool" where
  "details_ok details \<longleftrightarrow> list_all (\<lambda>(k, v). nums_ok v \<and> depth v \<le> 9000) details"

lemma details_ok_simps [simp]:
  "details_ok []"
  "details_ok ((k, v) # ds) \<longleftrightarrow> nums_ok v \<and> depth v \<le> 9000 \<and> details_ok ds"
  by (simp_all add: details_ok_def)

lemma jmap_ok: "details_ok ds \<Longrightarrow> nums_ok (jmap ds) \<and> depth (jmap ds) \<le> 9001"
proof -
  assume ds: "details_ok ds"
  have "foldr max (map (\<lambda>(k, v). depth v) (sort_key fst ds)) 0 \<le> 9000"
    using ds by (intro foldr_max_bound) (auto simp: details_ok_def list_all_iff)
  then show ?thesis using ds by (auto simp: jmap_def details_ok_def list_all_iff)
qed

lemma envelope_keys:
  "clean ''error'' = ''error''" "clean ''code'' = ''code''" "clean ''message'' = ''message''"
  "clean ''details'' = ''details''"
  by code_simp+

lemma clean_Nil_iff [simp]: "clean s = [] \<longleftrightarrow> s = []"
  by (subst clean.simps) (simp add: rune_error_def)

lemma error_body_reads:
  assumes "details_ok details"
  shows "\<exists>ds. json_unmarshal (encode_line (error_body code message details)) =
    Some (JObj [(''error'',
      JObj ([(''code'', JStr (clean code)), (''message'', JStr (clean message))] @ ds))])"
  using jmap_ok [OF assms]
  by (subst json_reads) (auto simp: error_body_def envelope_keys)

lemma Write_reply:
  assumes "untouched w" "message \<noteq> []" "clean code = code" "details_ok details"
  shows "error_reply status code (Write status code message details w)"
proof -
  obtain ds where "json_unmarshal (encode_line (error_body code message details)) =
      Some (JObj [(''error'', JObj ([(''code'', JStr code), (''message'', JStr (clean message))] @ ds))])"
    using error_body_reads [OF assms(4), of code message] assms(3) by auto
  moreover have "clean message \<noteq> []" using assms(2) by simp
  ultimately show ?thesis
    using assms(1) unfolding error_reply_def untouched_def
    by (auto simp: Write_def rw_status_def rw_sent_header_def header_get_set)
qed

lemma Write_status: "untouched w \<Longrightarrow> rw_status (Write status code message details w) = status"
  by (simp add: Write_def rw_status_def untouched_def)

text \<open>A header set before is sent, unless it is the content type.\<close>

lemma Write_header_kept:
  "untouched w \<Longrightarrow> canonical_key k \<noteq> canonical_key ''Content-Type'' \<Longrightarrow>
   rw_sent_header (Write status code message details w) k = header_get (rw_header w) k"
  by (auto simp: Write_def rw_sent_header_def untouched_def header_get_set)

lemmas write_defs = WriteUnauthorized_def WriteInvalidRequest_def WriteRateLimitExceeded_def
  WriteRateLimitUnavailable_def WriteRoutingUnavailable_def WriteModelNotAvailable_def
  WriteModelTierDenied_def WriteProviderUnavailable_def WriteProviderTimeout_def
  WriteStreamingNotSupported_def WriteManifestUnavailable_def WriteManifestInvalid_def

lemma clean_codes:
  "clean ''unauthorized'' = ''unauthorized''" "clean ''invalid_request'' = ''invalid_request''"
  "clean ''rate_limit_exceeded'' = ''rate_limit_exceeded''"
  "clean ''rate_limit_unavailable'' = ''rate_limit_unavailable''"
  "clean ''routing_unavailable'' = ''routing_unavailable''"
  "clean ''model_not_available'' = ''model_not_available''"
  "clean ''model_tier_denied'' = ''model_tier_denied''"
  "clean ''provider_unavailable'' = ''provider_unavailable''"
  "clean ''provider_timeout'' = ''provider_timeout''"
  "clean ''streaming_not_supported'' = ''streaming_not_supported''"
  "clean ''manifest_unavailable'' = ''manifest_unavailable''"
  "clean ''manifest_invalid'' = ''manifest_invalid''"
  by code_simp+

lemma error_writers:
  assumes "untouched w"
  shows "error_reply 401 ''unauthorized'' (WriteUnauthorized w)"
    "details_ok details \<Longrightarrow> error_reply 400 ''invalid_request'' (WriteInvalidRequest message details w)"
    "error_reply 429 ''rate_limit_exceeded'' (WriteRateLimitExceeded n w)"
    "error_reply 503 ''rate_limit_unavailable'' (WriteRateLimitUnavailable w)"
    "error_reply 503 ''routing_unavailable'' (WriteRoutingUnavailable w)"
    "error_reply 404 ''model_not_available'' (WriteModelNotAvailable model w)"
    "error_reply 403 ''model_tier_denied'' (WriteModelTierDenied model tier tierMin w)"
    "error_reply 502 ''provider_unavailable'' (WriteProviderUnavailable w)"
    "error_reply 504 ''provider_timeout'' (WriteProviderTimeout w)"
    "error_reply 501 ''streaming_not_supported'' (WriteStreamingNotSupported ptype w)"
    "error_reply 503 ''manifest_unavailable'' (WriteManifestUnavailable w)"
    "error_reply 502 ''manifest_invalid'' (WriteManifestInvalid w)"
  using assms by (auto simp: write_defs code_defs clean_codes jint_def num_ok_int intro!: Write_reply)

section \<open>The contract of the writers\<close>

text \<open>
  The error contract. On an untouched response each error writer sends its documented status
  with a JSON body that has the documented code and a message.
\<close>

lemma error_contract:
  assumes "untouched w" "details_ok details"
  shows "error_reply 401 ''unauthorized'' (WriteUnauthorized w) \<and>
    error_reply 400 ''invalid_request'' (WriteInvalidRequest message details w) \<and>
    error_reply 404 ''model_not_available'' (WriteModelNotAvailable model w) \<and>
    error_reply 403 ''model_tier_denied'' (WriteModelTierDenied model tier tierMin w) \<and>
    error_reply 429 ''rate_limit_exceeded'' (WriteRateLimitExceeded n w) \<and>
    error_reply 503 ''rate_limit_unavailable'' (WriteRateLimitUnavailable w) \<and>
    error_reply 503 ''routing_unavailable'' (WriteRoutingUnavailable w) \<and>
    error_reply 503 ''manifest_unavailable'' (WriteManifestUnavailable w) \<and>
    error_reply 502 ''manifest_invalid'' (WriteManifestInvalid w) \<and>
    error_reply 502 ''provider_unavailable'' (WriteProviderUnavailable w) \<and>
    error_reply 504 ''provider_timeout'' (WriteProviderTimeout w) \<and>
    error_reply 501 ''streaming_not_supported'' (WriteStreamingNotSupported ptype w)"
  using error_writers [OF assms(1)] assms(2) by blast

text \<open>
  The decimal conversion of \<open>itoa\<close>. For every positive int its loop stays inside the 20-byte
  buffer (no panic) and prints digits that \<open>Atoi\<close> reads back as the same number.
\<close>

lemma itoa_roundtrip:
  assumes "0 < n" "n < 2 ^ 63"
  shows "\<exists>s. itoa n = Some s \<and> s = dec n \<and> length s \<le> 19 \<and> atoi s = (n, AtoiOk)"
  using itoa_int64 [OF assms(2)] atoi_dec [of n] dec_length_bound [of n 18] assms by auto

end
