(* ===== verification/Ratelimit.thy ===== *)
theory Ratelimit
  imports Prelude
begin

text \<open>
  internal/ratelimit/limiter.go: fixed-window limits per minute and per day, counted in Redis. The
  Redis client is a parameter: a record of the three operations the limiter calls, over a state of
  any type, each with its failures. Whatever is claimed of the limiter under working counters names
  the documented behaviour of INCR and GET it needs as the predicate \<open>redis_counts\<close>.
\<close>

section \<open>Bucket limits\<close>

record bucketConfig =
  daily :: int
  per_minute :: int

definition bucketLimits :: "string \<Rightarrow> bucketConfig option" where
  "bucketLimits b =
     map_of [(''free_standard'', \<lparr>daily = 50, per_minute = 5\<rparr>),
             (''pro_standard'', \<lparr>daily = 1000, per_minute = 10\<rparr>),
             (''power_standard'', \<lparr>daily = 5000, per_minute = 60\<rparr>),
             (''admin'', \<lparr>daily = 10000, per_minute = 100\<rparr>)] b"

lemma bucketLimits_cases:
  assumes "bucketLimits b = Some cfg"
  obtains "b = ''free_standard''" "daily cfg = 50" "per_minute cfg = 5"
  | "b = ''pro_standard''" "daily cfg = 1000" "per_minute cfg = 10"
  | "b = ''power_standard''" "daily cfg = 5000" "per_minute cfg = 60"
  | "b = ''admin''" "daily cfg = 10000" "per_minute cfg = 100"
  using assms by (auto simp: bucketLimits_def split: if_splits)

lemma bucketLimits_pos: "bucketLimits b = Some cfg \<Longrightarrow> 0 < per_minute cfg \<and> 0 < daily cfg"
  by (erule bucketLimits_cases) auto

lemma bucketLimits_small:
  "bucketLimits b = Some cfg \<Longrightarrow> per_minute cfg \<le> 100 \<and> daily cfg \<le> 10000"
  by (erule bucketLimits_cases) auto

lemma bucketLimits_no_colon: "bucketLimits b = Some cfg \<Longrightarrow> CHR '':'' \<notin> set b"
  by (erule bucketLimits_cases) auto

section \<open>Redis, as the limiter calls it\<close>

text \<open>
  A pipeline of INCR and EXPIREAT: the pipeline fails, the INCR reply is an error, or the counter's
  new value. GET: an error, no such key (\<open>redis.Nil\<close>), or the value.
\<close>

datatype exec_outcome = ExecFailed go_error | IncrFailed go_error | Incremented int
datatype get_outcome = GetFailed go_error | GetNil | GetValue int

record 'r redis_ops =
  incr_expireat :: "'r \<Rightarrow> string \<Rightarrow> go_time \<Rightarrow> exec_outcome \<times> 'r"
  redis_get :: "'r \<Rightarrow> string \<Rightarrow> get_outcome \<times> 'r"
  redis_ping :: "'r \<Rightarrow> go_error option"

record limiter =
  failClosed :: bool

record CheckResult =
  cr_Limit :: int
  cr_Remaining :: int
  cr_Reset :: go_time

text \<open>The errors of \<open>Check\<close>: a \<open>*LimitError\<close> with its retry delay, or any other error.\<close>

datatype check_error = LimitError duration | CheckFailed go_error

definition min_key :: "string \<Rightarrow> string \<Rightarrow> string" where
  "min_key bucket userSub = ''proxy:rl:min:'' @ bucket @ '':'' @ userSub"

definition day_key :: "string \<Rightarrow> string \<Rightarrow> string" where
  "day_key bucket userSub = ''proxy:rl:day:'' @ bucket @ '':'' @ userSub"

definition rl_unavailable :: check_error where
  "rl_unavailable = CheckFailed (errorf ''rate limit unavailable'')"

definition redis_error_log :: "string \<Rightarrow> go_error \<Rightarrow> log_entry" where
  "redis_error_log key e =
     \<lparr>le_level = WarnLevel, le_fields = [(''error'', LErr e), (''key'', LStr key)],
      le_msg = ''rate limit redis error''\<rparr>"

section \<open>checkWindow and Check\<close>

definition checkWindow ::
    "limiter \<Rightarrow> 'r redis_ops \<Rightarrow> string \<Rightarrow> int \<Rightarrow> duration \<Rightarrow> go_time \<Rightarrow> 'r \<Rightarrow>
     check_error option \<times> 'r \<times> log_entry list" where
  "checkWindow l ops key limit window now r =
     (let windowStart = time_truncate now window in
      case incr_expireat ops r key (windowStart + window) of
        (ExecFailed e, r') \<Rightarrow>
          (if failClosed l then Some rl_unavailable else None, r', [redis_error_log key e])
      | (IncrFailed e, r') \<Rightarrow> (if failClosed l then Some rl_unavailable else None, r', [])
      | (Incremented count, r') \<Rightarrow>
          (if limit < count then Some (LimitError (time_sub (windowStart + window) now)) else None,
           r', []))"

definition Check ::
    "limiter \<Rightarrow> 'r redis_ops \<Rightarrow> string \<Rightarrow> string \<Rightarrow> go_time \<Rightarrow> 'r \<Rightarrow>
     (check_error + CheckResult) \<times> 'r \<times> log_entry list" where
  "Check l ops userSub bucket now r =
     (case bucketLimits bucket of
        None \<Rightarrow> (Inl (CheckFailed (errorf (''unknown rate limit bucket: '' @ bucket))), r, [])
      | Some cfg \<Rightarrow>
          (case (if 0 < per_minute cfg
                 then checkWindow l ops (min_key bucket userSub) (per_minute cfg) minute now r
                 else (None, r, [])) of
             (Some e, r1, lg1) \<Rightarrow> (Inl e, r1, lg1)
           | (None, r1, lg1) \<Rightarrow>
               (case (if 0 < daily cfg
                      then checkWindow l ops (day_key bucket userSub) (daily cfg) (24 * hour) now r1
                      else (None, r1, [])) of
                  (Some e, r2, lg2) \<Rightarrow> (Inl e, r2, lg1 @ lg2)
                | (None, r2, lg2) \<Rightarrow>
                    (let limit = (if per_minute cfg = 0 then daily cfg else per_minute cfg);
                         window = (if per_minute cfg = 0 then 24 * hour else minute);
                         key = (if per_minute cfg = 0 then day_key bucket userSub
                                else min_key bucket userSub)
                     in case redis_get ops r2 key of
                          (g, r3) \<Rightarrow>
                            (case (case g of GetFailed e \<Rightarrow> if failClosed l then None else Some 0
                                           | GetNil \<Rightarrow> Some 0
                                           | GetValue v \<Rightarrow> Some v) of
                               None \<Rightarrow> (Inl rl_unavailable, r3, lg1 @ lg2)
                             | Some count \<Rightarrow>
                                 (Inr \<lparr>cr_Limit = limit,
                                       cr_Remaining = max 0 (wrap64 (limit - count)),
                                       cr_Reset = time_truncate now window + window\<rparr>,
                                  r3, lg1 @ lg2))))))"

definition Ping :: "'r redis_ops \<Rightarrow> 'r \<Rightarrow> go_error option" where
  "Ping ops r = redis_ping ops r"

section \<open>Keys\<close>

text \<open>
  The bucket names hold no colon, so a key determines the kind of window, the bucket and the user,
  whatever bytes the user's subject holds: no user's requests count against another's.
\<close>

lemma append_colon_eq:
  assumes "CHR '':'' \<notin> set a" "CHR '':'' \<notin> set b" "a @ '':'' @ s = b @ '':'' @ t"
  shows "a = b \<and> s = t"
proof -
  let ?p = "\<lambda>c. c \<noteq> CHR '':''"
  have "takeWhile ?p (x @ '':'' @ u) = x" if "CHR '':'' \<notin> set x" for x u :: string
    using that by (subst takeWhile_append2) auto
  then have "a = b" using assms by metis
  with assms(3) show ?thesis by simp
qed

lemma min_key_eq:
  assumes "bucketLimits b = Some c" "bucketLimits b' = Some c'"
  shows "min_key b u = min_key b' u' \<longleftrightarrow> b = b' \<and> u = u'"
  using append_colon_eq [of b b' u u'] bucketLimits_no_colon [OF assms(1)]
    bucketLimits_no_colon [OF assms(2)]
  by (auto simp: min_key_def)

lemma day_key_eq:
  assumes "bucketLimits b = Some c" "bucketLimits b' = Some c'"
  shows "day_key b u = day_key b' u' \<longleftrightarrow> b = b' \<and> u = u'"
  using append_colon_eq [of b b' u u'] bucketLimits_no_colon [OF assms(1)]
    bucketLimits_no_colon [OF assms(2)]
  by (auto simp: day_key_def)

lemma min_day_key: "min_key b u \<noteq> day_key b' u'"
  by (simp add: min_key_def day_key_def)

section \<open>What an admitted request has passed\<close>

lemma Check_admitted:
  assumes "Check l ops u b now r = (Inr res, r', lg)"
  obtains cfg r1 r2 lg1 lg2 g where
    "bucketLimits b = Some cfg"
    "checkWindow l ops (min_key b u) (per_minute cfg) minute now r = (None, r1, lg1)"
    "checkWindow l ops (day_key b u) (daily cfg) (24 * hour) now r1 = (None, r2, lg2)"
    "redis_get ops r2 (min_key b u) = (g, r')"
    "lg = lg1 @ lg2"
    "cr_Limit res = per_minute cfg"
    "cr_Reset res = time_truncate now minute + minute"
    "0 \<le> cr_Remaining res"
proof -
  obtain cfg where cfg: "bucketLimits b = Some cfg"
    using assms by (auto simp: Check_def split: option.splits)
  have pos: "0 < per_minute cfg" "0 < daily cfg" using bucketLimits_pos [OF cfg] by auto
  obtain e1 r1 lg1 where w1:
    "checkWindow l ops (min_key b u) (per_minute cfg) minute now r = (e1, r1, lg1)"
    by (cases "checkWindow l ops (min_key b u) (per_minute cfg) minute now r")
  with assms cfg pos have e1: "e1 = None" by (auto simp: Check_def split: option.splits)
  obtain e2 r2 lg2 where w2:
    "checkWindow l ops (day_key b u) (daily cfg) (24 * hour) now r1 = (e2, r2, lg2)"
    by (cases "checkWindow l ops (day_key b u) (daily cfg) (24 * hour) now r1")
  with assms cfg pos w1 e1 have e2: "e2 = None" by (auto simp: Check_def split: option.splits)
  obtain g r3 where g: "redis_get ops r2 (min_key b u) = (g, r3)"
    by (cases "redis_get ops r2 (min_key b u)")
  show thesis
    using assms cfg pos w1 e1 w2 e2 g
    by (intro that [of cfg r1 lg1 r2 lg2 g])
       (auto simp: Check_def Let_def split: option.splits get_outcome.splits if_splits)
qed

lemma checkWindow_closed_None:
  assumes "failClosed l" "checkWindow l ops k n win now r = (None, r', lg)"
  obtains c where "incr_expireat ops r k (time_truncate now win + win) = (Incremented c, r')"
    "c \<le> n"
  using assms
  by (auto simp: checkWindow_def Let_def not_less split: prod.splits exec_outcome.splits if_splits)

section \<open>Quota\<close>

text \<open>
  The documented behaviour of the counters while no window ends: \<open>live r k\<close> is the value of the
  counter \<open>k\<close> (0 when the key does not exist). INCR answers a value above the one before and stores
  at least that; no command lowers a counter. Failing commands and commands of other clients in
  between are allowed: a failed pipeline may have counted or not.
\<close>

definition redis_counts :: "'r redis_ops \<Rightarrow> ('r \<Rightarrow> string \<Rightarrow> int) \<Rightarrow> bool" where
  "redis_counts ops live \<longleftrightarrow>
     (\<forall>r k t o' r'. incr_expireat ops r k t = (o', r') \<longrightarrow>
        (\<forall>k'. live r k' \<le> live r' k') \<and>
        (\<forall>c. o' = Incremented c \<longrightarrow> live r k < c \<and> c \<le> live r' k)) \<and>
     (\<forall>r k g r'. redis_get ops r k = (g, r') \<longrightarrow> (\<forall>k'. live r k' \<le> live r' k'))"

lemma redis_counts_incr:
  assumes "redis_counts ops live" "incr_expireat ops r k t = (o', r')"
  shows "live r k' \<le> live r' k'" "o' = Incremented c \<Longrightarrow> live r k < c \<and> c \<le> live r' k"
  using assms unfolding redis_counts_def by blast+

lemma redis_counts_get:
  "redis_counts ops live \<Longrightarrow> redis_get ops r k = (g, r') \<Longrightarrow> live r k' \<le> live r' k'"
  unfolding redis_counts_def by blast

lemma checkWindow_mono:
  assumes "redis_counts ops live" "checkWindow l ops k n win now r = (e, r', lg)"
  shows "live r k' \<le> live r' k'"
  using assms(2) redis_counts_incr(1) [OF assms(1), of r k "time_truncate now win + win"]
  by (auto simp: checkWindow_def Let_def split: prod.splits exec_outcome.splits)

section \<open>Exact outcomes\<close>

text \<open>The end of a window lies after now and at most one window ahead, so \<open>Sub\<close> is exact.\<close>

lemma window_left:
  assumes "0 < d" "d < 2 ^ 62"
  shows "time_sub (time_truncate now d + d) now = time_truncate now d + d - now"
    and "0 < time_truncate now d + d - now" and "time_truncate now d + d - now \<le> d"
proof -
  show "0 < time_truncate now d + d - now" using truncate_gt [OF assms(1), of now] by simp
  moreover show "time_truncate now d + d - now \<le> d" using truncate_le [OF assms(1), of now] by simp
  ultimately show "time_sub (time_truncate now d + d) now = time_truncate now d + d - now"
    using assms by (simp add: time_sub_def)
qed

lemma day_small: "24 * hour < 2 ^ 62" "0 < 24 * hour" "minute < 2 ^ 62" "minute \<le> 24 * hour"
  by (simp_all add: hour_def minute_def second_def)

lemma Check_limit_range:
  assumes "Check l ops u b now r = (Inl (LimitError d), r', lg)"
  shows "0 < d \<and> d \<le> 24 * hour"
proof -
  have "0 < d \<and> d \<le> 24 * hour"
    if "checkWindow l ops k n win now s = (Some (LimitError d), s', lg)" "win = minute \<or> win = 24 * hour"
    for k n win s d s' lg
    using that window_left [of win now] day_small
    by (auto simp: checkWindow_def Let_def rl_unavailable_def
        split: prod.splits exec_outcome.splits if_splits)
  with assms show ?thesis
    by (auto simp: Check_def Let_def rl_unavailable_def
        split: option.splits prod.splits get_outcome.splits if_splits)
qed

text \<open>A store that keeps counters, for the examples: a list of the keys incremented so far.\<close>

definition counting_ops :: "string list redis_ops" where
  "counting_ops =
     \<lparr>incr_expireat = \<lambda>r k t. (Incremented (int (count_list (k # r) k)), k # r),
      redis_get = \<lambda>r k. (if k \<in> set r then GetValue (int (count_list r k)) else GetNil, r),
      redis_ping = \<lambda>r. None\<rparr>"

definition counted :: "string list \<Rightarrow> string \<Rightarrow> int" where
  "counted r k = int (count_list r k)"

lemma counting_ops_counts: "redis_counts counting_ops counted"
  by (auto simp: redis_counts_def counting_ops_def counted_def)

text \<open>Commands on a key change no other counter.\<close>

definition redis_local :: "'r redis_ops \<Rightarrow> ('r \<Rightarrow> string \<Rightarrow> int) \<Rightarrow> bool" where
  "redis_local ops live \<longleftrightarrow>
     (\<forall>r k t o' r' k'. incr_expireat ops r k t = (o', r') \<longrightarrow> k' \<noteq> k \<longrightarrow> live r' k' = live r k') \<and>
     (\<forall>r k g r' k'. redis_get ops r k = (g, r') \<longrightarrow> live r' k' = live r k')"

lemma counting_ops_local: "redis_local counting_ops counted"
  by (auto simp: redis_local_def counting_ops_def counted_def)

lemma checkWindow_local:
  assumes "redis_local ops live" "checkWindow l ops k n win now r = (e, r', lg)" "k' \<noteq> k"
  shows "live r' k' = live r k'"
  using assms unfolding redis_local_def checkWindow_def Let_def
  by (auto split: prod.splits exec_outcome.splits)

lemma Check_local:
  assumes lc: "redis_local ops live" and ch: "Check l ops u b now r = (res, r', lg)"
    and k: "k \<noteq> min_key b u" "k \<noteq> day_key b u"
  shows "live r' k = live r k"
proof (cases "bucketLimits b")
  case None
  with ch show ?thesis by (simp add: Check_def)
next
  case (Some cfg)
  have pos: "0 < per_minute cfg" "0 < daily cfg" using bucketLimits_pos [OF Some] by auto
  obtain e1 r1 lg1 where w1:
    "checkWindow l ops (min_key b u) (per_minute cfg) minute now r = (e1, r1, lg1)"
    by (cases "checkWindow l ops (min_key b u) (per_minute cfg) minute now r")
  obtain e2 r2 lg2 where w2:
    "checkWindow l ops (day_key b u) (daily cfg) (24 * hour) now r1 = (e2, r2, lg2)"
    by (cases "checkWindow l ops (day_key b u) (daily cfg) (24 * hour) now r1")
  obtain g r3 where g: "redis_get ops r2 (min_key b u) = (g, r3)"
    by (cases "redis_get ops r2 (min_key b u)")
  have "live r1 k = live r k" by (rule checkWindow_local [OF lc w1 k(1)])
  moreover have "live r2 k = live r1 k" by (rule checkWindow_local [OF lc w2 k(2)])
  moreover have "live r3 k = live r2 k" using lc g unfolding redis_local_def by blast
  moreover have "r' = r1 \<or> r' = r2 \<or> r' = r3"
    using ch Some pos w1 w2 g
    by (auto simp: Check_def Let_def split: option.splits get_outcome.splits if_splits)
  ultimately show ?thesis by auto
qed

section \<open>Properties\<close>

text \<open>
  C29. The decision, exactly. When Redis answers, a request over the minute limit is refused with the
  time left in the minute and does not count against the day; one over the daily limit is refused
  with the time left in the day; any other is admitted with the minute limit, what is left of it
  (never below 0) and the end of the minute.
\<close>

theorem Check_decision:
  assumes "bucketLimits b = Some cfg"
    "incr_expireat ops r (min_key b u) (time_truncate now minute + minute) = (Incremented c, r1)"
    "incr_expireat ops r1 (day_key b u) (time_truncate now (24 * hour) + 24 * hour) =
       (Incremented d, r2)"
    "redis_get ops r2 (min_key b u) = (GetValue g, r3)" "0 \<le> g" "g < 2 ^ 62"
  shows "Check l ops u b now r =
    (if per_minute cfg < c
     then (Inl (LimitError (time_truncate now minute + minute - now)), r1, [])
     else if daily cfg < d
     then (Inl (LimitError (time_truncate now (24 * hour) + 24 * hour - now)), r2, [])
     else (Inr \<lparr>cr_Limit = per_minute cfg, cr_Remaining = max 0 (per_minute cfg - g),
                cr_Reset = time_truncate now minute + minute\<rparr>, r3, []))"
proof -
  note pos = bucketLimits_pos [OF assms(1)] and small = bucketLimits_small [OF assms(1)]
  have "wrap64 (per_minute cfg - g) = per_minute cfg - g"
    using pos small assms(5,6) by (intro wrap64_id) (simp add: int64_def)
  then show ?thesis
    using assms(1-4) pos window_left [of minute now] window_left [of "24 * hour" now] day_small
    by (simp add: Check_def checkWindow_def Let_def)
qed

theorem Check_decision_witness:
  "Check \<lparr>failClosed = False\<rparr> counting_ops ''u'' ''pro_standard'' (7 * second) [] =
     (Inr \<lparr>cr_Limit = 10, cr_Remaining = 9, cr_Reset = minute\<rparr>,
      [day_key ''pro_standard'' ''u'', min_key ''pro_standard'' ''u''], [])"
  using Check_decision [of "''pro_standard''" "\<lparr>daily = 1000, per_minute = 10\<rparr>" counting_ops "[]"
      "''u''" "7 * second" 1 "[min_key ''pro_standard'' ''u'']" 1
      "[day_key ''pro_standard'' ''u'', min_key ''pro_standard'' ''u'']" 1
      "[day_key ''pro_standard'' ''u'', min_key ''pro_standard'' ''u'']" "\<lparr>failClosed = False\<rparr>"]
  by (simp add: bucketLimits_def counting_ops_def min_key_def day_key_def time_truncate_def
      minute_def second_def)

text \<open>
  C30. An outage of Redis. When every pipeline fails, a fail-closed limiter refuses the request as
  unavailable after one command, a fail-open one admits it with its full limit.
\<close>

theorem Check_outage:
  assumes "bucketLimits b = Some cfg"
    "\<And>r k t. incr_expireat ops r k t = (ExecFailed e, r)" "\<And>r k. redis_get ops r k = (GetFailed e, r)"
  shows "Check l ops u b now r =
    (if failClosed l then (Inl rl_unavailable, r, [redis_error_log (min_key b u) e])
     else (Inr \<lparr>cr_Limit = per_minute cfg, cr_Remaining = per_minute cfg,
                cr_Reset = time_truncate now minute + minute\<rparr>, r,
           [redis_error_log (min_key b u) e, redis_error_log (day_key b u) e]))"
proof -
  note pos = bucketLimits_pos [OF assms(1)] and small = bucketLimits_small [OF assms(1)]
  have "wrap64 (per_minute cfg) = per_minute cfg"
    using pos small by (intro wrap64_id) (simp add: int64_def)
  then show ?thesis using assms pos by (simp add: Check_def checkWindow_def Let_def)
qed

theorem Check_outage_witness:
  "fst (Check \<lparr>failClosed = True\<rparr>
      \<lparr>incr_expireat = \<lambda>r k t. (ExecFailed (errorf ''dial''), r),
       redis_get = \<lambda>r k. (GetFailed (errorf ''dial''), r), redis_ping = \<lambda>r. None\<rparr>
      ''u'' ''admin'' 0 ()) = Inl rl_unavailable"
  by (subst Check_outage [of _ "\<lparr>daily = 10000, per_minute = 100\<rparr>" _ "errorf ''dial''"])
     (simp_all add: bucketLimits_def)

text \<open>
  C31. Isolation. A check of one user in one bucket changes no counter of another user or bucket,
  whatever bytes the subjects hold (a subject with colons cannot forge another's key).
\<close>

theorem Check_isolation:
  assumes "redis_local ops live" "Check l ops u b now r = (res, r', lg)"
    "bucketLimits b = Some cfg" "bucketLimits b' = Some cfg'" "(u', b') \<noteq> (u, b)"
  shows "live r' (min_key b' u') = live r (min_key b' u') \<and>
         live r' (day_key b' u') = live r (day_key b' u')"
proof -
  have "min_key b' u' \<noteq> min_key b u" "day_key b' u' \<noteq> day_key b u"
    using min_key_eq [OF assms(4,3)] day_key_eq [OF assms(4,3)] assms(5) by auto
  then show ?thesis
    using Check_local [OF assms(1,2)] min_day_key [of b' u' b u] min_day_key [of b u b' u'] by metis
qed

theorem Check_isolation_witness:
  "counted (fst (snd (Check \<lparr>failClosed = True\<rparr> counting_ops ''a'' ''admin'' 0 [])))
     (min_key ''free_standard'' ''x:a'') = 0"
  using Check_isolation [OF counting_ops_local, of "\<lparr>failClosed = True\<rparr>" "''a''" "''admin''" 0 "[]"
      "fst (Check \<lparr>failClosed = True\<rparr> counting_ops ''a'' ''admin'' 0 [])"
      "fst (snd (Check \<lparr>failClosed = True\<rparr> counting_ops ''a'' ''admin'' 0 []))"
      "snd (snd (Check \<lparr>failClosed = True\<rparr> counting_ops ''a'' ''admin'' 0 []))"
      "\<lparr>daily = 10000, per_minute = 100\<rparr>" "''free_standard''" "\<lparr>daily = 50, per_minute = 5\<rparr>" "''x:a''"]
  by (simp add: bucketLimits_def counted_def)

text \<open>
  Bounds. A refusal asks to wait for a positive time of at most a day; an admission reports a
  limit between 5 and 100, a remainder that is not negative and a reset after now, at most a minute
  ahead, on a full minute.
\<close>

lemma Check_bounds:
  "(\<forall>d r' lg. Check l ops u b now r = (Inl (LimitError d), r', lg) \<longrightarrow> 0 < d \<and> d \<le> 24 * hour) \<and>
   (\<forall>res r' lg. Check l ops u b now r = (Inr res, r', lg) \<longrightarrow>
      5 \<le> cr_Limit res \<and> cr_Limit res \<le> 100 \<and> 0 \<le> cr_Remaining res \<and>
      now < cr_Reset res \<and> cr_Reset res \<le> now + minute \<and> minute dvd cr_Reset res)"
proof (intro conjI allI impI)
  show "0 < d" "d \<le> 24 * hour" if "Check l ops u b now r = (Inl (LimitError d), r', lg)" for d r' lg
    using Check_limit_range [OF that] by blast+
next
  fix res r' lg
  assume "Check l ops u b now r = (Inr res, r', lg)"
  then obtain cfg where cfg: "bucketLimits b = Some cfg" "cr_Limit res = per_minute cfg"
      "cr_Reset res = time_truncate now minute + minute" "0 \<le> cr_Remaining res"
    using Check_admitted by metis
  show "5 \<le> cr_Limit res" using cfg by (auto elim: bucketLimits_cases)
  show "cr_Limit res \<le> 100" using cfg bucketLimits_small by auto
  show "0 \<le> cr_Remaining res" by (rule cfg(4))
  show "now < cr_Reset res" "cr_Reset res \<le> now + minute" "minute dvd cr_Reset res"
    using cfg(3) truncate_gt [of minute now] truncate_le [of minute now] truncate_dvd [of minute now]
    by auto
qed

end
