(* ===== verification/Ratelimit_Steps.thy ===== *)
theory Ratelimit_Steps
  imports Ratelimit
begin

text \<open>
  \<open>Check\<close> under concurrency. A check makes three round trips to Redis: INCR of the minute counter,
  INCR of the daily one (each in a pipeline with the EXPIREAT of its key), GET of the first. Between
  the trips of one check those of others may come, of the same user or not; a schedule names the
  check that makes the next trip.
\<close>

section \<open>Round trips\<close>

text \<open>Where a check stands: before a trip, with its log entries so far, or at its end.\<close>

datatype progress =
    AtMinute
  | AtDay "log_entry list"
  | AtGet "log_entry list"
  | Replied "check_error + CheckResult" "log_entry list"

record check_call =
  ck_User :: string
  ck_Bucket :: string
  ck_Now :: go_time
  ck_At :: progress

definition minute_trip ::
    "limiter \<Rightarrow> 'r redis_ops \<Rightarrow> bucketConfig \<Rightarrow> check_call \<Rightarrow> 'r \<Rightarrow> progress \<times> 'r" where
  "minute_trip l ops cfg c r =
     (case (if 0 < per_minute cfg
            then checkWindow l ops (min_key (ck_Bucket c) (ck_User c)) (per_minute cfg) minute
                   (ck_Now c) r
            else (None, r, [])) of
        (Some e, r1, lg1) \<Rightarrow> (Replied (Inl e) lg1, r1)
      | (None, r1, lg1) \<Rightarrow> (AtDay lg1, r1))"

definition day_trip ::
    "limiter \<Rightarrow> 'r redis_ops \<Rightarrow> bucketConfig \<Rightarrow> check_call \<Rightarrow> log_entry list \<Rightarrow> 'r \<Rightarrow>
     progress \<times> 'r" where
  "day_trip l ops cfg c lg1 r =
     (case (if 0 < daily cfg
            then checkWindow l ops (day_key (ck_Bucket c) (ck_User c)) (daily cfg) (24 * hour)
                   (ck_Now c) r
            else (None, r, [])) of
        (Some e, r2, lg2) \<Rightarrow> (Replied (Inl e) (lg1 @ lg2), r2)
      | (None, r2, lg2) \<Rightarrow> (AtGet (lg1 @ lg2), r2))"

definition get_trip ::
    "limiter \<Rightarrow> 'r redis_ops \<Rightarrow> bucketConfig \<Rightarrow> check_call \<Rightarrow> log_entry list \<Rightarrow> 'r \<Rightarrow>
     progress \<times> 'r" where
  "get_trip l ops cfg c lg r =
     (let limit = (if per_minute cfg = 0 then daily cfg else per_minute cfg);
          window = (if per_minute cfg = 0 then 24 * hour else minute);
          key = (if per_minute cfg = 0 then day_key (ck_Bucket c) (ck_User c)
                 else min_key (ck_Bucket c) (ck_User c))
      in case redis_get ops r key of
           (g, r3) \<Rightarrow>
             (case (case g of GetFailed e \<Rightarrow> if failClosed l then None else Some 0
                            | GetNil \<Rightarrow> Some 0
                            | GetValue v \<Rightarrow> Some v) of
                None \<Rightarrow> (Replied (Inl rl_unavailable) lg, r3)
              | Some count \<Rightarrow>
                  (Replied (Inr \<lparr>cr_Limit = limit,
                                 cr_Remaining = max 0 (wrap64 (limit - count)),
                                 cr_Reset = time_truncate (ck_Now c) window + window\<rparr>) lg, r3)))"

definition trip :: "limiter \<Rightarrow> 'r redis_ops \<Rightarrow> check_call \<Rightarrow> 'r \<Rightarrow> progress \<times> 'r" where
  "trip l ops c r =
     (case bucketLimits (ck_Bucket c) of
        None \<Rightarrow>
          (Replied (Inl (CheckFailed (errorf (''unknown rate limit bucket: '' @ ck_Bucket c)))) [], r)
      | Some cfg \<Rightarrow>
          (case ck_At c of
             AtMinute \<Rightarrow> minute_trip l ops cfg c r
           | AtDay lg \<Rightarrow> day_trip l ops cfg c lg r
           | AtGet lg \<Rightarrow> get_trip l ops cfg c lg r
           | Replied res lg \<Rightarrow> (Replied res lg, r)))"

text \<open>The checks in flight, and the one that makes each next trip.\<close>

fun run_trips ::
    "limiter \<Rightarrow> 'r redis_ops \<Rightarrow> nat list \<Rightarrow> check_call list \<Rightarrow> 'r \<Rightarrow> check_call list \<times> 'r" where
  "run_trips l ops [] cs r = (cs, r)"
| "run_trips l ops (i # is) cs r =
     (if i < length cs
      then (case trip l ops (cs ! i) r of
              (at, r1) \<Rightarrow> run_trips l ops is (cs[i := (cs ! i)\<lparr>ck_At := at\<rparr>]) r1)
      else run_trips l ops is cs r)"

definition is_admitted :: "string \<Rightarrow> string \<Rightarrow> check_call \<Rightarrow> bool" where
  "is_admitted u b c \<longleftrightarrow>
     ck_User c = u \<and> ck_Bucket c = b \<and> (case ck_At c of Replied (Inr res) lg \<Rightarrow> True | _ \<Rightarrow> False)"

definition admitted :: "string \<Rightarrow> string \<Rightarrow> check_call list \<Rightarrow> nat" where
  "admitted u b cs = length (filter (is_admitted u b) cs)"

text \<open>Without interruption the three trips are \<open>Check\<close>.\<close>

lemma Check_trips:
  assumes "Check l ops u b now r = (res, r', lg)"
  shows "run_trips l ops [0, 0, 0] [\<lparr>ck_User = u, ck_Bucket = b, ck_Now = now, ck_At = AtMinute\<rparr>] r =
    ([\<lparr>ck_User = u, ck_Bucket = b, ck_Now = now, ck_At = Replied res lg\<rparr>], r')"
proof (cases "bucketLimits b")
  case None
  then show ?thesis using assms by (simp add: Check_def trip_def)
next
  case (Some cfg)
  obtain e1 r1 lg1 where w1:
    "checkWindow l ops (min_key b u) (per_minute cfg) minute now r = (e1, r1, lg1)"
    using prod_cases3 by blast
  obtain e2 r2 lg2 where w2:
    "checkWindow l ops (day_key b u) (daily cfg) (24 * hour) now r1 = (e2, r2, lg2)"
    using prod_cases3 by blast
  note defs = Check_def trip_def minute_trip_def day_trip_def get_trip_def
  show ?thesis
    using assms Some bucketLimits_pos [OF Some] w1 w2
    by (cases e1; cases e2)
       (auto simp: defs Let_def split: prod.splits get_outcome.splits if_splits)
qed

section \<open>The gates of a check\<close>

text \<open>The checks of a user that have passed the minute's gate, or both.\<close>

definition past_minute :: "string \<Rightarrow> string \<Rightarrow> check_call \<Rightarrow> bool" where
  "past_minute u b c \<longleftrightarrow>
     ck_User c = u \<and> ck_Bucket c = b \<and>
     (case ck_At c of AtMinute \<Rightarrow> False | Replied (Inl e) lg \<Rightarrow> False | _ \<Rightarrow> True)"

definition past_day :: "string \<Rightarrow> string \<Rightarrow> check_call \<Rightarrow> bool" where
  "past_day u b c \<longleftrightarrow>
     ck_User c = u \<and> ck_Bucket c = b \<and>
     (case ck_At c of AtMinute \<Rightarrow> False | AtDay lg \<Rightarrow> False | Replied (Inl e) lg \<Rightarrow> False | _ \<Rightarrow> True)"

lemma is_admitted_past: "is_admitted u b c \<Longrightarrow> past_minute u b c \<and> past_day u b c"
  by (auto simp: is_admitted_def past_minute_def past_day_def split: progress.splits sum.splits)

lemma trip_mono:
  assumes "redis_counts ops live" "trip l ops c r = (at, r')"
  shows "live r k \<le> live r' k"
  using assms(2) checkWindow_mono [OF assms(1)] redis_counts_get [OF assms(1)]
  by (auto simp: trip_def minute_trip_def day_trip_def get_trip_def Let_def
      split: option.splits progress.splits prod.splits get_outcome.splits if_splits)

text \<open>Passing a gate advances its counter, from below its limit.\<close>

lemma trip_minute:
  assumes "redis_counts ops live" "failClosed l" "bucketLimits b = Some cfg"
    "trip l ops c r = (at, r')" "\<not> past_minute u b c" "past_minute u b (c\<lparr>ck_At := at\<rparr>)"
  shows "live r (min_key b u) + 1 \<le> live r' (min_key b u) \<and> live r (min_key b u) + 1 \<le> per_minute cfg"
proof -
  have c: "ck_User c = u" "ck_Bucket c = b" using assms(6) by (auto simp: past_minute_def)
  have "ck_At c = AtMinute \<or> (\<exists>e lg. ck_At c = Replied (Inl e) lg)"
    using assms(5) c by (auto simp: past_minute_def split: progress.splits sum.splits)
  then have m: "minute_trip l ops cfg c r = (at, r')"
  proof (elim disjE exE)
    assume "ck_At c = AtMinute"
    then show ?thesis using assms(3,4) c(2) by (simp add: trip_def)
  next
    fix e lg
    assume "ck_At c = Replied (Inl e) lg"
    then have "at = Replied (Inl e) lg" using assms(3,4) c(2) by (simp add: trip_def)
    then show ?thesis using assms(6) by (simp add: past_minute_def)
  qed
  obtain e r1 lg where w:
    "checkWindow l ops (min_key b u) (per_minute cfg) minute (ck_Now c) r = (e, r1, lg)"
    using prod_cases3 by blast
  then have p: "checkWindow l ops (min_key b u) (per_minute cfg) minute (ck_Now c) r = (None, r', lg)"
    using m assms(6) c bucketLimits_pos [OF assms(3)]
    by (cases e) (auto simp: minute_trip_def past_minute_def)
  then obtain n where "incr_expireat ops r (min_key b u) (time_truncate (ck_Now c) minute + minute) =
      (Incremented n, r')" "n \<le> per_minute cfg"
    using checkWindow_closed_None [OF assms(2) p] by blast
  then show ?thesis using redis_counts_incr(2) [OF assms(1)] by fastforce
qed

lemma trip_day:
  assumes "redis_counts ops live" "failClosed l" "bucketLimits b = Some cfg"
    "trip l ops c r = (at, r')" "\<not> past_day u b c" "past_day u b (c\<lparr>ck_At := at\<rparr>)"
  shows "live r (day_key b u) + 1 \<le> live r' (day_key b u) \<and> live r (day_key b u) + 1 \<le> daily cfg"
proof -
  have c: "ck_User c = u" "ck_Bucket c = b" using assms(6) by (auto simp: past_day_def)
  have "\<exists>lg. day_trip l ops cfg c lg r = (at, r')"
    using assms(3-6) c
    by (auto simp: trip_def past_day_def minute_trip_def
        split: progress.splits sum.splits prod.splits option.splits if_splits)
  then obtain lg where d: "day_trip l ops cfg c lg r = (at, r')" by blast
  obtain e r1 lg' where w:
    "checkWindow l ops (day_key b u) (daily cfg) (24 * hour) (ck_Now c) r = (e, r1, lg')"
    using prod_cases3 by blast
  then have p: "checkWindow l ops (day_key b u) (daily cfg) (24 * hour) (ck_Now c) r = (None, r', lg')"
    using d assms(6) c bucketLimits_pos [OF assms(3)]
    by (cases e) (auto simp: day_trip_def past_day_def)
  then obtain n where "incr_expireat ops r (day_key b u)
      (time_truncate (ck_Now c) (24 * hour) + 24 * hour) = (Incremented n, r')" "n \<le> daily cfg"
    using checkWindow_closed_None [OF assms(2) p] by blast
  then show ?thesis using redis_counts_incr(2) [OF assms(1)] by fastforce
qed

section \<open>Counting\<close>

definition count_calls :: "(check_call \<Rightarrow> bool) \<Rightarrow> check_call list \<Rightarrow> nat" where
  "count_calls P cs = length (filter P cs)"

lemma count_calls_update:
  assumes "i < length cs"
  shows "int (count_calls P (cs[i := c])) =
    int (count_calls P cs) - (if P (cs ! i) then 1 else 0) + (if P c then 1 else 0)"
proof -
  have e: "cs = take i cs @ cs ! i # drop (Suc i) cs" by (rule id_take_nth_drop [OF assms])
  have u: "cs[i := c] = take i cs @ c # drop (Suc i) cs" by (rule upd_conv_take_nth_drop [OF assms])
  have "count_calls P cs = count_calls P (take i cs @ cs ! i # drop (Suc i) cs)" using e by metis
  then show ?thesis unfolding u by (simp add: count_calls_def)
qed

text \<open>The checks past a gate are at most as many as its counter has advanced, and as its limit allows.\<close>

lemma gate_bound:
  assumes rc: "redis_counts ops live"
    and gate: "\<And>c r at r'. trip l ops c r = (at, r') \<Longrightarrow> \<not> P c \<Longrightarrow> P (c\<lparr>ck_At := at\<rparr>) \<Longrightarrow>
       live r k + 1 \<le> live r' k \<and> live r k + 1 \<le> n"
  shows "run_trips l ops is cs r = (cs', r') \<Longrightarrow> int (count_calls P cs) \<le> live r k - m \<Longrightarrow>
    int (count_calls P cs) \<le> max 0 (n - m) \<Longrightarrow> int (count_calls P cs') \<le> max 0 (n - m)"
proof (induction "is" arbitrary: cs r)
  case Nil
  then show ?case by simp
next
  case (Cons i "is")
  show ?case
  proof (cases "i < length cs")
    case False
    then show ?thesis using Cons by simp
  next
    case True
    obtain at r1 where t: "trip l ops (cs ! i) r = (at, r1)" by fastforce
    let ?cs = "cs[i := (cs ! i)\<lparr>ck_At := at\<rparr>]"
    have run: "run_trips l ops is ?cs r1 = (cs', r')" using Cons.prems(1) True t by simp
    have mono: "live r k \<le> live r1 k" by (rule trip_mono [OF rc t])
    have "int (count_calls P ?cs) \<le> live r1 k - m \<and> int (count_calls P ?cs) \<le> max 0 (n - m)"
    proof (cases "\<not> P (cs ! i) \<and> P ((cs ! i)\<lparr>ck_At := at\<rparr>)")
      case True
      then have "live r k + 1 \<le> live r1 k" "live r k + 1 \<le> n" using gate [OF t] by auto
      then show ?thesis
        using True Cons.prems(2) count_calls_update [OF \<open>i < length cs\<close>, of P "(cs ! i)\<lparr>ck_At := at\<rparr>"]
        by simp
    next
      case False
      then show ?thesis
        using Cons.prems(2,3) mono count_calls_update [OF True, of P "(cs ! i)\<lparr>ck_At := at\<rparr>"] by auto
    qed
    then show ?thesis using Cons.IH [OF run] by blast
  qed
qed

lemma admitted_le: "(\<And>c. is_admitted u b c \<Longrightarrow> P c) \<Longrightarrow> admitted u b cs \<le> count_calls P cs"
  unfolding admitted_def count_calls_def
  by (induction cs) auto

section \<open>Properties\<close>

text \<open>
  C2. Quota. With fail-closed limiting and counters that behave as documented, however the round trips
  of any number of checks interleave, of the same user, of others and in any buckets, while no window
  of the user ends at most as many of the user's requests are admitted as the counters leave below
  the limits per minute and per day.
\<close>

theorem rate_limit_quota:
  assumes "redis_counts ops live" "failClosed l" "bucketLimits b = Some cfg"
    "list_all (\<lambda>c. ck_At c = AtMinute) cs" "run_trips l ops schedule cs r = (cs', r')"
  shows "int (admitted u b cs') \<le> max 0 (per_minute cfg - live r (min_key b u)) \<and>
         int (admitted u b cs') \<le> max 0 (daily cfg - live r (day_key b u))"
proof
  have start: "count_calls (past_minute u b) cs = 0" "count_calls (past_day u b) cs = 0"
    using assms(4) by (auto simp: count_calls_def past_minute_def past_day_def filter_empty_conv list_all_iff)
  have "int (count_calls (past_minute u b) cs') \<le> max 0 (per_minute cfg - live r (min_key b u))"
    using gate_bound [OF assms(1) trip_minute [OF assms(1-3), where u = u] assms(5),
        where m = "live r (min_key b u)"] start by simp
  then show "int (admitted u b cs') \<le> max 0 (per_minute cfg - live r (min_key b u))"
    using admitted_le [of u b "past_minute u b" cs'] is_admitted_past by fastforce
  have "int (count_calls (past_day u b) cs') \<le> max 0 (daily cfg - live r (day_key b u))"
    using gate_bound [OF assms(1) trip_day [OF assms(1-3), where u = u] assms(5),
        where m = "live r (day_key b u)"] start by simp
  then show "int (admitted u b cs') \<le> max 0 (daily cfg - live r (day_key b u))"
    using admitted_le [of u b "past_day u b" cs'] is_admitted_past by fastforce
qed

text \<open>Seven checks of a user at once, whose trips alternate: the limit per minute is five.\<close>

definition demo_calls :: "check_call list" where
  "demo_calls =
     replicate 7 \<lparr>ck_User = ''u'', ck_Bucket = ''free_standard'', ck_Now = 0, ck_At = AtMinute\<rparr>"

definition demo_schedule :: "nat list" where
  "demo_schedule = [0..<7] @ [0..<7] @ [0..<7]"

text \<open>The bound is met.\<close>

lemma demo_quota_met:
  "admitted ''u'' ''free_standard''
     (fst (run_trips \<lparr>failClosed = True\<rparr> counting_ops demo_schedule demo_calls [])) = 5"
  by code_simp

theorem rate_limit_quota_witness:
  "int (admitted ''u'' ''free_standard''
     (fst (run_trips \<lparr>failClosed = True\<rparr> counting_ops demo_schedule demo_calls []))) \<le> 5"
  using rate_limit_quota [OF counting_ops_counts, of "\<lparr>failClosed = True\<rparr>" "''free_standard''"
      "\<lparr>daily = 50, per_minute = 5\<rparr>" demo_calls demo_schedule "[]"
      "fst (run_trips \<lparr>failClosed = True\<rparr> counting_ops demo_schedule demo_calls [])"
      "snd (run_trips \<lparr>failClosed = True\<rparr> counting_ops demo_schedule demo_calls [])" "''u''"]
  by (simp add: bucketLimits_def counted_def demo_calls_def list_all_iff)

end
