(* ===== verification/Cache.thy ===== *)
theory Cache
  imports Prelude
begin

text \<open>
  The contract that the three caches of the bridge share: the routing and platform configuration of
  internal/coreclient and the manifest of internal/yadmanifest. A read serves the cached value while
  it has not expired and refreshes otherwise; a failed refresh may fall back on a value younger than
  twice the time to live.
\<close>

section \<open>The stale fallback\<close>

locale ttl_fallback =
  fixes value_of :: "'s \<Rightarrow> 'v"
    and present :: "'v \<Rightarrow> bool"
    and last_fetch :: "'s \<Rightarrow> go_time"
    and ttl :: "'s \<Rightarrow> duration"
    and fallback :: "go_time \<Rightarrow> 's \<Rightarrow> go_error + 'v"
  assumes fallback_hit:
      "present (value_of s) \<Longrightarrow> time_sub t (last_fetch s) < wrap64 (2 * ttl s) \<Longrightarrow>
       fallback t s = Inr (value_of s)"
    and fallback_miss:
      "\<not> (present (value_of s) \<and> time_sub t (last_fetch s) < wrap64 (2 * ttl s)) \<Longrightarrow>
       \<exists>e. fallback t s = Inl e"
begin

lemma fallback_Inr_iff:
  "fallback t s = Inr v \<longleftrightarrow>
     v = value_of s \<and> present (value_of s) \<and> time_sub t (last_fetch s) < wrap64 (2 * ttl s)"
  using fallback_hit [of s t] fallback_miss [of s t]
  by (cases "present (value_of s) \<and> time_sub t (last_fetch s) < wrap64 (2 * ttl s)") auto

text \<open>With a time to live below half the range of a duration, the age is bounded as intended.\<close>

lemma fallback_age:
  assumes "fallback t s = Inr v" "0 \<le> ttl s" "2 * ttl s < 2 ^ 63"
  shows "t - last_fetch s < 2 * ttl s"
proof -
  have "time_sub t (last_fetch s) < wrap64 (2 * ttl s)" using assms(1) fallback_Inr_iff by blast
  moreover have "wrap64 (2 * ttl s) = 2 * ttl s"
    using assms(2,3) by (intro wrap64_id) (simp add: int64_def)
  ultimately have "max (- (2 ^ 63)) (min (2 ^ 63 - 1) (t - last_fetch s)) < 2 * ttl s"
    by (simp add: time_sub_def)
  with assms(3) show ?thesis by (auto simp: max_def min_def split: if_splits)
qed

lemma fallback_present: "fallback t s = Inr v \<Longrightarrow> present v"
  by (auto simp: fallback_Inr_iff)

end

section \<open>Reads through the cache\<close>

text \<open>
  \<open>get\<close> serves a present value that has not expired; otherwise its result is that of \<open>refresh\<close>.
  \<open>inv\<close> is what every operation keeps of the state and \<open>good\<close> what a served value promises.
\<close>

locale ttl_cache = ttl_fallback value_of present last_fetch ttl fallback
  for value_of :: "'s \<Rightarrow> 'v"
    and present :: "'v \<Rightarrow> bool"
    and last_fetch :: "'s \<Rightarrow> go_time"
    and ttl :: "'s \<Rightarrow> duration"
    and fallback :: "go_time \<Rightarrow> 's \<Rightarrow> go_error + 'v" +
  fixes inv :: "'s \<Rightarrow> bool"
    and good :: "'v \<Rightarrow> bool"
    and hit :: "'e \<Rightarrow> 's \<Rightarrow> bool"
    and refresh :: "'e \<Rightarrow> 's \<Rightarrow> (go_error + 'v) \<times> 's"
    and get :: "'e \<Rightarrow> 's \<Rightarrow> (go_error + 'v) \<times> 's"
  assumes inv_good: "inv s \<Longrightarrow> present (value_of s) \<Longrightarrow> good (value_of s)"
    and hit_present: "hit e s \<Longrightarrow> present (value_of s)"
    and refresh_inv: "inv s \<Longrightarrow> inv (snd (refresh e s))"
    and refresh_good: "inv s \<Longrightarrow> fst (refresh e s) = Inr v \<Longrightarrow> good v"
    and get_hit: "hit e s \<Longrightarrow> get e s = (Inr (value_of s), s)"
    and get_miss: "\<not> hit e s \<Longrightarrow> get e s = refresh e s"
begin

lemma get_inv: "inv s \<Longrightarrow> inv (snd (get e s))"
  using refresh_inv [of s e] get_hit [of e s] get_miss [of e s] by (cases "hit e s") auto

lemma get_good: "inv s \<Longrightarrow> fst (get e s) = Inr v \<Longrightarrow> good v"
  using refresh_good [of s e v] get_hit [of e s] get_miss [of e s] inv_good [of s]
    hit_present [of e s]
  by (cases "hit e s") auto

lemma fallback_good: "inv s \<Longrightarrow> fallback t s = Inr v \<Longrightarrow> good v"
  using fallback_Inr_iff [of t s v] inv_good [of s] by blast

text \<open>Any sequence of reads, each under its own circumstances, serves good values only.\<close>

primrec gets :: "'e list \<Rightarrow> 's \<Rightarrow> (go_error + 'v) list" where
  "gets [] s = []"
| "gets (e # es) s = fst (get e s) # gets es (snd (get e s))"

lemma gets_good: "inv s \<Longrightarrow> Inr v \<in> set (gets es s) \<Longrightarrow> good v"
proof (induction es arbitrary: s)
  case Nil
  then show ?case by simp
next
  case (Cons e es)
  from Cons.prems(2) consider "fst (get e s) = Inr v" | "Inr v \<in> set (gets es (snd (get e s)))"
    by auto
  then show ?case
  proof cases
    case 1
    with Cons.prems(1) show ?thesis by (rule get_good)
  next
    case 2
    with get_inv [OF Cons.prems(1)] show ?thesis by (rule Cons.IH)
  qed
qed

end

end
