(* ===== verification/Coreclient.thy ===== *)
theory Coreclient
  imports Cache Decode Http
begin

text \<open>
  internal/coreclient/client.go: the client of the Core Platform. Its state holds two caches, the
  routing configuration and the platform configuration; its operations fetch, validate, store and
  serve them, resolve a model to a route and ingest usage events. The HTTP transport, the clock
  (\<open>clk i\<close> is the reading of the i-th \<open>time.Now()\<close> of an operation) and the texts of JSON errors are
  arguments.
\<close>

section \<open>Data\<close>

record RouteEntry =
  re_ModelID :: string
  re_ExternalID :: string
  re_ProviderID :: string
  re_ProviderType :: string
  re_ProviderName :: string
  re_BaseURL :: string
  re_APIKey :: string
  re_TierMin :: string
  re_InputCost1M :: f64
  re_OutputCost1M :: f64

definition zero_route :: RouteEntry where
  "zero_route =
     \<lparr>re_ModelID = [], re_ExternalID = [], re_ProviderID = [], re_ProviderType = [],
      re_ProviderName = [], re_BaseURL = [], re_APIKey = [], re_TierMin = [],
      re_InputCost1M = Fin 0, re_OutputCost1M = Fin 0\<rparr>"

definition Valid :: "RouteEntry \<Rightarrow> go_error option" where
  "Valid e =
     (if re_ExternalID e = [] \<or> re_ProviderID e = []
      then Some (errorf_w ErrInvalidRoute ''missing model or provider id'')
      else if re_ProviderType e = [] \<or> re_BaseURL e = [] \<or> re_APIKey e = []
      then Some (errorf_w ErrInvalidRoute
                   (''incomplete provider config for model '' @ re_ExternalID e))
      else if re_TierMin e = []
      then Some (errorf_w ErrInvalidRoute (''missing tier_min for model '' @ re_ExternalID e))
      else None)"

definition complete_route :: "RouteEntry \<Rightarrow> bool" where
  "complete_route e \<longleftrightarrow>
     re_ExternalID e \<noteq> [] \<and> re_ProviderID e \<noteq> [] \<and> re_ProviderType e \<noteq> [] \<and>
     re_BaseURL e \<noteq> [] \<and> re_APIKey e \<noteq> [] \<and> re_TierMin e \<noteq> []"

lemma Valid_None_iff: "Valid e = None \<longleftrightarrow> complete_route e"
  by (auto simp: Valid_def complete_route_def)

record RoutingConfig =
  rc_Models :: "RouteEntry list"
  rc_UpdatedAt :: string

definition empty_routing :: RoutingConfig where
  "empty_routing = \<lparr>rc_Models = [], rc_UpdatedAt = []\<rparr>"

record PlatformConfig =
  pc_ModelsManifestURL :: string
  pc_UpdatedAt :: string

definition empty_platform :: PlatformConfig where
  "empty_platform = \<lparr>pc_ModelsManifestURL = [], pc_UpdatedAt = []\<rparr>"

record UsageIngestEvent =
  ue_TraceID :: string
  ue_SpanID :: string
  ue_ParentSpanID :: string
  ue_UserID :: string
  ue_ModelExternalID :: string
  ue_ProviderID :: string
  ue_ModelID :: string
  ue_InputTokens :: int
  ue_OutputTokens :: int
  ue_LatencyMs :: int
  ue_Status :: string
  ue_ErrorCode :: string
  ue_Tier :: string
  ue_CostUSD :: f64
  ue_StartedAt :: string
  ue_EndedAt :: string
  ue_RedactedCount :: int
  ue_RedactionCategories :: "string list"

text \<open>The JSON forms: decoding of the configurations, encoding of a batch of usage events.\<close>

definition route_fields :: "RouteEntry field list" where
  "route_fields =
     [field ''modelId'' dec_string re_ModelID (\<lambda>x s. s\<lparr>re_ModelID := x\<rparr>),
      field ''externalId'' dec_string re_ExternalID (\<lambda>x s. s\<lparr>re_ExternalID := x\<rparr>),
      field ''providerId'' dec_string re_ProviderID (\<lambda>x s. s\<lparr>re_ProviderID := x\<rparr>),
      field ''providerType'' dec_string re_ProviderType (\<lambda>x s. s\<lparr>re_ProviderType := x\<rparr>),
      field ''providerName'' dec_string re_ProviderName (\<lambda>x s. s\<lparr>re_ProviderName := x\<rparr>),
      field ''baseUrl'' dec_string re_BaseURL (\<lambda>x s. s\<lparr>re_BaseURL := x\<rparr>),
      field ''apiKey'' dec_string re_APIKey (\<lambda>x s. s\<lparr>re_APIKey := x\<rparr>),
      field ''tierMin'' dec_string re_TierMin (\<lambda>x s. s\<lparr>re_TierMin := x\<rparr>),
      field ''inputCostPer1m'' dec_float re_InputCost1M (\<lambda>x s. s\<lparr>re_InputCost1M := x\<rparr>),
      field ''outputCostPer1m'' dec_float re_OutputCost1M (\<lambda>x s. s\<lparr>re_OutputCost1M := x\<rparr>)]"

definition routing_fields :: "RoutingConfig field list" where
  "routing_fields =
     [field ''models'' (dec_list (dec_struct route_fields) zero_route) rc_Models
        (\<lambda>x s. s\<lparr>rc_Models := x\<rparr>),
      field ''updatedAt'' dec_string rc_UpdatedAt (\<lambda>x s. s\<lparr>rc_UpdatedAt := x\<rparr>)]"

definition platform_fields :: "PlatformConfig field list" where
  "platform_fields =
     [field ''modelsManifestUrl'' dec_string pc_ModelsManifestURL
        (\<lambda>x s. s\<lparr>pc_ModelsManifestURL := x\<rparr>),
      field ''updatedAt'' dec_string pc_UpdatedAt (\<lambda>x s. s\<lparr>pc_UpdatedAt := x\<rparr>)]"

definition unmarshal_routing :: "string \<Rightarrow> RoutingConfig option" where
  "unmarshal_routing body =
     Option.bind (json_unmarshal body) (\<lambda>j. dec_struct routing_fields j empty_routing)"

definition unmarshal_platform :: "string \<Rightarrow> PlatformConfig option" where
  "unmarshal_platform body =
     Option.bind (json_unmarshal body) (\<lambda>j. dec_struct platform_fields j empty_platform)"

definition omit_empty :: "string \<Rightarrow> string \<Rightarrow> (string \<times> json) list" where
  "omit_empty k v = (if v = [] then [] else [(k, JStr v)])"

definition usage_json :: "UsageIngestEvent \<Rightarrow> json option" where
  "usage_json e =
     (case format_float (ue_CostUSD e) of
        None \<Rightarrow> None
      | Some cost \<Rightarrow> Some (JObj
          ([(''traceId'', JStr (ue_TraceID e)), (''spanId'', JStr (ue_SpanID e))] @
           omit_empty ''parentSpanId'' (ue_ParentSpanID e) @
           [(''userId'', JStr (ue_UserID e)),
            (''modelExternalId'', JStr (ue_ModelExternalID e))] @
           omit_empty ''providerId'' (ue_ProviderID e) @
           omit_empty ''modelId'' (ue_ModelID e) @
           [(''inputTokens'', jint (ue_InputTokens e)),
            (''outputTokens'', jint (ue_OutputTokens e)),
            (''latencyMs'', jint (ue_LatencyMs e)), (''status'', JStr (ue_Status e))] @
           omit_empty ''errorCode'' (ue_ErrorCode e) @
           [(''tier'', JStr (ue_Tier e)), (''costUsd'', JNum cost),
            (''startedAt'', JStr (ue_StartedAt e)), (''endedAt'', JStr (ue_EndedAt e))] @
           (if ue_RedactedCount e = 0 then []
            else [(''redactedCount'', jint (ue_RedactedCount e))]) @
           (if ue_RedactionCategories e = [] then []
            else [(''redactionCategories'',
                   JArr (map JStr (ue_RedactionCategories e)))]))))"

definition batch_body :: "UsageIngestEvent list \<Rightarrow> string option" where
  "batch_body es =
     map_option (\<lambda>js. marshal (JObj [(''events'', JArr js)])) (traverse usage_json es)"

section \<open>The client\<close>

record client =
  c_baseURL :: string
  c_apiKey :: string
  c_cacheTTL :: duration
  c_routing :: RoutingConfig
  c_expiresAt :: go_time
  c_updatedAt :: string
  c_lastFetch :: go_time
  c_fetchErr :: "go_error option"
  c_platformCfg :: PlatformConfig
  c_platformExpiresAt :: go_time
  c_platformUpdatedAt :: string
  c_platformLastFetch :: go_time
  c_platformFetchErr :: "go_error option"

definition New :: "string \<Rightarrow> string \<Rightarrow> duration \<Rightarrow> client" where
  "New baseURL apiKey cacheTTL =
     \<lparr>c_baseURL = baseURL, c_apiKey = apiKey,
      c_cacheTTL = (if cacheTTL \<le> 0 then 5 * second else cacheTTL),
      c_routing = empty_routing, c_expiresAt = 0, c_updatedAt = [], c_lastFetch = 0,
      c_fetchErr = None, c_platformCfg = empty_platform, c_platformExpiresAt = 0,
      c_platformUpdatedAt = [], c_platformLastFetch = 0, c_platformFetchErr = None\<rparr>"

type_synonym clock = "nat \<Rightarrow> go_time"
type_synonym json_errors = "string \<Rightarrow> go_error"

definition RoutingUpdatedAt :: "client \<Rightarrow> string" where
  "RoutingUpdatedAt c = c_updatedAt c"

definition LastFetchError :: "client \<Rightarrow> go_error option" where
  "LastFetchError c = c_fetchErr c"

definition PlatformConfigUpdatedAt :: "client \<Rightarrow> string" where
  "PlatformConfigUpdatedAt c = c_platformUpdatedAt c"

definition ManifestConfigured :: "client \<Rightarrow> bool" where
  "ManifestConfigured c \<longleftrightarrow> pc_ModelsManifestURL (c_platformCfg c) \<noteq> []"

text \<open>The sections under the lock, each one atomic.\<close>

definition setFetchError :: "go_error \<Rightarrow> client \<Rightarrow> client" where
  "setFetchError e c = c\<lparr>c_fetchErr := Some e\<rparr>"

definition setPlatformFetchError :: "go_error \<Rightarrow> client \<Rightarrow> client" where
  "setPlatformFetchError e c = c\<lparr>c_platformFetchErr := Some e\<rparr>"

definition store_empty :: "string \<Rightarrow> go_time \<Rightarrow> go_time \<Rightarrow> client \<Rightarrow> client" where
  "store_empty updatedAt t1 t2 c =
     c\<lparr>c_routing := \<lparr>rc_Models = [], rc_UpdatedAt = updatedAt\<rparr>, c_updatedAt := updatedAt,
       c_expiresAt := t1 + c_cacheTTL c, c_lastFetch := t2,
       c_fetchErr := Some (sentinel_err ErrRoutingEmpty)\<rparr>"

definition store_routing :: "RoutingConfig \<Rightarrow> go_time \<Rightarrow> go_time \<Rightarrow> client \<Rightarrow> client" where
  "store_routing cfg t1 t2 c =
     (let c1 = (if rc_UpdatedAt cfg \<noteq> [] \<and> rc_UpdatedAt cfg \<noteq> c_updatedAt c
                then c\<lparr>c_routing := cfg\<rparr>
                else if rc_Models (c_routing c) = [] then c\<lparr>c_routing := cfg\<rparr>
                else c\<lparr>c_routing := cfg\<rparr>)
      in c1\<lparr>c_updatedAt := rc_UpdatedAt cfg, c_expiresAt := t1 + c_cacheTTL c,
            c_lastFetch := t2, c_fetchErr := None\<rparr>)"

definition store_platform :: "PlatformConfig \<Rightarrow> go_time \<Rightarrow> go_time \<Rightarrow> client \<Rightarrow> client" where
  "store_platform cfg t1 t2 c =
     c\<lparr>c_platformCfg := cfg, c_platformUpdatedAt := pc_UpdatedAt cfg,
       c_platformExpiresAt := t1 + c_cacheTTL c, c_platformLastFetch := t2,
       c_platformFetchErr := None\<rparr>"

definition getCachedOrError :: "go_time \<Rightarrow> client \<Rightarrow> go_error + RoutingConfig" where
  "getCachedOrError now c =
     (if rc_Models (c_routing c) \<noteq> [] \<and>
         time_sub now (c_lastFetch c) < wrap64 (2 * c_cacheTTL c)
      then Inr (c_routing c)
      else case c_fetchErr c of
             Some e \<Rightarrow> Inl e
           | None \<Rightarrow> Inl (sentinel_err ErrRoutingUnavailable))"

definition getCachedPlatformOrError :: "go_time \<Rightarrow> client \<Rightarrow> go_error + PlatformConfig" where
  "getCachedPlatformOrError now c =
     (if pc_ModelsManifestURL (c_platformCfg c) \<noteq> [] \<and>
         time_sub now (c_platformLastFetch c) < wrap64 (2 * c_cacheTTL c)
      then Inr (c_platformCfg c)
      else case c_platformFetchErr c of
             Some e \<Rightarrow> Inl e
           | None \<Rightarrow> Inl (sentinel_err ErrPlatformUnavailable))"

section \<open>Routing\<close>

definition core_get :: "client \<Rightarrow> string \<Rightarrow> http_request" where
  "core_get c path =
     \<lparr>rq_method = ''GET'', rq_url = c_baseURL c @ path,
      rq_headers = header_set (header_set (\<lambda>_. None) ''Authorization'' (''Bearer '' @ c_apiKey c))
                     ''Accept'' ''application/json'',
      rq_body = []\<rparr>"

text \<open>
  On a failed fetch the source asks \<open>getCachedOrError\<close> and keeps its error only
  (\<open>_, err := c.getCachedOrError(); return RoutingConfig{}, err\<close>): a cached configuration that
  is still young enough is answered by the empty configuration and no error.
\<close>

definition cached_or_empty :: "go_time \<Rightarrow> client \<Rightarrow> go_error + RoutingConfig" where
  "cached_or_empty now c =
     (case getCachedOrError now c of Inl e \<Rightarrow> Inl e | Inr _ \<Rightarrow> Inr empty_routing)"

definition valid_models :: "RouteEntry list \<Rightarrow> RouteEntry list" where
  "valid_models ms = filter (\<lambda>m. Valid m = None) ms"

definition refreshRouting ::
    "transport \<Rightarrow> json_errors \<Rightarrow> clock \<Rightarrow> client \<Rightarrow> (go_error + RoutingConfig) \<times> client" where
  "refreshRouting tr je clk c =
     (let rq = core_get c ''/v1/internal/ai/routing'' in
      case tr rq of
        ReqInvalid e \<Rightarrow> (Inl e, setFetchError e c)
      | DoFailed cause \<Rightarrow>
          (let c' = setFetchError
                      (errorf_w ErrRoutingUnavailable (err_text (url_error rq cause))) c
           in (cached_or_empty (clk 1) c', c'))
      | Response code body _ \<Rightarrow>
          if code \<noteq> 200 then
            (let c' = setFetchError
                        (errorf_w ErrRoutingUnavailable
                           (''core status '' @ format_int (int code))) c
             in (cached_or_empty (clk 1) c', c'))
          else
            (case unmarshal_routing body of
               None \<Rightarrow>
                 (let c' = setFetchError (je body) c in (cached_or_empty (clk 1) c', c'))
             | Some cfg0 \<Rightarrow>
                 (let cfg = cfg0\<lparr>rc_Models := valid_models (rc_Models cfg0)\<rparr> in
                  if rc_Models cfg = [] then
                    (Inl (sentinel_err ErrRoutingEmpty),
                     store_empty (rc_UpdatedAt cfg) (clk 1) (clk 2)
                       (setFetchError (sentinel_err ErrRoutingEmpty) c))
                  else (Inr cfg, store_routing cfg (clk 1) (clk 2) c))))"

definition routing_fresh :: "go_time \<Rightarrow> client \<Rightarrow> bool" where
  "routing_fresh now c \<longleftrightarrow> \<not> c_expiresAt c < now \<and> rc_Models (c_routing c) \<noteq> []"

definition GetRouting ::
    "transport \<Rightarrow> json_errors \<Rightarrow> clock \<Rightarrow> client \<Rightarrow> (go_error + RoutingConfig) \<times> client" where
  "GetRouting tr je clk c =
     (if routing_fresh (clk 0) c then (Inr (c_routing c), c) else refreshRouting tr je clk c)"

definition find_route :: "string \<Rightarrow> RouteEntry list \<Rightarrow> go_error + RouteEntry" where
  "find_route model ms =
     (case find (\<lambda>m. re_ExternalID m = model \<or> re_ModelID m = model) ms of
        None \<Rightarrow> Inl (sentinel_err ErrModelNotFound)
      | Some m \<Rightarrow> (case Valid m of
                      Some _ \<Rightarrow> Inl (sentinel_err ErrModelNotFound)
                    | None \<Rightarrow> Inr m))"

definition ResolveRoute ::
    "transport \<Rightarrow> json_errors \<Rightarrow> clock \<Rightarrow> string \<Rightarrow> client \<Rightarrow>
     (go_error + RouteEntry) \<times> client" where
  "ResolveRoute tr je clk model c =
     (case GetRouting tr je clk c of
        (Inl e, c') \<Rightarrow>
          (Inl (if errors_is e ErrRoutingEmpty then sentinel_err ErrRoutingEmpty
                else sentinel_err ErrRoutingUnavailable), c')
      | (Inr cfg, c') \<Rightarrow> (find_route model (rc_Models cfg), c'))"

section \<open>Usage ingest\<close>

definition ingest_request :: "client \<Rightarrow> string \<Rightarrow> http_request" where
  "ingest_request c body =
     \<lparr>rq_method = ''POST'', rq_url = c_baseURL c @ ''/v1/internal/usage/ingest'',
      rq_headers = header_set (header_set (\<lambda>_. None) ''Authorization'' (''Bearer '' @ c_apiKey c))
                     ''Content-Type'' ''application/json'',
      rq_body = body\<rparr>"

definition IngestUsage ::
    "transport \<Rightarrow> client \<Rightarrow> go_error \<Rightarrow> UsageIngestEvent list \<Rightarrow> go_error option" where
  "IngestUsage tr c marshal_err batch =
     (case batch_body batch of
        None \<Rightarrow> Some marshal_err
      | Some body \<Rightarrow>
          (let rq = ingest_request c body in
           case tr rq of
             ReqInvalid e \<Rightarrow> Some e
           | DoFailed cause \<Rightarrow> Some (url_error rq cause)
           | Response code _ _ \<Rightarrow>
               if 300 \<le> code
               then Some (errorf (''usage ingest status '' @ format_int (int code)))
               else None))"

section \<open>Platform configuration\<close>

definition refreshPlatformConfig ::
    "transport \<Rightarrow> json_errors \<Rightarrow> clock \<Rightarrow> client \<Rightarrow> (go_error + PlatformConfig) \<times> client" where
  "refreshPlatformConfig tr je clk c =
     (let rq = core_get c ''/v1/internal/platform/config'';
          failed = (\<lambda>e. let c' = setPlatformFetchError e c
                        in (getCachedPlatformOrError (clk 1) c', c'))
      in case tr rq of
           ReqInvalid e \<Rightarrow> (Inl e, setPlatformFetchError e c)
         | DoFailed cause \<Rightarrow>
             failed (errorf_w ErrPlatformUnavailable (err_text (url_error rq cause)))
         | Response code body _ \<Rightarrow>
             if code \<noteq> 200
             then failed (errorf_w ErrPlatformUnavailable
                            (''core status '' @ format_int (int code)))
             else (case unmarshal_platform body of
                     None \<Rightarrow> failed (je body)
                   | Some cfg \<Rightarrow>
                       if pc_ModelsManifestURL cfg = []
                       then failed (sentinel_err ErrPlatformUnavailable)
                       else (Inr cfg, store_platform cfg (clk 1) (clk 2) c)))"

definition platform_fresh :: "go_time \<Rightarrow> client \<Rightarrow> bool" where
  "platform_fresh now c \<longleftrightarrow>
     \<not> c_platformExpiresAt c < now \<and> pc_ModelsManifestURL (c_platformCfg c) \<noteq> []"

definition GetPlatformConfig ::
    "transport \<Rightarrow> json_errors \<Rightarrow> clock \<Rightarrow> client \<Rightarrow> (go_error + PlatformConfig) \<times> client" where
  "GetPlatformConfig tr je clk c =
     (if platform_fresh (clk 0) c then (Inr (c_platformCfg c), c)
      else refreshPlatformConfig tr je clk c)"

end
