(* ===== verification/Coreclient_Steps.thy ===== *)
theory Coreclient_Steps
  imports Coreclient
begin

text \<open>
  The client under concurrency. Requests and the background refresher share one client; every access
  to its state is one of the sections under its lock, so any interleaving of any number of
  goroutines is a sequence of those sections, the steps of the relation \<open>client_step\<close>. The
  operations of Coreclient refine it, its reachable states satisfy \<open>client_inv\<close>, and both caches are
  instances of the cache contract.
\<close>

section \<open>Steps and reachable states\<close>

inductive client_step :: "client \<Rightarrow> client \<Rightarrow> bool" where
  fetch_error: "client_step c (setFetchError e c)"
| platform_error: "client_step c (setPlatformFetchError e c)"
| routing_empty: "client_step c (store_empty u t1 t2 c)"
| routing_stored:
    "rc_Models cfg \<noteq> [] \<Longrightarrow> list_all complete_route (rc_Models cfg) \<Longrightarrow>
     client_step c (store_routing cfg t1 t2 c)"
| platform_stored:
    "pc_ModelsManifestURL cfg \<noteq> [] \<Longrightarrow> client_step c (store_platform cfg t1 t2 c)"

inductive client_reachable :: "client \<Rightarrow> bool" where
  start: "client_reachable (New url key ttl)"
| step: "client_reachable c \<Longrightarrow> client_step c c' \<Longrightarrow> client_reachable c'"

inductive_cases client_stepE: "client_step c c'"

definition client_inv :: "client \<Rightarrow> bool" where
  "client_inv c \<longleftrightarrow>
     list_all complete_route (rc_Models (c_routing c)) \<and>
     rc_UpdatedAt (c_routing c) = c_updatedAt c \<and>
     pc_UpdatedAt (c_platformCfg c) = c_platformUpdatedAt c \<and>
     0 < c_cacheTTL c"

text \<open>The three branches that store a configuration store the same.\<close>

lemma store_routing_eq:
  "store_routing cfg t1 t2 c =
     c\<lparr>c_routing := cfg, c_updatedAt := rc_UpdatedAt cfg, c_expiresAt := t1 + c_cacheTTL c,
       c_lastFetch := t2, c_fetchErr := None\<rparr>"
  by (simp add: store_routing_def)

lemmas section_defs = setFetchError_def setPlatformFetchError_def store_empty_def
  store_routing_eq store_platform_def

lemma client_inv_New: "client_inv (New url key ttl)"
  by (simp add: client_inv_def New_def empty_routing_def empty_platform_def)

lemma client_step_inv: "client_step c c' \<Longrightarrow> client_inv c \<Longrightarrow> client_inv c'"
  by (induction rule: client_step.induct) (simp_all add: client_inv_def section_defs)

lemma client_step_frame:
  "client_step c c' \<Longrightarrow>
   c_baseURL c' = c_baseURL c \<and> c_apiKey c' = c_apiKey c \<and> c_cacheTTL c' = c_cacheTTL c"
  by (induction rule: client_step.induct) (simp_all add: section_defs)

lemma client_reachable_inv: "client_reachable c \<Longrightarrow> client_inv c"
  by (induction rule: client_reachable.induct) (auto intro: client_inv_New client_step_inv)

lemma client_steps_inv: "client_step\<^sup>*\<^sup>* c c' \<Longrightarrow> client_inv c \<Longrightarrow> client_inv c'"
  by (induction rule: rtranclp_induct) (auto intro: client_step_inv)

lemma client_steps_reachable: "client_step\<^sup>*\<^sup>* c c' \<Longrightarrow> client_reachable c \<Longrightarrow> client_reachable c'"
  by (induction rule: rtranclp_induct) (auto intro: client_reachable.step)

section \<open>The operations refine the steps\<close>

lemma valid_models_complete: "list_all complete_route (valid_models ms)"
  by (auto simp: valid_models_def list_all_iff Valid_None_iff)

lemma refreshRouting_steps: "client_step\<^sup>*\<^sup>* c (snd (refreshRouting tr je clk c))"
proof -
  have err: "client_step\<^sup>*\<^sup>* c (setFetchError e c)" for e
    by (rule r_into_rtranclp) (rule client_step.fetch_error)
  have emp: "client_step\<^sup>*\<^sup>* c (store_empty u t1 t2 (setFetchError e c))" for e u t1 t2
    using err by (rule rtranclp.rtrancl_into_rtrancl) (rule client_step.routing_empty)
  have sto: "client_step\<^sup>*\<^sup>* c (store_routing cfg t1 t2 c)"
    if "rc_Models cfg \<noteq> []" "list_all complete_route (rc_Models cfg)" for cfg t1 t2
    using that by (intro r_into_rtranclp client_step.routing_stored)
  show ?thesis
    by (auto simp: refreshRouting_def Let_def valid_models_complete split: http_result.splits option.splits
        intro!: err emp sto)
qed

lemma refreshPlatformConfig_steps: "client_step\<^sup>*\<^sup>* c (snd (refreshPlatformConfig tr je clk c))"
proof -
  have err: "client_step\<^sup>*\<^sup>* c (setPlatformFetchError e c)" for e
    by (rule r_into_rtranclp) (rule client_step.platform_error)
  have sto: "client_step\<^sup>*\<^sup>* c (store_platform cfg t1 t2 c)"
    if "pc_ModelsManifestURL cfg \<noteq> []" for cfg t1 t2
    using that by (intro r_into_rtranclp client_step.platform_stored)
  show ?thesis
    by (auto simp: refreshPlatformConfig_def Let_def split: http_result.splits option.splits
        intro!: err sto)
qed

lemma GetRouting_steps: "client_step\<^sup>*\<^sup>* c (snd (GetRouting tr je clk c))"
  by (simp add: GetRouting_def refreshRouting_steps)

lemma GetPlatformConfig_steps: "client_step\<^sup>*\<^sup>* c (snd (GetPlatformConfig tr je clk c))"
  by (simp add: GetPlatformConfig_def refreshPlatformConfig_steps)

lemma snd_ResolveRoute: "snd (ResolveRoute tr je clk model c) = snd (GetRouting tr je clk c)"
  by (auto simp: ResolveRoute_def split: prod.splits sum.splits)

lemma ResolveRoute_steps: "client_step\<^sup>*\<^sup>* c (snd (ResolveRoute tr je clk model c))"
  by (simp add: snd_ResolveRoute GetRouting_steps)

text \<open>One tick of \<open>StartBackgroundRefresh\<close>: both refreshes, their results dropped.\<close>

definition background_tick ::
    "transport \<Rightarrow> json_errors \<Rightarrow> clock \<Rightarrow> clock \<Rightarrow> client \<Rightarrow> client" where
  "background_tick tr je clk clk' c =
     snd (refreshPlatformConfig tr je clk' (snd (refreshRouting tr je clk c)))"

lemma background_tick_steps: "client_step\<^sup>*\<^sup>* c (background_tick tr je clk clk' c)"
  unfolding background_tick_def
  using refreshRouting_steps refreshPlatformConfig_steps by (rule rtranclp_trans)

section \<open>The caches\<close>

type_synonym core_env = "transport \<times> json_errors \<times> clock"

definition routing_good :: "RoutingConfig \<Rightarrow> bool" where
  "routing_good cfg \<longleftrightarrow> list_all complete_route (rc_Models cfg)"

definition platform_good :: "PlatformConfig \<Rightarrow> bool" where
  "platform_good cfg \<longleftrightarrow> pc_ModelsManifestURL cfg \<noteq> []"

lemma cached_or_empty_Inr: "cached_or_empty t c = Inr cfg \<Longrightarrow> cfg = empty_routing"
  by (auto simp: cached_or_empty_def split: sum.splits)

lemma refreshRouting_good:
  "fst (refreshRouting tr je clk c) = Inr cfg \<Longrightarrow> routing_good cfg"
  by (auto simp: refreshRouting_def Let_def routing_good_def valid_models_complete
        empty_routing_def
      split: http_result.splits option.splits if_splits dest!: cached_or_empty_Inr)

interpretation rt: ttl_fallback c_routing "\<lambda>cfg. rc_Models cfg \<noteq> []" c_lastFetch c_cacheTTL
  getCachedOrError
  by unfold_locales (auto simp: getCachedOrError_def split: option.splits)

interpretation rc: ttl_cache c_routing "\<lambda>cfg. rc_Models cfg \<noteq> []" c_lastFetch c_cacheTTL
  getCachedOrError client_inv routing_good
  "\<lambda>e :: core_env. routing_fresh (snd (snd e) 0)"
  "\<lambda>e. refreshRouting (fst e) (fst (snd e)) (snd (snd e))"
  "\<lambda>e. GetRouting (fst e) (fst (snd e)) (snd (snd e))"
proof unfold_locales
  show "client_inv (snd (refreshRouting (fst e) (fst (snd e)) (snd (snd e)) s))"
    if "client_inv s" for s and e :: core_env
    using refreshRouting_steps that by (rule client_steps_inv)
qed (auto simp: routing_good_def client_inv_def routing_fresh_def GetRouting_def
  dest: refreshRouting_good [unfolded routing_good_def])

interpretation pt: ttl_fallback c_platformCfg "\<lambda>cfg. pc_ModelsManifestURL cfg \<noteq> []"
  c_platformLastFetch c_cacheTTL getCachedPlatformOrError
  by unfold_locales (auto simp: getCachedPlatformOrError_def split: option.splits)

lemma refreshPlatformConfig_good:
  "fst (refreshPlatformConfig tr je clk c) = Inr cfg \<Longrightarrow> platform_good cfg"
  by (auto simp: refreshPlatformConfig_def Let_def platform_good_def
      split: http_result.splits option.splits if_splits dest!: pt.fallback_present)

interpretation pc: ttl_cache c_platformCfg "\<lambda>cfg. pc_ModelsManifestURL cfg \<noteq> []"
  c_platformLastFetch c_cacheTTL getCachedPlatformOrError client_inv platform_good
  "\<lambda>e :: core_env. platform_fresh (snd (snd e) 0)"
  "\<lambda>e. refreshPlatformConfig (fst e) (fst (snd e)) (snd (snd e))"
  "\<lambda>e. GetPlatformConfig (fst e) (fst (snd e)) (snd (snd e))"
proof unfold_locales
  show "client_inv (snd (refreshPlatformConfig (fst e) (fst (snd e)) (snd (snd e)) s))"
    if "client_inv s" for s and e :: core_env
    using refreshPlatformConfig_steps that by (rule client_steps_inv)
qed (auto simp: platform_good_def platform_fresh_def GetPlatformConfig_def
  dest: refreshPlatformConfig_good [unfolded platform_good_def])

section \<open>Resolving a route\<close>

lemma find_valid_models:
  "find P (valid_models ms) = find (\<lambda>m. complete_route m \<and> P m) ms"
  by (induction ms) (auto simp: valid_models_def Valid_None_iff)

lemma find_route_Inr:
  "find_route model ms = Inr r \<longleftrightarrow>
     find (\<lambda>m. re_ExternalID m = model \<or> re_ModelID m = model) ms = Some r \<and> complete_route r"
  by (auto simp: find_route_def Valid_None_iff [symmetric] split: option.splits)

lemma find_route_Inl:
  "find_route model ms = Inl e \<Longrightarrow> e = sentinel_err ErrModelNotFound"
  by (auto simp: find_route_def split: option.splits)

lemma ResolveRoute_Inr:
  assumes "fst (ResolveRoute tr je clk model c) = Inr r"
  obtains cfg where "fst (GetRouting tr je clk c) = Inr cfg"
    "find_route model (rc_Models cfg) = Inr r"
  using assms by (auto simp: ResolveRoute_def split: prod.splits sum.splits)

lemma ResolveRoute_errors:
  "fst (ResolveRoute tr je clk model c) = Inl e \<Longrightarrow>
   e \<in> {sentinel_err ErrRoutingEmpty, sentinel_err ErrRoutingUnavailable,
        sentinel_err ErrModelNotFound}"
  by (auto simp: ResolveRoute_def split: prod.splits sum.splits if_splits dest: find_route_Inl)

section \<open>Properties\<close>

text \<open>A route and a client that has just stored it, for the examples.\<close>

definition demo_route :: RouteEntry where
  "demo_route =
     zero_route\<lparr>re_ModelID := ''m1'', re_ExternalID := ''gpt'', re_ProviderID := ''p1'',
       re_ProviderType := ''openai'', re_BaseURL := ''http://p'', re_APIKey := ''k'',
       re_TierMin := ''free''\<rparr>"

definition demo_config :: RoutingConfig where
  "demo_config = \<lparr>rc_Models = [demo_route], rc_UpdatedAt = ''t1''\<rparr>"

definition demo_client :: client where
  "demo_client = store_routing demo_config 0 0 (New ''http://c'' ''key'' (5 * second))"

lemma demo_route_complete: "complete_route demo_route"
  by (simp add: demo_route_def complete_route_def zero_route_def)

lemma demo_route_fields [simp]:
  "re_ExternalID demo_route = ''gpt''" "Valid demo_route = None"
  using demo_route_complete by (simp_all add: Valid_None_iff) (simp add: demo_route_def)

lemma demo_client_reachable: "client_reachable demo_client"
  unfolding demo_client_def
  by (rule client_reachable.step [OF client_reachable.start client_step.routing_stored])
     (simp_all add: demo_config_def demo_route_complete)

lemma demo_client_fields [simp]:
  "c_routing demo_client = demo_config" "c_expiresAt demo_client = 5 * second"
  "c_lastFetch demo_client = 0" "c_cacheTTL demo_client = 5 * second"
  by (simp_all add: demo_client_def store_routing_eq New_def)

text \<open>
  Safety of routing under concurrency. Whatever interleaving of requests and background
  refreshes the client has gone through, and whatever Core answers now, a resolved route is complete
  (ids, provider type, base URL, API key and minimal tier are all there), is one for the requested
  model, and the client is again in a reachable state.
\<close>

lemma ResolveRoute_safe:
  assumes "client_reachable c" "ResolveRoute tr je clk model c = (Inr route, c')"
  shows "complete_route route \<and> (re_ExternalID route = model \<or> re_ModelID route = model) \<and>
         client_reachable c'"
proof (intro conjI)
  have "fst (ResolveRoute tr je clk model c) = Inr route" using assms(2) by simp
  then obtain cfg where "fst (GetRouting tr je clk c) = Inr cfg"
    "find_route model (rc_Models cfg) = Inr route" by (rule ResolveRoute_Inr)
  then have f: "find (\<lambda>m. re_ExternalID m = model \<or> re_ModelID m = model) (rc_Models cfg) = Some route"
    "complete_route route" by (simp_all add: find_route_Inr)
  then show "complete_route route" "re_ExternalID route = model \<or> re_ModelID route = model"
    by (auto simp: find_Some_iff)
  show "client_reachable c'"
    using client_steps_reachable [OF ResolveRoute_steps assms(1), of tr je clk model] assms(2) by simp
qed

text \<open>
  Resolution against a fetched configuration. When the cache does not serve and Core answers
  with a configuration, the resolved route is the first complete entry whose external or internal id
  is the model; incomplete entries never hide a complete one, no complete entry at all is the empty
  routing error, and a model without one is not found.
\<close>

lemma ResolveRoute_fetch:
  assumes "\<not> routing_fresh (clk 0) c"
    "tr (core_get c ''/v1/internal/ai/routing'') = Response 200 body er"
    "unmarshal_routing body = Some cfg"
  shows "fst (ResolveRoute tr je clk model c) =
    (if \<not> list_ex complete_route (rc_Models cfg) then Inl (sentinel_err ErrRoutingEmpty)
     else case find (\<lambda>m. complete_route m \<and> (re_ExternalID m = model \<or> re_ModelID m = model))
                 (rc_Models cfg) of
            None \<Rightarrow> Inl (sentinel_err ErrModelNotFound)
          | Some m \<Rightarrow> Inr m)"
proof -
  let ?P = "\<lambda>m. re_ExternalID m = model \<or> re_ModelID m = model"
  let ?M = "valid_models (rc_Models cfg)"
  have e: "?M = [] \<longleftrightarrow> \<not> list_ex complete_route (rc_Models cfg)"
    by (auto simp: valid_models_def filter_empty_conv list_ex_iff Valid_None_iff)
  have g: "fst (GetRouting tr je clk c) =
      (if ?M = [] then Inl (sentinel_err ErrRoutingEmpty) else Inr (cfg\<lparr>rc_Models := ?M\<rparr>))"
    using assms by (simp add: GetRouting_def refreshRouting_def Let_def)
  have r: "fst (ResolveRoute tr je clk model c) =
      (if ?M = [] then Inl (sentinel_err ErrRoutingEmpty) else find_route model ?M)"
    using g by (cases "GetRouting tr je clk c") (auto simp: ResolveRoute_def)
  have c: "Valid m = None" if "find ?P ?M = Some m" for m
  proof -
    have "m \<in> set ?M" using that by (metis find_Some_iff nth_mem)
    then show ?thesis by (simp add: valid_models_def)
  qed
  show ?thesis
    using c unfolding r e find_route_def
    by (auto simp: find_valid_models [of ?P, symmetric] split: option.splits)
qed

text \<open>
  C14. Outage of Core. When the cached routing has expired and Core cannot be reached, every model is
  answered as not found, although a cached configuration younger than twice the time to live is
  there to serve: the fetch drops it and keeps no error.
\<close>

theorem ResolveRoute_outage:
  assumes "\<not> routing_fresh (clk 0) c" "\<And>rq. tr rq = DoFailed cause"
    "getCachedOrError (clk 1) c = Inr cfg"
  shows "fst (ResolveRoute tr je clk model c) = Inl (sentinel_err ErrModelNotFound) \<and>
         rc_Models cfg \<noteq> []"
proof -
  have m: "rc_Models (c_routing c) \<noteq> []" "cfg = c_routing c"
    "time_sub (clk 1) (c_lastFetch c) < wrap64 (2 * c_cacheTTL c)"
    using assms(3) unfolding rt.fallback_Inr_iff by auto
  then have "getCachedOrError (clk 1) (setFetchError e c) = Inr cfg" for e
    by (simp add: getCachedOrError_def setFetchError_def)
  with assms(1,2) m show ?thesis
    by (simp add: ResolveRoute_def GetRouting_def refreshRouting_def Let_def cached_or_empty_def
        find_route_def empty_routing_def)
qed

theorem ResolveRoute_outage_witness:
  "fst (ResolveRoute (\<lambda>_. DoFailed ''refused'') (\<lambda>_. errorf []) (\<lambda>_. 6 * second) ''gpt'' demo_client) =
     Inl (sentinel_err ErrModelNotFound)"
  using ResolveRoute_outage [of "\<lambda>_. 6 * second" demo_client "\<lambda>_. DoFailed ''refused''" "''refused''"
      demo_config "\<lambda>_. errorf []" "''gpt''"]
  by (simp add: routing_fresh_def getCachedOrError_def demo_config_def time_sub_def wrap64_def
      second_def)

text \<open>
  One contact per time to live. After a refresh that stored a configuration, every read until
  the time to live has passed serves that configuration and leaves the client as it is, without
  asking Core.
\<close>

lemma GetRouting_served:
  assumes "refreshRouting tr je clk c = (Inr cfg, c')" "rc_Models cfg \<noteq> []"
    "clk' 0 \<le> clk 1 + c_cacheTTL c"
  shows "GetRouting tr' je' clk' c' = (Inr cfg, c')"
proof -
  have ne: "cached_or_empty t d \<noteq> Inr cfg" for t d
    using cached_or_empty_Inr [of t d cfg] assms(2) by (auto simp: empty_routing_def)
  have "c' = store_routing cfg (clk 1) (clk 2) c"
    using assms(1) ne by (auto simp: refreshRouting_def Let_def split: http_result.splits option.splits if_splits)
  then show ?thesis
    using assms(2,3) by (simp add: GetRouting_def routing_fresh_def store_routing_eq)
qed

text \<open>
  Outage of Core for the platform configuration. While Core cannot be reached an expired
  configuration is served as long as it is present and younger than twice the time to live;
  after that, or when there is none, the read fails, and what is served is never older.
\<close>

lemma GetPlatformConfig_outage:
  assumes "\<not> platform_fresh (clk 0) c" "\<And>rq. tr rq = DoFailed cause"
    "0 \<le> c_cacheTTL c" "2 * c_cacheTTL c < 2 ^ 63"
  shows "(\<forall>cfg. fst (GetPlatformConfig tr je clk c) = Inr cfg \<longrightarrow>
            cfg = c_platformCfg c \<and> pc_ModelsManifestURL cfg \<noteq> [] \<and>
            clk 1 - c_platformLastFetch c < 2 * c_cacheTTL c) \<and>
         (\<forall>e. fst (GetPlatformConfig tr je clk c) = Inl e \<longrightarrow>
            errors_is e ErrPlatformUnavailable \<and>
            (pc_ModelsManifestURL (c_platformCfg c) = [] \<or>
             2 * c_cacheTTL c \<le> clk 1 - c_platformLastFetch c))"
proof -
  define err where "err = errorf_w ErrPlatformUnavailable
    (err_text (url_error (core_get c ''/v1/internal/platform/config'') cause))"
  have "fst (GetPlatformConfig tr je clk c) =
      getCachedPlatformOrError (clk 1) (setPlatformFetchError err c)"
    using assms(1,2)
    by (simp add: GetPlatformConfig_def refreshPlatformConfig_def Let_def err_def)
  moreover have "wrap64 (2 * c_cacheTTL c) = 2 * c_cacheTTL c"
    using assms(3,4) by (intro wrap64_id) (simp add: int64_def)
  moreover have "time_sub (clk 1) (c_platformLastFetch c) < 2 * c_cacheTTL c \<longleftrightarrow>
      clk 1 - c_platformLastFetch c < 2 * c_cacheTTL c"
    using assms(3,4) by (simp add: time_sub_def max_def min_def)
  ultimately have "fst (GetPlatformConfig tr je clk c) =
      (if pc_ModelsManifestURL (c_platformCfg c) \<noteq> [] \<and>
          clk 1 - c_platformLastFetch c < 2 * c_cacheTTL c
       then Inr (c_platformCfg c) else Inl err)"
    by (simp add: getCachedPlatformOrError_def setPlatformFetchError_def)
  moreover have "errors_is err ErrPlatformUnavailable" by (simp add: err_def)
  ultimately show ?thesis by (auto split: if_splits)
qed

text \<open>A client with a platform configuration fetched at time 0.\<close>

end
