(* ===== verification/Regex.thy ===== *)
theory Regex
  imports Prelude
begin

text \<open>
  The part of package regexp that the redaction rules use: byte classes, literals, sequence,
  ordered alternation, greedy and lazy repetition and the ASCII word boundary, matched
  leftmost-first as Go documents it (the match a backtracking search finds first). A cursor is the
  byte before the current position and the rest of the input; a match is listed by the cursors it
  can end at, best first. Repetition counts are expanded as \<open>regexp/syntax\<close> expands them. No class
  of the rules holds a rune beyond ASCII except the two that case folding adds, so matching bytes
  is matching runes.
\<close>

datatype re =
    Eps
  | Cls "(nat \<times> nat) list"
  | WordB
  | Cat re re
  | Alt re re
  | Star bool re

type_synonym cursor = "char option \<times> string"

definition in_class :: "(nat \<times> nat) list \<Rightarrow> char \<Rightarrow> bool" where
  "in_class rs c = list_ex (\<lambda>(lo, hi). lo \<le> byte c \<and> byte c \<le> hi) rs"

definition word_char :: "char \<Rightarrow> bool" where
  "word_char c \<longleftrightarrow> is_digit c \<or> is_upper c \<or> is_lower c \<or> c = CHR ''_''"

fun at_boundary :: "cursor \<Rightarrow> bool" where
  "at_boundary (p, s) =
     ((case p of None \<Rightarrow> False | Some c \<Rightarrow> word_char c) \<noteq>
      (case s of [] \<Rightarrow> False | c # _ \<Rightarrow> word_char c))"

text \<open>An iteration of a star that reads nothing ends the loop, so the recursion is well-founded.\<close>

definition progress :: "cursor \<Rightarrow> cursor list \<Rightarrow> cursor list" where
  "progress c ds = filter (\<lambda>d. length (snd d) < length (snd c)) ds"

function matches :: "re \<Rightarrow> cursor \<Rightarrow> cursor list" where
  "matches Eps c = [c]"
| "matches (Cls rs) c =
     (case snd c of [] \<Rightarrow> [] | x # s \<Rightarrow> if in_class rs x then [(Some x, s)] else [])"
| "matches WordB c = (if at_boundary c then [c] else [])"
| "matches (Cat a b) c = concat (map (matches b) (matches a c))"
| "matches (Alt a b) c = matches a c @ matches b c"
| "matches (Star greedy a) c =
     (let more = concat (map (matches (Star greedy a)) (progress c (matches a c)))
      in if greedy then more @ [c] else c # more)"
  by pat_completeness auto
termination
  by (relation "measures [\<lambda>(r, c). size r, \<lambda>(r, c). length (snd c)]")
     (auto simp: progress_def)

declare matches.simps(6) [simp del]

section \<open>Derived forms\<close>

primrec times :: "nat \<Rightarrow> re \<Rightarrow> re" where
  "times 0 r = Eps"
| "times (Suc n) r = Cat r (times n r)"

primrec upto_times :: "nat \<Rightarrow> re \<Rightarrow> re" where
  "upto_times 0 r = Eps"
| "upto_times (Suc n) r = Alt (Cat r (upto_times n r)) Eps"

definition repeat :: "nat \<Rightarrow> nat \<Rightarrow> re \<Rightarrow> re" where
  "repeat m n r = Cat (times m r) (upto_times (n - m) r)"

definition at_least :: "nat \<Rightarrow> re \<Rightarrow> re" where
  "at_least m r = Cat (times m r) (Star True r)"

definition plus :: "re \<Rightarrow> re" where
  "plus r = Cat r (Star True r)"

definition opt :: "re \<Rightarrow> re" where
  "opt r = Alt r Eps"

definition chr :: "char \<Rightarrow> re" where
  "chr c = Cls [(byte c, byte c)]"

primrec lit :: "string \<Rightarrow> re" where
  "lit [] = Eps"
| "lit (c # s) = Cat (chr c) (lit s)"

fun cats :: "re list \<Rightarrow> re" where
  "cats [] = Eps"
| "cats [r] = r"
| "cats (r # q # rs) = Cat r (cats (q # rs))"

section \<open>Searching\<close>

text \<open>The leftmost match from a cursor on: its start, its end and the cursor there; the first
  argument is the position of the cursor.\<close>

fun search :: "re \<Rightarrow> nat \<Rightarrow> char option \<Rightarrow> string \<Rightarrow> (nat \<times> nat \<times> cursor) option" where
  "search r n p s =
     (case matches r (p, s) of
        d # _ \<Rightarrow> Some (n, n + (length s - length (snd d)), d)
      | [] \<Rightarrow> (case s of [] \<Rightarrow> None | c # t \<Rightarrow> search r (Suc n) (Some c) t))"

declare search.simps [simp del]

text \<open>
  \<open>FindAllStringIndex(s, -1)\<close>: after an empty match the search moves one position on, and an empty
  match right after the previous match is not reported. The bound on the number of rounds is the
  length of the input plus one, which every round uses up.
\<close>

fun find_from :: "re \<Rightarrow> nat \<Rightarrow> nat \<Rightarrow> nat option \<Rightarrow> cursor \<Rightarrow> (nat \<times> nat) list" where
  "find_from r 0 n prev c = []"
| "find_from r (Suc k) n prev c =
     (case search r n (fst c) (snd c) of
        None \<Rightarrow> []
      | Some (a, b, d) \<Rightarrow>
          if b = n then
            (if prev = Some a then [] else [(a, b)]) @
            (case snd c of
               [] \<Rightarrow> []
             | x # t \<Rightarrow> find_from r k (Suc n) (Some b) (Some x, t))
          else (a, b) # find_from r k b (Some b) d)"

definition find_all :: "re \<Rightarrow> string \<Rightarrow> (nat \<times> nat) list" where
  "find_all r s = find_from r (Suc (length s)) 0 None (None, s)"

section \<open>Lengths\<close>

primrec min_len :: "re \<Rightarrow> nat" where
  "min_len Eps = 0"
| "min_len (Cls rs) = 1"
| "min_len WordB = 0"
| "min_len (Cat a b) = min_len a + min_len b"
| "min_len (Alt a b) = min (min_len a) (min_len b)"
| "min_len (Star g a) = 0"

lemma matches_shorter:
  "d \<in> set (matches r c) \<Longrightarrow> length (snd d) + min_len r \<le> length (snd c)"
proof (induction r c arbitrary: d rule: matches.induct)
  case (1 c)
  then show ?case by simp
next
  case (2 rs c)
  then show ?case by (cases "snd c") (auto split: if_splits)
next
  case (3 c)
  then show ?case by (auto split: if_splits)
next
  case (4 a b c)
  then obtain e where e: "e \<in> set (matches a c)" "d \<in> set (matches b e)" by auto
  show ?case using "4.IH"(1) [OF e(1)] "4.IH"(2) [OF e] by simp
next
  case (5 a b c)
  then show ?case by fastforce
next
  case (6 g a c)
  then consider "d = c"
    | e where "e \<in> set (progress c (matches a c))" "d \<in> set (matches (Star g a) e)"
    by (auto simp: matches.simps(6) [of g a c] Let_def split: if_splits)
  then show ?case
  proof cases
    case 1
    then show ?thesis by simp
  next
    case 2
    have "length (snd d) \<le> length (snd e)" using "6.IH"(2) [OF 2(1,2)] by simp
    moreover have "length (snd e) < length (snd c)" using 2(1) by (simp add: progress_def)
    ultimately show ?thesis by simp
  qed
qed

lemma search_bounds:
  "search r n p s = Some (a, b, d) \<Longrightarrow>
   n \<le> a \<and> a + min_len r \<le> b \<and> b + length (snd d) = n + length s"
proof (induction r n p s rule: search.induct)
  case (1 r n p s)
  show ?case
  proof (cases "matches r (p, s)")
    case (Cons e es)
    then have "e \<in> set (matches r (p, s))" by simp
    then have "length (snd e) + min_len r \<le> length s" using matches_shorter by fastforce
    then show ?thesis using "1.prems" Cons by (auto simp: search.simps [of r n p s])
  next
    case none: Nil
    show ?thesis
    proof (cases s)
      case Nil
      then show ?thesis using "1.prems" none by (simp add: search.simps [of r n p "[]"])
    next
      case (Cons c t)
      then have "search r (Suc n) (Some c) t = Some (a, b, d)"
        using "1.prems" none by (simp add: search.simps [of r n p "c # t"])
      from "1.IH" [OF none Cons this] show ?thesis using Cons by simp
    qed
  qed
qed

section \<open>The spans of a search\<close>

text \<open>Spans in order, disjoint, inside the text, each at least \<open>m\<close> bytes long.\<close>

fun spans_ok :: "nat \<Rightarrow> nat \<Rightarrow> nat \<Rightarrow> (nat \<times> nat) list \<Rightarrow> bool" where
  "spans_ok m lo n [] = (lo \<le> n)"
| "spans_ok m lo n ((a, b) # xs) = (lo \<le> a \<and> a + m \<le> b \<and> b \<le> n \<and> spans_ok m b n xs)"

lemma spans_ok_le: "spans_ok m lo n xs \<Longrightarrow> lo \<le> n"
  by (cases xs) auto

lemma spans_ok_lower: "spans_ok m lo n xs \<Longrightarrow> lo' \<le> lo \<Longrightarrow> spans_ok m lo' n xs"
  by (cases xs) auto

lemma spans_ok_weaken: "spans_ok m lo n xs \<Longrightarrow> m' \<le> m \<Longrightarrow> spans_ok m' lo n xs"
  by (induction m lo n xs rule: spans_ok.induct) auto

lemma find_from_ok:
  "n + length (snd c) = len \<Longrightarrow> spans_ok (min_len r) n len (find_from r k n prev c)"
proof (induction r k n prev c rule: find_from.induct)
  case (1 r n prev c)
  then show ?case by simp
next
  case (2 r k n prev c)
  show ?case
  proof (cases "search r n (fst c) (snd c)")
    case None
    with 2 show ?thesis by simp
  next
    case (Some abd)
    obtain a b d where abd: "abd = (a, b, d)" by (cases abd) auto
    note found = Some [unfolded abd]
    note sb = search_bounds [OF found]
    show ?thesis
    proof (cases "b = n")
      case True
      have rest: "spans_ok (min_len r) n len
          (case snd c of [] \<Rightarrow> [] | x # t \<Rightarrow> find_from r k (Suc n) (Some b) (Some x, t))"
      proof (cases "snd c")
        case Nil
        then show ?thesis using "2.prems" by simp
      next
        case (Cons x t)
        have "spans_ok (min_len r) (Suc n) len (find_from r k (Suc n) (Some b) (Some x, t))"
          using "2.IH"(1) [OF found refl refl True Cons] "2.prems" Cons by simp
        then show ?thesis using Cons by (auto intro: spans_ok_lower)
      qed
      show ?thesis
        using Some abd True sb rest spans_ok_le [OF rest] by auto
    next
      case False
      have "spans_ok (min_len r) b len (find_from r k b (Some b) d)"
        using "2.IH"(2) [OF found refl refl False] sb "2.prems" by simp
      then show ?thesis using Some abd False sb "2.prems" by simp
    qed
  qed
qed

lemma find_all_ok: "spans_ok (min_len r) 0 (length s) (find_all r s)"
  unfolding find_all_def by (rule find_from_ok) simp

text \<open>More rounds than the length of the input plus one change nothing.\<close>

lemma find_from_rounds:
  "length (snd c) < k \<Longrightarrow> find_from r (Suc k) n prev c = find_from r k n prev c"
proof (induction k arbitrary: n prev c)
  case 0
  then show ?case by simp
next
  case (Suc k)
  show ?case
  proof (cases "search r n (fst c) (snd c)")
    case None
    then show ?thesis by simp
  next
    case (Some abd)
    obtain a b d where abd: "abd = (a, b, d)" by (cases abd) auto
    note sb = search_bounds [OF Some [unfolded abd]]
    show ?thesis
    proof (cases "b = n")
      case True
      show ?thesis
      proof (cases "snd c")
        case Nil
        then show ?thesis using Some abd True by simp
      next
        case (Cons x t)
        have "find_from r (Suc k) (Suc n) (Some b) (Some x, t) =
              find_from r k (Suc n) (Some b) (Some x, t)"
          using Suc.prems Cons by (intro Suc.IH) simp
        then show ?thesis using Some abd True Cons by simp
      qed
    next
      case False
      have "find_from r (Suc k) b (Some b) d = find_from r k b (Some b) d"
        using Suc.prems sb False by (intro Suc.IH) linarith
      then show ?thesis using Some abd False by simp
    qed
  qed
qed

end
