(* ===== verification/Redact.thy ===== *)
theory Redact
  imports Regex Decode
begin

text \<open>
  internal/redact: the rule engine of the redaction safety net. A rule finds spans of a text,
  optionally validates each match, and replaces it. The built-in rules carry their regular
  expressions in full; a rule of a rules file carries the search function of its compiled pattern,
  where compiling a pattern (package regexp on a pattern that is not in the sources) is a parameter.
  Go iterates over a map in an unspecified order, so the order of the reported categories is a
  parameter too.
\<close>

section \<open>Rules\<close>

type_synonym category = string

definition CategoryAPIKey :: category where "CategoryAPIKey = ''api_key''"
definition CategoryCard :: category where "CategoryCard = ''credit_card''"
definition CategoryIBAN :: category where "CategoryIBAN = ''iban''"
definition CategoryEmail :: category where "CategoryEmail = ''email''"
definition CategoryPhone :: category where "CategoryPhone = ''phone''"
definition CategoryIP :: category where "CategoryIP = ''ip''"
definition CategoryNationalID :: category where "CategoryNationalID = ''national_id''"

lemmas category_defs = CategoryAPIKey_def CategoryCard_def CategoryIBAN_def CategoryEmail_def
  CategoryPhone_def CategoryIP_def CategoryNationalID_def

type_synonym spans = "(nat \<times> nat) list"

record rule =
  ru_category :: category
  ru_find :: "string \<Rightarrow> spans"
  ru_replacement :: string
  ru_validate :: "(string \<Rightarrow> bool) option"

text \<open>\<open>for i := len(digits) - 1; i >= 0; i--\<close>: the digits come last first.\<close>

fun luhn_sum :: "bool \<Rightarrow> int list \<Rightarrow> int" where
  "luhn_sum alt [] = 0"
| "luhn_sum alt (d # ds) =
     (let n = (if alt then (if 9 < 2 * d then 2 * d - 9 else 2 * d) else d)
      in n + luhn_sum (\<not> alt) ds)"

definition digits_of :: "string \<Rightarrow> int list" where
  "digits_of s = map digit_val (filter is_digit s)"

definition luhnValid :: "string \<Rightarrow> bool" where
  "luhnValid s =
     (let digits = digits_of s in
      if length digits < 13 \<or> 19 < length digits then False
      else luhn_sum False (rev digits) mod 10 = 0)"

definition phoneValid :: "string \<Rightarrow> bool" where
  "phoneValid s =
     (let digits = length (filter is_digit s) in 10 \<le> digits \<and> digits \<le> 15)"

text \<open>Classes of the built-in expressions; \<open>k\<close> and \<open>s\<close> fold to the Kelvin sign and the long s.\<close>

definition re_digit :: re where "re_digit = Cls [(48, 57)]"
definition re_kelvin :: re where "re_kelvin = lit (map char_of [226, 132, 170 :: nat])"
definition re_long_s :: re where "re_long_s = lit (map char_of [197, 191 :: nat])"

definition fold_class :: "(nat \<times> nat) list \<Rightarrow> re" where
  "fold_class rs = Alt (Cls rs) (Alt re_kelvin re_long_s)"

definition ci_letter :: "char \<Rightarrow> re" where
  "ci_letter c =
     (let r = Cls [(byte (upper_char c), byte (upper_char c)),
                   (byte (lower_char c), byte (lower_char c))]
      in if lower_char c = CHR ''k'' then Alt r re_kelvin
         else if lower_char c = CHR ''s'' then Alt r re_long_s else r)"

definition ci_lit :: "string \<Rightarrow> re" where
  "ci_lit s = cats (map ci_letter s)"

definition alnum :: "(nat \<times> nat) list" where
  "alnum = [(48, 57), (65, 90), (97, 122)]"

definition re_api_key :: re where
  "re_api_key =
     Alt (Cat (ci_lit ''sk-'') (at_least 20 (fold_class alnum)))
    (Alt (Cat (ci_lit ''ghp_'') (at_least 20 (fold_class alnum)))
    (Alt (Cat (ci_lit ''AKIA'') (times 16 (fold_class alnum)))
         (cats [ci_lit ''eyJ'', at_least 10 (fold_class (alnum @ [(95, 95), (45, 45)])), chr CHR ''.'',
                plus (fold_class (alnum @ [(95, 95), (45, 45)])), chr CHR ''.'',
                plus (fold_class (alnum @ [(95, 95), (45, 45)]))])))"

definition re_card :: re where
  "re_card =
     cats [WordB, repeat 13 19 (Cat re_digit (Star False (Cls [(32, 32), (45, 45)]))), WordB]"

definition re_iban :: re where
  "re_iban =
     cats [WordB, times 2 (Cls [(65, 90)]), times 2 re_digit,
           repeat 11 30 (Cls [(65, 90), (48, 57)]), WordB]"

definition re_email :: re where
  "re_email =
     cats [WordB,
           plus (Cls [(97, 122), (65, 90), (48, 57), (46, 46), (95, 95), (37, 37), (43, 43),
                      (45, 45)]),
           chr CHR ''@'',
           plus (Cls [(97, 122), (65, 90), (48, 57), (46, 46), (45, 45)]),
           chr CHR ''.'',
           at_least 2 (Cls [(97, 122), (65, 90)]), WordB]"

definition re_sep :: re where
  "re_sep = Cls [(9, 10), (12, 13), (32, 32), (46, 46), (45, 45)]"

definition re_phone :: re where
  "re_phone =
     Alt (cats [chr CHR ''+'', Cls [(49, 57)], repeat 7 14 re_digit, WordB])
         (cats [opt (cats [chr CHR ''+'', chr CHR ''1'', opt re_sep]),
                opt (chr CHR ''(''), times 3 re_digit, opt (chr CHR '')''), re_sep,
                times 3 re_digit, re_sep, times 4 re_digit, WordB])"

definition re_octet :: re where
  "re_octet =
     Alt (cats [chr CHR ''2'', chr CHR ''5'', Cls [(48, 53)]])
    (Alt (cats [chr CHR ''2'', Cls [(48, 52)], re_digit])
         (cats [opt (Cls [(48, 49)]), re_digit, opt re_digit]))"

definition re_hex :: re where
  "re_hex = repeat 1 4 (Cls [(48, 57), (97, 102), (65, 70)])"

definition re_ip :: re where
  "re_ip =
     Alt (cats [WordB, times 3 (Cat re_octet (chr CHR ''.'')), re_octet, WordB])
         (cats [WordB, repeat 2 7 (Cat re_hex (chr CHR '':'')), re_hex, WordB])"

definition re_national_id :: re where
  "re_national_id =
     cats [WordB, times 3 re_digit, chr CHR ''-'', times 2 re_digit, chr CHR ''-'',
           times 4 re_digit, WordB]"

definition mk_rule :: "category \<Rightarrow> re \<Rightarrow> string \<Rightarrow> (string \<Rightarrow> bool) option \<Rightarrow> rule" where
  "mk_rule c r repl v =
     \<lparr>ru_category = c, ru_find = find_all r, ru_replacement = repl, ru_validate = v\<rparr>"

definition defaultRules :: "rule list" where
  "defaultRules =
     [mk_rule CategoryAPIKey re_api_key ''[API_KEY]'' None,
      mk_rule CategoryCard re_card ''[CREDIT_CARD]'' (Some luhnValid),
      mk_rule CategoryIBAN re_iban ''[IBAN]'' None,
      mk_rule CategoryEmail re_email ''[EMAIL]'' None,
      mk_rule CategoryPhone re_phone ''[PHONE]'' None,
      mk_rule CategoryIP re_ip ''[IP]'' None,
      mk_rule CategoryNationalID re_national_id ''[NATIONAL_ID]'' None]"

section \<open>The engine\<close>

record redact_result =
  rr_Content :: string
  rr_Count :: nat
  rr_Categories :: "category list"

record engine =
  en_enabled :: bool
  en_rules :: "rule list"

text \<open>\<open>regexp.Compile\<close> on a pattern of the rules file, and reading that file.\<close>

type_synonym compiler = "string \<Rightarrow> (string \<Rightarrow> spans) option"

record custom_rule =
  cu_Pattern :: string
  cu_Replacement :: string
  cu_Category :: string

definition custom_fields :: "custom_rule field list" where
  "custom_fields =
     [field ''pattern'' dec_string cu_Pattern (\<lambda>x s. s\<lparr>cu_Pattern := x\<rparr>),
      field ''replacement'' dec_string cu_Replacement (\<lambda>x s. s\<lparr>cu_Replacement := x\<rparr>),
      field ''category'' dec_string cu_Category (\<lambda>x s. s\<lparr>cu_Category := x\<rparr>)]"

definition unmarshal_custom :: "string \<Rightarrow> custom_rule list option" where
  "unmarshal_custom raw =
     Option.bind (json_unmarshal raw)
       (\<lambda>j. dec_list (dec_struct custom_fields)
              \<lparr>cu_Pattern = [], cu_Replacement = [], cu_Category = []\<rparr> j [])"

definition custom_rules :: "compiler \<Rightarrow> custom_rule list \<Rightarrow> rule list" where
  "custom_rules compile ds =
     List.map_filter
       (\<lambda>d. case compile (cu_Pattern d) of
              None \<Rightarrow> None
            | Some f \<Rightarrow> Some
                \<lparr>ru_category = (if cu_Category d = [] then ''custom'' else cu_Category d),
                 ru_find = f, ru_replacement = cu_Replacement d, ru_validate = None\<rparr>) ds"

text \<open>The file is its bytes, or the error of reading it; \<open>je\<close> is the text of a JSON error.\<close>

definition loadCustomRules ::
    "compiler \<Rightarrow> (string \<Rightarrow> go_error) \<Rightarrow> go_error + string \<Rightarrow> go_error + rule list" where
  "loadCustomRules compile je file =
     (case file of
        Inl e \<Rightarrow> Inl e
      | Inr raw \<Rightarrow> (case unmarshal_custom raw of
                      None \<Rightarrow> Inl (je raw)
                    | Some ds \<Rightarrow> Inr (custom_rules compile ds)))"

definition filter_rules :: "category list \<Rightarrow> rule list" where
  "filter_rules categories =
     (if categories = [] then defaultRules
      else filter (\<lambda>r. ru_category r \<in> set categories) defaultRules)"

definition New ::
    "compiler \<Rightarrow> (string \<Rightarrow> go_error) \<Rightarrow> (string \<Rightarrow> go_error + string) \<Rightarrow>
     bool \<Rightarrow> category list \<Rightarrow> string \<Rightarrow> go_error + engine" where
  "New compile je read_file enabled categories rulesFile =
     (if rulesFile = [] then Inr \<lparr>en_enabled = enabled, en_rules = filter_rules categories\<rparr>
      else case loadCustomRules compile je (read_file rulesFile) of
             Inl e \<Rightarrow> Inl e
           | Inr custom \<Rightarrow>
               Inr \<lparr>en_enabled = enabled, en_rules = filter_rules categories @ custom\<rparr>)"

text \<open>The matches are replaced from the last to the first, so that earlier positions stay valid.\<close>

definition substr :: "nat \<Rightarrow> nat \<Rightarrow> string \<Rightarrow> string" where
  "substr a b s = drop a (take b s)"

definition accepts :: "(string \<Rightarrow> bool) option \<Rightarrow> string \<Rightarrow> bool" where
  "accepts v m = (case v of None \<Rightarrow> True | Some f \<Rightarrow> f m)"

definition replace_one ::
    "(string \<Rightarrow> bool) option \<Rightarrow> string \<Rightarrow> nat \<times> nat \<Rightarrow> string \<times> nat \<Rightarrow> string \<times> nat" where
  "replace_one v repl ab st =
     (case (ab, st) of ((a, b), (result, replaced)) \<Rightarrow>
        if accepts v (substr a b result)
        then (take a result @ repl @ drop b result, Suc replaced)
        else (result, replaced))"

definition replace_all ::
    "(string \<Rightarrow> bool) option \<Rightarrow> string \<Rightarrow> spans \<Rightarrow> string \<Rightarrow> string \<times> nat" where
  "replace_all v repl locs s = fold (replace_one v repl) (rev locs) (s, 0)"

definition apply_rule ::
    "rule \<Rightarrow> string \<times> nat \<times> category list \<Rightarrow> string \<times> nat \<times> category list" where
  "apply_rule rl st =
     (case st of (result, count, seen) \<Rightarrow>
        (case ru_find rl result of
           [] \<Rightarrow> (result, count, seen)
         | locs \<Rightarrow>
             (case replace_all (ru_validate rl) (ru_replacement rl) locs result of
                (result', replaced) \<Rightarrow>
                  if 0 < replaced
                  then (result', count + replaced,
                        if ru_category rl \<in> set seen then seen else seen @ [ru_category rl])
                  else (result', count, seen))))"

text \<open>\<open>order\<close> is the order in which Go iterates over the map of seen categories.\<close>

definition Redact :: "(category list \<Rightarrow> category list) \<Rightarrow> engine \<Rightarrow> string \<Rightarrow> redact_result" where
  "Redact order e content =
     (if \<not> en_enabled e \<or> content = []
      then \<lparr>rr_Content = content, rr_Count = 0, rr_Categories = []\<rparr>
      else case fold apply_rule (en_rules e) (content, 0, []) of
             (result, count, seen) \<Rightarrow>
               \<lparr>rr_Content = result, rr_Count = count, rr_Categories = order seen\<rparr>)"

end
