(* ===== verification/Redact_Props.thy ===== *)
theory Redact_Props
  imports Redact
begin

text \<open>
  Correctness of the redaction engine. The search function of a rule is an interface: it promises
  spans in order, disjoint and inside the text, of a minimal length. Under that contract the
  backward in-place replacement is the one-pass substitution of the accepted matches, and its
  output is bounded; the built-in expressions satisfy the contract.
\<close>

section \<open>One-pass substitution\<close>

fun rewrite_spans :: "(string \<Rightarrow> bool) option \<Rightarrow> string \<Rightarrow> nat \<Rightarrow> string \<Rightarrow> spans \<Rightarrow> string" where
  "rewrite_spans v repl lo s [] = drop lo s"
| "rewrite_spans v repl lo s ((a, b) # xs) =
     substr lo a s @ (if accepts v (substr a b s) then repl else substr a b s) @ rewrite_spans v repl b s xs"

definition accepted :: "(string \<Rightarrow> bool) option \<Rightarrow> string \<Rightarrow> spans \<Rightarrow> spans" where
  "accepted v s locs = filter (\<lambda>(a, b). accepts v (substr a b s)) locs"

lemma substr_length: "b \<le> length s \<Longrightarrow> length (substr a b s) = b - a"
  by (simp add: substr_def)

lemma take_substr: "lo \<le> a \<Longrightarrow> take lo s @ substr lo a s = take a s"
  by (metis append_take_drop_id min.absorb1 substr_def take_take)

lemma substr_substr: "lo \<le> a \<Longrightarrow> a \<le> b \<Longrightarrow> substr lo a s @ substr a b s = substr lo b s"
  by (metis append.assoc le_trans same_append_eq take_substr)

lemma substr_drop: "lo \<le> b \<Longrightarrow> substr lo b s @ drop b s = drop lo s"
  by (metis append.assoc append_take_drop_id same_append_eq take_substr)

lemma substr_append_take: "b \<le> c \<Longrightarrow> b \<le> length s \<Longrightarrow> substr a b (take b s @ t) = substr a b s"
  by (simp add: substr_def min_absorb1)

lemma replace_back_rewrite:
  "spans_ok m lo (length s) xs \<Longrightarrow>
   fold (replace_one v repl) (rev xs) (s, 0) =
     (take lo s @ rewrite_spans v repl lo s xs, length (accepted v s xs))"
proof (induction xs arbitrary: lo)
  case Nil
  then show ?case by (simp add: accepted_def)
next
  case (Cons ab xs)
  obtain a b where ab: "ab = (a, b)" by fastforce
  have ok: "lo \<le> a" "a \<le> b" "b \<le> length s" "spans_ok m b (length s) xs"
    using Cons.prems ab by auto
  let ?rest = "rewrite_spans v repl b s xs"
  have sl: "substr a b (take b s @ ?rest) = substr a b s"
    using ok by (intro substr_append_take [of b b]) auto
  have tk: "take a (take b s @ ?rest) = take a s" "drop b (take b s @ ?rest) = ?rest"
    using ok by (simp_all add: min_absorb1)
  have lo: "take lo s @ substr lo a s = take a s" "take a s @ substr a b s = take b s"
    using ok take_substr by blast+
  have "take lo s @ substr lo a s @ substr a b s @ ?rest = take b s @ ?rest"
    "take lo s @ substr lo a s @ repl @ ?rest = take a s @ repl @ ?rest"
    using lo by (metis append.assoc)+
  then show ?case
    using Cons.IH [OF ok(4)] sl tk by (simp add: ab replace_one_def accepted_def)
qed

lemma rewrite_length:
  assumes "0 < m"
  shows "spans_ok m lo (length s) xs \<Longrightarrow>
    m * length (rewrite_spans v repl lo s xs) \<le> max (length repl) m * (length s - lo)"
proof (induction xs arbitrary: lo)
  case Nil
  then show ?case by (simp add: mult_le_mono)
next
  case (Cons ab xs)
  obtain a b where ab: "ab = (a, b)" by fastforce
  have ok: "lo \<le> a" "a + m \<le> b" "b \<le> length s" "spans_ok m b (length s) xs"
    using Cons.prems ab by auto
  let ?R = "max (length repl) m"
  let ?mid = "if accepts v (substr a b s) then repl else substr a b s"
  have 1: "m * (a - lo) \<le> ?R * (a - lo)" by (simp add: mult_le_mono)
  have "m * length ?mid \<le> ?R * (b - a)"
  proof (cases "accepts v (substr a b s)")
    case True
    have "m * length repl \<le> (b - a) * ?R" using ok by (intro mult_le_mono) auto
    with True show ?thesis by (simp add: mult.commute)
  next
    case False
    then show ?thesis using ok by (simp add: substr_length mult_le_mono)
  qed
  moreover have "length (rewrite_spans v repl lo s (ab # xs)) =
      (a - lo) + length ?mid + length (rewrite_spans v repl b s xs)"
    using ok by (simp add: ab substr_length)
  ultimately have "m * length (rewrite_spans v repl lo s (ab # xs)) \<le>
      ?R * (a - lo) + ?R * (b - a) + ?R * (length s - b)"
    using 1 Cons.IH [OF ok(4)] by (simp only: distrib_left)
  also have "\<dots> = ?R * (length s - lo)"
    using ok by (simp flip: distrib_left)
  finally show ?case .
qed

section \<open>The interface of a search function\<close>

locale span_finder =
  fixes find_spans :: "string \<Rightarrow> spans"
    and m :: nat
  assumes spans: "spans_ok m 0 (length s) (find_spans s)"
begin

lemma replace_all_rewrite:
  "replace_all v repl (find_spans s) s =
     (rewrite_spans v repl 0 s (find_spans s), length (accepted v s (find_spans s)))"
  using replace_back_rewrite [OF spans] by (simp add: replace_all_def)

lemma apply_rule_rewrite:
  assumes "ru_find rl = find_spans"
  shows "apply_rule rl (s, n, seen) =
    (let k = length (accepted (ru_validate rl) s (find_spans s)) in
     (rewrite_spans (ru_validate rl) (ru_replacement rl) 0 s (find_spans s), n + k,
      if k = 0 \<or> ru_category rl \<in> set seen then seen else seen @ [ru_category rl]))"
  using assms replace_all_rewrite [of "ru_validate rl" "ru_replacement rl" s]
  by (cases "find_spans s") (auto simp: apply_rule_def accepted_def Let_def)

lemma apply_rule_length:
  assumes "ru_find rl = find_spans" "0 < m" "apply_rule rl (s, n, seen) = (s', n', seen')"
  shows "m * length s' \<le> max (length (ru_replacement rl)) m * length s"
  using assms(3) rewrite_length [OF assms(2) spans, of "ru_validate rl" "ru_replacement rl" s]
  by (simp add: apply_rule_rewrite [OF assms(1)] Let_def)

end

interpretation rx: span_finder "find_all r" "min_len r" for r
  by unfold_locales (rule find_all_ok)

section \<open>Whole passes\<close>

text \<open>No accepted match, no change: the text, the count and the categories agree.\<close>

lemma rewrite_no_accept:
  "spans_ok m lo (length s) xs \<Longrightarrow> accepted v s xs = [] \<Longrightarrow> rewrite_spans v repl lo s xs = drop lo s"
proof (induction xs arbitrary: lo)
  case Nil
  then show ?case by simp
next
  case (Cons ab xs)
  obtain a b where ab: "ab = (a, b)" by fastforce
  have ok: "lo \<le> a" "a \<le> b" "b \<le> length s" "spans_ok m b (length s) xs"
    using Cons.prems ab by auto
  have na: "\<not> accepts v (substr a b s)" "accepted v s xs = []"
    using Cons.prems(2) ab by (auto simp: accepted_def split: if_splits)
  then show ?case
    using Cons.IH [OF ok(4) na(2)] na(1) ab substr_substr [OF ok(1,2), of s]
      substr_drop [of lo b s] ok(1,2)
    by (simp flip: append.assoc)
qed


definition finder_ok :: "nat \<Rightarrow> (string \<Rightarrow> spans) \<Rightarrow> bool" where
  "finder_ok m f \<longleftrightarrow> (\<forall>s. spans_ok m 0 (length s) (f s))"

lemma finder_ok_span_finder: "finder_ok m f \<longleftrightarrow> span_finder f m"
  by (simp add: finder_ok_def span_finder_def)

lemma finder_ok_find_all: "finder_ok (min_len r) (find_all r)"
  by (simp add: finder_ok_def find_all_ok)

definition engine_ok :: "engine \<Rightarrow> bool" where
  "engine_ok e \<longleftrightarrow> list_all (\<lambda>rl. finder_ok 0 (ru_find rl)) (en_rules e)"

lemma finder_ok_weaken: "finder_ok m f \<Longrightarrow> m' \<le> m \<Longrightarrow> finder_ok m' f"
  unfolding finder_ok_def by (blast intro: spans_ok_weaken)

lemma mk_rule_ok: "finder_ok 0 (ru_find (mk_rule c r repl v))"
  using finder_ok_weaken [OF finder_ok_find_all, of 0] by (simp add: mk_rule_def)

lemma defaultRules_ok: "list_all (\<lambda>rl. finder_ok 0 (ru_find rl)) defaultRules"
  by (simp add: defaultRules_def mk_rule_ok)

lemma filter_rules_ok: "list_all (\<lambda>rl. finder_ok 0 (ru_find rl)) (filter_rules cs)"
  using defaultRules_ok by (auto simp: filter_rules_def list_all_iff)

text \<open>One rule: a count of 0 means that nothing changed, any other that its category is reported.\<close>

lemma apply_rule_zero:
  assumes ok: "finder_ok 0 (ru_find rl)" and ap: "apply_rule rl (s, n, seen) = (s', n', seen')"
  shows "n \<le> n'" and "n' = n \<Longrightarrow> s' = s \<and> seen' = seen"
    and "n < n' \<Longrightarrow> ru_category rl \<in> set seen'" and "set seen \<subseteq> set seen'"
    and "distinct seen \<Longrightarrow> distinct seen'"
proof -
  have sf: "span_finder (ru_find rl) 0" using ok finder_ok_span_finder by blast
  have sp: "spans_ok 0 0 (length s) (ru_find rl s)" using ok by (simp add: finder_ok_def)
  let ?k = "length (accepted (ru_validate rl) s (ru_find rl s))"
  have eq: "s' = rewrite_spans (ru_validate rl) (ru_replacement rl) 0 s (ru_find rl s)"
    "n' = n + ?k"
    "seen' = (if ?k = 0 \<or> ru_category rl \<in> set seen then seen else seen @ [ru_category rl])"
    using span_finder.apply_rule_rewrite [OF sf refl, of s n seen] ap by (auto simp: Let_def)
  show "n \<le> n'" using eq by simp
  show "s' = s \<and> seen' = seen" if "n' = n"
    using that eq rewrite_no_accept [OF sp] by simp
  show "ru_category rl \<in> set seen'" if "n < n'" using that eq by auto
  show "set seen \<subseteq> set seen'" using eq by auto
  show "distinct seen \<Longrightarrow> distinct seen'" using eq by auto
qed

text \<open>All rules, in order.\<close>

lemma fold_rules_zero:
  "list_all (\<lambda>rl. finder_ok 0 (ru_find rl)) rls \<Longrightarrow>
   fold apply_rule rls (s, n, seen) = (s', n', seen') \<Longrightarrow>
   n \<le> n' \<and> (n' = n \<longrightarrow> s' = s \<and> seen' = seen) \<and> (n < n' \<longrightarrow> seen' \<noteq> []) \<and>
   set seen \<subseteq> set seen' \<and> (distinct seen \<longrightarrow> distinct seen')"
proof (induction rls arbitrary: s n seen)
  case Nil
  then show ?case by simp
next
  case (Cons rl rls)
  obtain s1 n1 seen1 where ap: "apply_rule rl (s, n, seen) = (s1, n1, seen1)"
    by (cases "apply_rule rl (s, n, seen)") auto
  have ok: "finder_ok 0 (ru_find rl)" using Cons.prems(1) by simp
  have rest: "fold apply_rule rls (s1, n1, seen1) = (s', n', seen')" using Cons.prems(2) ap by simp
  have oks: "list_all (\<lambda>rl. finder_ok 0 (ru_find rl)) rls" using Cons.prems(1) by simp
  have IH: "n1 \<le> n' \<and> (n' = n1 \<longrightarrow> s' = s1 \<and> seen' = seen1) \<and>
      (n1 < n' \<longrightarrow> seen' \<noteq> []) \<and> set seen1 \<subseteq> set seen' \<and> (distinct seen1 \<longrightarrow> distinct seen')"
    by (rule Cons.IH [OF oks rest])
  note one = apply_rule_zero [OF ok ap]
  have "seen' \<noteq> []" if "n < n'"
  proof (cases "n1 < n'")
    case False
    with IH that have "n < n1" by simp
    with one(3) IH show ?thesis by auto
  qed (use IH in simp)
  moreover have "s' = s \<and> seen' = seen" if "n' = n"
    using that IH one(1,2) by auto
  ultimately show ?case using IH one by fastforce
qed

lemma Redact_fold:
  assumes "en_enabled e" "content \<noteq> []"
  obtains s n seen where "fold apply_rule (en_rules e) (content, 0, []) = (s, n, seen)"
    "Redact order e content = \<lparr>rr_Content = s, rr_Count = n, rr_Categories = order seen\<rparr>"
  using assms by (cases "fold apply_rule (en_rules e) (content, 0, [])") (auto simp: Redact_def)

section \<open>Lengths of the built-in rules\<close>

lemmas re_defs = re_api_key_def re_card_def re_iban_def re_email_def re_phone_def re_ip_def
  re_national_id_def re_digit_def re_kelvin_def re_long_s_def re_sep_def re_octet_def re_hex_def
  fold_class_def ci_lit_def ci_letter_def alnum_def repeat_def at_least_def plus_def opt_def
  chr_def

lemma min_len_times [simp]: "min_len (times n r) = n * min_len r"
  by (induction n) auto

lemma min_len_upto [simp]: "min_len (upto_times n r) = 0"
  by (induction n) auto

lemma min_len_defaults:
  "min_len re_api_key = 17" "min_len re_card = 13" "min_len re_iban = 15" "min_len re_email = 6"
  "min_len re_phone = 9" "min_len re_ip = 5" "min_len re_national_id = 11"
  by (simp_all add: re_defs Let_def lower_char_def upper_char_def is_upper_def is_lower_def)

lemma apply_mk_rule_length:
  assumes "apply_rule (mk_rule c r repl v) (s, n, seen) = (s', n', seen')" "0 < min_len r"
  shows "min_len r * length s' \<le> max (length repl) (min_len r) * length s"
  using rx.apply_rule_length [OF _ assms(2,1)] by (simp add: mk_rule_def)

lemma defaultRules_length:
  assumes "fold apply_rule defaultRules (s, 0, []) = (s', n, seen)"
  shows "66 * length s' \<le> 91 * length s"
proof -
  obtain s1 n1 c1 where 1: "apply_rule (mk_rule CategoryAPIKey re_api_key ''[API_KEY]'' None)
      (s, 0, []) = (s1, n1, c1)" by (metis prod_cases3)
  obtain s2 n2 c2 where 2: "apply_rule (mk_rule CategoryCard re_card ''[CREDIT_CARD]'' (Some luhnValid))
      (s1, n1, c1) = (s2, n2, c2)" by (metis prod_cases3)
  obtain s3 n3 c3 where 3: "apply_rule (mk_rule CategoryIBAN re_iban ''[IBAN]'' None)
      (s2, n2, c2) = (s3, n3, c3)" by (metis prod_cases3)
  obtain s4 n4 c4 where 4: "apply_rule (mk_rule CategoryEmail re_email ''[EMAIL]'' None)
      (s3, n3, c3) = (s4, n4, c4)" by (metis prod_cases3)
  obtain s5 n5 c5 where 5: "apply_rule (mk_rule CategoryPhone re_phone ''[PHONE]'' None)
      (s4, n4, c4) = (s5, n5, c5)" by (metis prod_cases3)
  obtain s6 n6 c6 where 6: "apply_rule (mk_rule CategoryIP re_ip ''[IP]'' None)
      (s5, n5, c5) = (s6, n6, c6)" by (metis prod_cases3)
  have 7: "apply_rule (mk_rule CategoryNationalID re_national_id ''[NATIONAL_ID]'' None)
      (s6, n6, c6) = (s', n, seen)"
    using assms 1 2 3 4 5 6 by (simp add: defaultRules_def)
  note bounds = apply_mk_rule_length [OF 1] apply_mk_rule_length [OF 2]
    apply_mk_rule_length [OF 3] apply_mk_rule_length [OF 4] apply_mk_rule_length [OF 5]
    apply_mk_rule_length [OF 6] apply_mk_rule_length [OF 7]
  have "17 * length s1 \<le> 17 * length s" "13 * length s2 \<le> 13 * length s1"
    "15 * length s3 \<le> 15 * length s2" "6 * length s4 \<le> 7 * length s3"
    "9 * length s5 \<le> 9 * length s4" "5 * length s6 \<le> 5 * length s5"
    "11 * length s' \<le> 13 * length s6"
    using bounds by (simp_all add: min_len_defaults)
  then show ?thesis by linarith
qed

section \<open>Luhn\<close>

lemma luhn_term:
  assumes "0 \<le> (d :: int)" "d < 10" "0 \<le> e" "e < 10"
    "(if 9 < 2 * d then 2 * d - 9 else 2 * d) mod 10 = (if 9 < 2 * e then 2 * e - 9 else 2 * e) mod 10"
  shows "d = e"
proof -
  let ?f = "\<lambda>d :: int. if 9 < 2 * d then 2 * d - 9 else 2 * d"
  have f: "?f x mod 10 = ?f x" if "0 \<le> x" "x < 10" for x
    using that by (intro mod_pos_pos_trivial) auto
  have "?f d = ?f e" using assms(5) f [OF assms(1,2)] f [OF assms(3,4)] by metis
  then show ?thesis using assms(1-4) by (auto split: if_splits) presburger+
qed

lemma luhn_sum_append:
  "luhn_sum alt (xs @ ys) = luhn_sum alt xs + luhn_sum (alt = even (length xs)) ys"
proof (induction xs arbitrary: alt)
  case (Cons x xs)
  have "((\<not> alt) = even (length xs)) = (alt = even (length (x # xs)))" by auto
  then show ?case by (simp add: Cons.IH Let_def)
qed simp

lemma mod_add_cancel: "(a + x) mod 10 = (a + y) mod 10 \<Longrightarrow> x mod 10 = (y :: int) mod 10"
  by (simp add: mod_eq_dvd_iff)

lemma luhn_sum_change:
  assumes "0 \<le> d" "d < 10" "0 \<le> e" "e < 10"
    "luhn_sum alt (xs @ d # ys) mod 10 = luhn_sum alt (xs @ e # ys) mod 10"
  shows "d = e"
proof -
  let ?alt = "alt = even (length xs)"
  let ?f = "\<lambda>d. if ?alt then if 9 < 2 * d then 2 * d - 9 else 2 * d else d"
  have s: "luhn_sum alt (xs @ x # ys) =
      (luhn_sum alt xs + luhn_sum (\<not> ?alt) ys) + ?f x" for x :: int
    by (simp add: luhn_sum_append Let_def)
  have "?f d mod 10 = ?f e mod 10"
    using assms(5) unfolding s by (rule mod_add_cancel)
  then show ?thesis
    using luhn_term [OF assms(1-4)] assms(1-4) by (auto split: if_splits)
qed

lemma digit_val_range: "is_digit c \<Longrightarrow> 0 \<le> digit_val c \<and> digit_val c < 10"
  by (auto simp: is_digit_def digit_val_def)

lemma digit_val_inj: "is_digit c \<Longrightarrow> is_digit d \<Longrightarrow> digit_val c = digit_val d \<Longrightarrow> c = d"
  by (auto simp: digit_val_def)

lemma digits_of_append: "digits_of (s @ t) = digits_of s @ digits_of t"
  by (simp add: digits_of_def)

lemma digits_of_Cons:
  "digits_of (c # s) = (if is_digit c then digit_val c # digits_of s else digits_of s)"
  by (simp add: digits_of_def)

end
