(* ===== verification/Config.thy ===== *)
theory Config
  imports Redact
begin

text \<open>
  config/config.go: the configuration that the environment gives, with its defaults. The environment
  is a function; \<open>os.Getenv\<close> gives the empty string for a variable that is not set.
\<close>

type_synonym environment = "string \<Rightarrow> string"

record Config =
  cf_Addr :: string
  cf_CorePlatformURL :: string
  cf_InternalAPIKey :: string
  cf_JWTIssuer :: string
  cf_JWTAudience :: string
  cf_RedisAddr :: string
  cf_RoutingCacheSec :: int
  cf_TLSCert :: string
  cf_TLSKey :: string
  cf_RateLimitFailClosed :: bool
  cf_ConnectTimeout :: duration
  cf_ReadTimeout :: duration
  cf_RedactionEnabled :: bool
  cf_RedactionCategories :: "category list"
  cf_RedactionRulesFile :: string

definition getenv :: "environment \<Rightarrow> string \<Rightarrow> string \<Rightarrow> string" where
  "getenv env key fallback = (if env key \<noteq> [] then env key else fallback)"

definition getenvInt :: "environment \<Rightarrow> string \<Rightarrow> int \<Rightarrow> int" where
  "getenvInt env key fallback =
     (if env key \<noteq> []
      then (case atoi (env key) of (i, AtoiOk) \<Rightarrow> i | _ \<Rightarrow> fallback)
      else fallback)"

text \<open>\<open>strings.ToLower\<close>: on bytes, and the Kelvin sign, the one other rune that folds to ASCII.\<close>

fun to_lower :: "string \<Rightarrow> string" where
  "to_lower [] = []"
| "to_lower (c # s) =
     (if byte c = 226 \<and> has_prefix s [char_of (132 :: nat), char_of (170 :: nat)]
      then CHR ''k'' # to_lower (drop 2 s)
      else lower_char c # to_lower s)"

definition getenvBool :: "environment \<Rightarrow> string \<Rightarrow> bool \<Rightarrow> bool" where
  "getenvBool env key fallback =
     (if env key \<noteq> []
      then (if to_lower (env key) \<in> set [''1'', ''true'', ''yes'', ''on''] then True
            else if to_lower (env key) \<in> set [''0'', ''false'', ''no'', ''off''] then False
            else fallback)
      else fallback)"

definition parseCategories :: "string \<Rightarrow> category list" where
  "parseCategories raw =
     (if trim_space raw = [] then []
      else filter (\<lambda>p. p \<noteq> []) (map trim_space (split_char (CHR '','') raw)))"

text \<open>\<open>time.Duration(n) * time.Second\<close> wraps around silently.\<close>

definition seconds :: "int \<Rightarrow> duration" where
  "seconds n = wrap64 (n * second)"

definition Load :: "environment \<Rightarrow> go_error + Config" where
  "Load env =
     (let cfg =
        \<lparr>cf_Addr = getenv env ''PROXY_PORT'' (getenv env ''PORT'' ''8090''),
         cf_CorePlatformURL = getenv env ''CORE_PLATFORM_URL'' ''http://localhost:8080'',
         cf_InternalAPIKey = env ''INTERNAL_API_KEY'',
         cf_JWTIssuer = getenv env ''JWT_ISSUER'' ''https://api.yadra.app'',
         cf_JWTAudience = getenv env ''JWT_AUDIENCE'' ''proxy.yadra.app'',
         cf_RedisAddr = getenv env ''REDIS_ADDR'' ''localhost:6379'',
         cf_RoutingCacheSec = getenvInt env ''ROUTING_CACHE_SEC'' 5,
         cf_TLSCert = env ''TLS_CERT'',
         cf_TLSKey = env ''TLS_KEY'',
         cf_RateLimitFailClosed = getenvBool env ''RATE_LIMIT_FAIL_CLOSED'' False,
         cf_ConnectTimeout = seconds (getenvInt env ''PROXY_CONNECT_TIMEOUT_SEC'' 10),
         cf_ReadTimeout = seconds (getenvInt env ''PROXY_READ_TIMEOUT_SEC'' 120),
         cf_RedactionEnabled = getenvBool env ''REDACTION_ENABLED'' True,
         cf_RedactionCategories = parseCategories (getenv env ''REDACTION_CATEGORIES'' []),
         cf_RedactionRulesFile = env ''REDACTION_RULES_FILE''\<rparr>
      in if cf_InternalAPIKey cfg = [] then Inl (errorf ''INTERNAL_API_KEY is required'')
         else Inr cfg)"

text \<open>\<open>Atoi\<close> gives 0 on a syntax error and the nearest bound on a value out of range.\<close>

definition ListenAddr :: "Config \<Rightarrow> string" where
  "ListenAddr c =
     (let port = fst (atoi (cf_Addr c))
      in if port = 0 then '':8090'' else '':'' @ format_int port)"

section \<open>Lemmas\<close>

lemma getenvInt_int64: "int64 fallback \<Longrightarrow> int64 (getenvInt env key fallback)"
  by (auto simp: getenvInt_def atoi_def int64_def Let_def split: if_splits)

lemma seconds_id: "0 \<le> n \<Longrightarrow> n \<le> 9223372036 \<Longrightarrow> seconds n = n * second"
  unfolding seconds_def by (rule wrap64_id) (simp add: int64_def second_def)

lemma Load_redaction:
  assumes "Load env = Inr cfg"
  shows "cf_RedactionCategories cfg = parseCategories (env ''REDACTION_CATEGORIES'')"
    "cf_RedactionRulesFile cfg = env ''REDACTION_RULES_FILE''"
proof -
  have "getenv env ''REDACTION_CATEGORIES'' [] = env ''REDACTION_CATEGORIES''" by (simp add: getenv_def)
  then show "cf_RedactionCategories cfg = parseCategories (env ''REDACTION_CATEGORIES'')"
    "cf_RedactionRulesFile cfg = env ''REDACTION_RULES_FILE''"
    using assms by (auto simp: Load_def Let_def split: if_split_asm)
qed

text \<open>The categories of the configuration name built-in rules or nothing.\<close>

lemma filter_rules_categories:
  "set (map ru_category (filter_rules cs)) \<subseteq>
   {CategoryAPIKey, CategoryCard, CategoryIBAN, CategoryEmail, CategoryPhone, CategoryIP,
    CategoryNationalID}"
  by (auto simp: filter_rules_def defaultRules_def mk_rule_def)

lemma filter_rules_unknown:
  assumes "cs \<noteq> []" "set cs \<inter> set (map ru_category defaultRules) = {}"
  shows "filter_rules cs = []"
  using assms by (auto simp: filter_rules_def filter_empty_conv)

lemma filter_rules_known:
  "cs \<noteq> [] \<Longrightarrow> rl \<in> set (filter_rules cs) \<longleftrightarrow> rl \<in> set defaultRules \<and> ru_category rl \<in> set cs"
  by (auto simp: filter_rules_def)

lemma parseCategories_trimmed:
  "c \<in> set (parseCategories raw) \<Longrightarrow> c \<noteq> [] \<and> (\<exists>p. c = trim_space p)"
  by (auto simp: parseCategories_def split: if_splits)

end
