(* ===== verification/Redact_Card.thy ===== *)
theory Redact_Card
  imports Redact_Props Config
begin

text \<open>
  What the card rule does to a card number in a text without other digits, computed from its regular
  expression, and the properties of the redaction engine.
\<close>

section \<open>One digit of the card expression\<close>

definition card_sep :: "(nat \<times> nat) list" where "card_sep = [(32, 32), (45, 45)]"

abbreviation separator :: "char \<Rightarrow> bool" where "separator c \<equiv> in_class card_sep c"

definition card_unit :: re where
  "card_unit = Cat re_digit (Star False (Cls card_sep))"

lemma re_card_eq: "re_card = Cat WordB (Cat (repeat 13 19 card_unit) WordB)"
  by (simp add: re_card_def card_unit_def card_sep_def)

lemma in_class_digit [simp]: "in_class [(48, 57)] c = is_digit c"
  by (simp add: in_class_def is_digit_def)

lemma digit_not_sep: "is_digit c \<Longrightarrow> \<not> separator c"
  by (auto simp: is_digit_def in_class_def card_sep_def)

lemma digit_word: "is_digit c \<Longrightarrow> word_char c"
  by (simp add: word_char_def)

lemma star_none:
  "s = [] \<or> \<not> in_class rs (hd s) \<Longrightarrow> matches (Star g (Cls rs)) (p, s) = [(p, s)]"
  by (cases s) (auto simp: matches.simps(6) progress_def Let_def)

lemma star_one:
  "in_class rs c \<Longrightarrow>
   matches (Star False (Cls rs)) (p, c # s) = (p, c # s) # matches (Star False (Cls rs)) (Some c, s)"
  by (simp add: matches.simps(6) [of _ _ "(p, c # s)"] progress_def Let_def)

text \<open>The lazy star offers to stop before every separator; an expression that cannot start at one
  goes on after all of them.\<close>

lemma star_seps:
  assumes "\<And>q s. s \<noteq> [] \<Longrightarrow> separator (hd s) \<Longrightarrow> f (q, s) = []"
  shows "list_all separator seps \<Longrightarrow> t = [] \<or> \<not> separator (hd t) \<Longrightarrow>
    concat (map f (matches (Star False (Cls card_sep)) (p, seps @ t))) =
      f (if seps = [] then p else Some (last seps), t)"
  using assms by (induction seps arbitrary: p) (simp_all add: star_none star_one)

lemma unit_first:
  assumes "is_digit d"
  shows "\<exists>cs. matches card_unit (p, d # t) = (Some d, t) # cs"
  using assms
  by (auto simp: card_unit_def re_digit_def matches.simps(6) [of False _ "(Some d, t)"] Let_def)

lemma unit_other: "s = [] \<or> \<not> is_digit (hd s) \<Longrightarrow> matches card_unit (p, s) = []"
  by (cases s) (auto simp: card_unit_def re_digit_def)

lemma times_other:
  "0 < n \<Longrightarrow> s = [] \<or> \<not> is_digit (hd s) \<Longrightarrow> matches (times n card_unit) (p, s) = []"
  by (cases n) (simp_all add: unit_other)

lemma card_other: "s = [] \<or> \<not> is_digit (hd s) \<Longrightarrow> matches re_card (p, s) = []"
  using times_other [of 13 s p] by (auto simp: re_card_eq repeat_def)

section \<open>A number in groups\<close>

text \<open>Digits with spaces and dashes between them.\<close>

definition grouped :: "string \<Rightarrow> bool" where
  "grouped g \<longleftrightarrow> g \<noteq> [] \<and> is_digit (hd g) \<and> is_digit (last g) \<and>
     list_all (\<lambda>c. is_digit c \<or> separator c) g"

lemma grouped_split:
  assumes "grouped (d # g)"
  obtains "g = []"
  | seps g' where "g = seps @ g'" "list_all separator seps" "grouped g'" "last g' = last (d # g)"
      "filter is_digit g' = filter is_digit g"
proof (cases "g = []")
  case True
  then show thesis by (rule that(1))
next
  case False
  define seps g' where "seps = takeWhile separator g" and "g' = dropWhile separator g"
  have g: "g = seps @ g'" by (simp add: seps_def g'_def)
  have seps: "list_all separator seps" by (auto simp: seps_def list_all_iff dest: set_takeWhileD)
  have l: "is_digit (last g)" using assms False by (simp add: grouped_def)
  have g': "g' \<noteq> []"
    using digit_not_sep [OF l] last_in_set [OF False] by (auto simp: g'_def dropWhile_eq_Nil_conv)
  then have "\<not> separator (hd g')" unfolding g'_def by (rule hd_dropWhile)
  then have "is_digit (hd g')"
    using assms g g' by (cases g') (auto simp: grouped_def)
  then have "grouped g'"
    using assms g g' l unfolding grouped_def by simp
  moreover have "filter is_digit seps = []"
    using seps digit_not_sep by (auto simp: list_all_iff filter_empty_conv)
  ultimately show thesis using that(2) g seps g' False by simp
qed

lemma concat_eps: "concat (map (matches Eps) cs) = cs"
  by (induction cs) auto

text \<open>As many units as there are digits end within the unit of the last one.\<close>

lemma times_grouped:
  "grouped g \<Longrightarrow> length (filter is_digit g) = Suc n \<Longrightarrow>
   \<exists>q. matches (times (Suc n) card_unit) (p, g @ t) = matches card_unit (q, last g # t)"
proof (induction n arbitrary: p g)
  case 0
  obtain d h where g: "g = d # h" using "0.prems"(1) by (cases g) (auto simp: grouped_def)
  have "h = []"
    by (rule grouped_split [OF "0.prems"(1) [unfolded g]])
       (use "0.prems" g in \<open>auto simp: grouped_def filter_empty_conv\<close>)
  then show ?case using g by (auto simp: concat_eps)
next
  case (Suc n)
  obtain d h where g: "g = d # h" "is_digit d"
    using Suc.prems(1) by (cases g) (auto simp: grouped_def)
  show ?case
  proof (rule grouped_split [OF Suc.prems(1) [unfolded g(1)]])
    assume "h = []"
    then show ?thesis using Suc.prems(2) g by simp
  next
    fix seps g' assume s: "h = seps @ g'" "list_all separator seps" "grouped g'"
      "last g' = last (d # h)" "filter is_digit g' = filter is_digit h"
    let ?q = "if seps = [] then Some d else Some (last seps)"
    have f: "matches (times (Suc n) card_unit) (q, u) = []" if "u \<noteq> []" "separator (hd u)" for q u
      using that digit_not_sep by (intro times_other) auto
    have hd: "g' @ t = [] \<or> \<not> separator (hd (g' @ t))"
      using s(3) digit_not_sep by (auto simp: grouped_def)
    have "matches (times (Suc (Suc n)) card_unit) (p, g @ t) =
        concat (map (matches (times (Suc n) card_unit)) (matches card_unit (p, g @ t)))"
      by simp
    also have "\<dots> = concat (map (matches (times (Suc n) card_unit))
        (matches (Star False (Cls card_sep)) (Some d, seps @ g' @ t)))"
      using g s(1) by (simp add: card_unit_def re_digit_def del: times.simps)
    also have "\<dots> = matches (times (Suc n) card_unit) (?q, g' @ t)"
      by (rule star_seps [where f = "matches (times (Suc n) card_unit)", OF f s(2) hd])
    finally have step: "matches (times (Suc (Suc n)) card_unit) (p, g @ t) =
      matches (times (Suc n) card_unit) (?q, g' @ t)" .
    have "length (filter is_digit g') = Suc n" unfolding s(5) using Suc.prems(2) g by simp
    from Suc.IH [OF s(3) this, of ?q] show ?thesis unfolding step s(4) g(1) [symmetric] .
  qed
qed

text \<open>Further digits are taken while they follow directly: that is the first end on offer.\<close>

lemma upto_first:
  "list_all is_digit ds \<Longrightarrow> length ds \<le> k \<Longrightarrow> post = [] \<or> \<not> is_digit (hd post) \<Longrightarrow>
   \<exists>cs. matches (upto_times k card_unit) (Some d, ds @ post) = (Some (last (d # ds)), post) # cs"
proof (induction ds arbitrary: d k)
  case Nil
  then show ?case by (cases k) (simp_all add: unit_other)
next
  case (Cons e ds)
  obtain k' where k: "k = Suc k'" using Cons.prems(2) by (cases k) auto
  obtain cs where u: "matches card_unit (Some d, e # ds @ post) = (Some e, ds @ post) # cs"
    using unit_first Cons.prems(1) by force
  obtain cs' where "matches (upto_times k' card_unit) (Some e, ds @ post) =
      (Some (last (e # ds)), post) # cs'"
    using Cons.IH [of k' e] Cons.prems k by auto
  then show ?case using u k by simp
qed

lemma card_first:
  assumes "grouped g" "length (filter is_digit g) = 13" "list_all is_digit ds" "length ds \<le> 6"
    "post = [] \<or> \<not> word_char (hd post)" "p = None \<or> (\<exists>c. p = Some c \<and> \<not> word_char c)"
  shows "\<exists>cs. matches re_card (p, g @ ds @ post) = (Some (last (last g # ds)), post) # cs"
proof -
  have l: "is_digit (last g)" "is_digit (hd g)" "g \<noteq> []" using assms(1) by (simp_all add: grouped_def)
  obtain c g' where g: "g = c # g'" "is_digit c" using l by (cases g) auto
  have w: "matches WordB (p, g @ ds @ post) = [(p, g @ ds @ post)]"
    using assms(6) digit_word [OF g(2)] g(1) by auto
  obtain q where q: "matches (times 13 card_unit) (p, g @ ds @ post) =
      matches card_unit (q, last g # ds @ post)"
    using times_grouped [OF assms(1), of 12 p "ds @ post"] assms(2) by auto
  obtain cs where u: "matches card_unit (q, last g # ds @ post) = (Some (last g), ds @ post) # cs"
    using unit_first [OF l(1)] by blast
  have "post = [] \<or> \<not> is_digit (hd post)" using assms(5) digit_word by auto
  then obtain cs' where v: "matches (upto_times 6 card_unit) (Some (last g), ds @ post) =
      (Some (last (last g # ds)), post) # cs'"
    using upto_first [OF assms(3,4)] by blast
  have "is_digit (last (last g # ds))" using l(1) assms(3) by (auto simp: list_all_iff)
  then have b: "matches WordB (Some (last (last g # ds)), post) = [(Some (last (last g # ds)), post)]"
    using assms(5) digit_word by (cases post) auto
  have "matches (repeat 13 19 card_unit) (p, g @ ds @ post) =
      (Some (last (last g # ds)), post) # cs' @ concat (map (matches (upto_times 6 card_unit)) cs)"
    by (simp add: repeat_def q u v)
  then show ?thesis by (simp add: re_card_eq w b del: matches.simps(3) last.simps)
qed

section \<open>The search\<close>

lemma search_skip:
  "\<not> list_ex is_digit pre \<Longrightarrow>
   search re_card n p (pre @ s) =
     search re_card (n + length pre) (if pre = [] then p else Some (last pre)) s"
  by (induction pre arbitrary: n p) (auto simp: search.simps [of _ _ _ "_ # _"] card_other)

lemma search_no_digit: "\<not> list_ex is_digit s \<Longrightarrow> search re_card n p s = None"
  using search_skip [of s n p "[]"] by (simp add: search.simps [of _ _ _ "[]"] card_other)

lemma find_card:
  assumes "\<not> list_ex is_digit pre" "\<not> list_ex is_digit post"
    "grouped g" "length (filter is_digit g) = 13" "list_all is_digit ds" "length ds \<le> 6"
    "pre = [] \<or> \<not> word_char (last pre)" "post = [] \<or> \<not> word_char (hd post)"
  shows "find_all re_card (pre @ g @ ds @ post) =
    [(length pre, length pre + length g + length ds)]"
proof -
  let ?p = "if pre = [] then None else Some (last pre)"
  have p: "?p = None \<or> (\<exists>c. ?p = Some c \<and> \<not> word_char c)" using assms(7) by auto
  obtain cs where m: "matches re_card (?p, g @ ds @ post) = (Some (last (last g # ds)), post) # cs"
    using card_first [OF assms(3-6,8) p] by blast
  have g: "g \<noteq> []" using assms(3) by (simp add: grouped_def)
  have "search re_card 0 None (pre @ g @ ds @ post) =
      Some (length pre, length pre + length g + length ds, (Some (last (last g # ds)), post))"
    using search_skip [OF assms(1), of 0 None "g @ ds @ post"] m
    by (simp add: search.simps [of _ _ _ "g @ ds @ post"])
  moreover obtain k where "length (pre @ g @ ds @ post) = Suc k" using g by (cases g) auto
  ultimately show ?thesis
    using g search_no_digit [OF assms(2)] by (auto simp: find_all_def)
qed

section \<open>Texts without digits\<close>

lemma substr_no_digit: "\<not> list_ex is_digit s \<Longrightarrow> \<not> list_ex is_digit (substr a b s)"
  by (auto simp: substr_def list_ex_iff dest!: in_set_dropD in_set_takeD)

lemma rewrite_no_digit:
  "\<not> list_ex is_digit s \<Longrightarrow> \<not> list_ex is_digit repl \<Longrightarrow> \<not> list_ex is_digit (rewrite_spans v repl lo s xs)"
proof (induction v repl lo s xs rule: rewrite_spans.induct)
  case (1 v repl lo s)
  then show ?case by (auto simp: list_ex_iff dest: in_set_dropD)
next
  case (2 v repl lo s a b xs)
  then show ?case by (simp add: substr_no_digit)
qed

lemma apply_rules_no_digit:
  "list_all (\<lambda>rl. finder_ok 0 (ru_find rl) \<and> \<not> list_ex is_digit (ru_replacement rl)) rls \<Longrightarrow>
   \<not> list_ex is_digit s \<Longrightarrow> fold apply_rule rls (s, n, seen) = (s', n', seen') \<Longrightarrow>
   \<not> list_ex is_digit s' \<and> set seen \<subseteq> set seen'"
proof (induction rls arbitrary: s n seen)
  case Nil
  then show ?case by simp
next
  case (Cons rl rls)
  obtain s1 n1 seen1 where ap: "apply_rule rl (s, n, seen) = (s1, n1, seen1)"
    by (cases "apply_rule rl (s, n, seen)") auto
  have ok: "finder_ok 0 (ru_find rl)" using Cons.prems(1) by simp
  then have "span_finder (ru_find rl) 0" by (simp add: finder_ok_span_finder)
  from span_finder.apply_rule_rewrite [OF this refl, of s n seen]
  have "\<not> list_ex is_digit s1"
    using ap Cons.prems(1,2) by (auto simp: Let_def rewrite_no_digit)
  then have "\<not> list_ex is_digit s' \<and> set seen1 \<subseteq> set seen'"
    using Cons.IH [of s1 n1 seen1] Cons.prems(1,3) ap by simp
  then show ?case using apply_rule_zero(4) [OF ok ap] by blast
qed

lemma defaultRules_no_digit:
  "list_all (\<lambda>rl. finder_ok 0 (ru_find rl) \<and> \<not> list_ex is_digit (ru_replacement rl)) defaultRules"
  by (simp add: defaultRules_def mk_rule_ok) (simp add: mk_rule_def is_digit_def)

section \<open>Properties\<close>

definition card_engine :: engine where
  "card_engine = \<lparr>en_enabled = True, en_rules = filter_rules [CategoryCard]\<rparr>"

lemma card_engine_rules:
  "en_rules card_engine = [mk_rule CategoryCard re_card ''[CREDIT_CARD]'' (Some luhnValid)]"
  by (simp add: card_engine_def filter_rules_def defaultRules_def mk_rule_def category_defs)

text \<open>The card rule among the built-in ones: only the rule for API keys may come before it.\<close>

lemma filter_rules_card:
  assumes "cs = [] \<or> CategoryCard \<in> set cs"
  obtains keys rest where
    "filter_rules cs = keys @ mk_rule CategoryCard re_card ''[CREDIT_CARD]'' (Some luhnValid) # rest"
    "set keys \<subseteq> {mk_rule CategoryAPIKey re_api_key ''[API_KEY]'' None}"
    "set rest \<subseteq> set defaultRules"
proof -
  let ?in = "\<lambda>r. cs = [] \<or> ru_category r \<in> set cs"
  let ?api = "mk_rule CategoryAPIKey re_api_key ''[API_KEY]'' None"
  let ?card = "mk_rule CategoryCard re_card ''[CREDIT_CARD]'' (Some luhnValid)"
  have f: "filter_rules cs = filter ?in defaultRules"
    by (simp add: filter_rules_def)
  obtain rest where d: "defaultRules = [?api] @ ?card # rest" by (simp add: defaultRules_def)
  have "filter ?in (?card # rest) = ?card # filter ?in rest" using assms by (simp add: mk_rule_def)
  then have "filter_rules cs = filter ?in [?api] @ ?card # filter ?in rest"
    unfolding f d filter_append by (simp only:)
  moreover have "set (filter ?in [?api]) \<subseteq> {?api}" by auto
  moreover have "set (filter ?in rest) \<subseteq> set defaultRules" unfolding d by auto
  ultimately show thesis by (rule that)
qed

lemma card_rule_cases:
  assumes "\<not> list_ex is_digit pre" "\<not> list_ex is_digit post"
    "grouped g" "length (filter is_digit g) = 13" "list_all is_digit ds" "length ds \<le> 6"
    "pre = [] \<or> \<not> word_char (last pre)" "post = [] \<or> \<not> word_char (hd post)"
  shows "apply_rule (mk_rule CategoryCard re_card ''[CREDIT_CARD]'' (Some luhnValid))
      (pre @ (g @ ds) @ post, 0, []) =
    (if luhnValid (g @ ds) then (pre @ ''[CREDIT_CARD]'' @ post, 1, [CategoryCard])
     else (pre @ (g @ ds) @ post, 0, []))"
proof -
  have "substr (length pre) (length pre + length g + length ds) (pre @ (g @ ds) @ post) = g @ ds"
    by (simp add: substr_def)
  then show ?thesis
    using find_card [OF assms]
    by (simp add: mk_rule_def apply_rule_def replace_all_def replace_one_def accepts_def)
qed

text \<open>
  C17. Card numbers. Let the only digits of a text be one number of 13 to 19 digits, written in one
  piece or with spaces and dashes between its first 13 digits, with no letter, digit or underscore
  right before or after it; what follows may start with spaces or dashes. The card rule replaces
  exactly that number when its Luhn checksum holds, and nothing when it does not. With any set of
  the built-in rules that has the card rule, in a text where no API key is found, no digit of a
  number with a valid checksum is left in the output, and the card category is reported.
\<close>

theorem card_redaction:
  assumes "\<not> list_ex is_digit pre" "\<not> list_ex is_digit post"
    "grouped g" "length (filter is_digit g) = 13" "list_all is_digit ds" "length ds \<le> 6"
    "pre = [] \<or> \<not> word_char (last pre)" "post = [] \<or> \<not> word_char (hd post)"
    "en_enabled e" "en_rules e = filter_rules cs" "cs = [] \<or> CategoryCard \<in> set cs"
    "find_all re_api_key (pre @ (g @ ds) @ post) = []"
  shows "Redact order card_engine (pre @ (g @ ds) @ post) =
    (if luhnValid (g @ ds)
     then \<lparr>rr_Content = pre @ ''[CREDIT_CARD]'' @ post, rr_Count = 1,
           rr_Categories = order [CategoryCard]\<rparr>
     else \<lparr>rr_Content = pre @ (g @ ds) @ post, rr_Count = 0, rr_Categories = order []\<rparr>) \<and>
    (luhnValid (g @ ds) \<longrightarrow>
     \<not> list_ex is_digit (rr_Content (Redact order e (pre @ (g @ ds) @ post))) \<and>
     (\<exists>seen. rr_Categories (Redact order e (pre @ (g @ ds) @ post)) = order seen \<and>
        CategoryCard \<in> set seen))"
proof (intro conjI impI)
  define t where t: "t = pre @ (g @ ds) @ post"
  let ?u = "pre @ ''[CREDIT_CARD]'' @ post"
  let ?card = "mk_rule CategoryCard re_card ''[CREDIT_CARD]'' (Some luhnValid)"
  have ne: "t \<noteq> []" using assms(3) by (simp add: t grouped_def)
  note one = card_rule_cases [OF assms(1-8), folded t]
  show "Redact order card_engine (pre @ (g @ ds) @ post) =
    (if luhnValid (g @ ds)
     then \<lparr>rr_Content = ?u, rr_Count = 1, rr_Categories = order [CategoryCard]\<rparr>
     else \<lparr>rr_Content = pre @ (g @ ds) @ post, rr_Count = 0, rr_Categories = order []\<rparr>)"
    unfolding t [symmetric]
    using ne one by (simp add: Redact_def card_engine_rules) (simp add: card_engine_def)
  assume valid: "luhnValid (g @ ds)"
  obtain keys rest where rules: "en_rules e = keys @ ?card # rest"
    "set keys \<subseteq> {mk_rule CategoryAPIKey re_api_key ''[API_KEY]'' None}" "set rest \<subseteq> set defaultRules"
    by (rule filter_rules_card [OF assms(11)]) (use assms(10) in simp)
  have "fold apply_rule keys (t, 0, []) = (t, 0, [])"
    using rules(2) assms(12) unfolding t [symmetric]
    by (induction keys) (auto simp: apply_rule_def mk_rule_def)
  moreover obtain s n seen where r: "fold apply_rule rest (?u, 1, [CategoryCard]) = (s, n, seen)"
    by (metis prod_cases3)
  moreover have "\<not> list_ex is_digit s \<and> set [CategoryCard] \<subseteq> set seen"
    by (rule apply_rules_no_digit [OF _ _ r])
       (use rules(3) defaultRules_no_digit assms(1,2) in \<open>auto simp: list_all_iff is_digit_def\<close>)
  ultimately have "rr_Content (Redact order e t) = s" "rr_Categories (Redact order e t) = order seen"
    "\<not> list_ex is_digit s" "CategoryCard \<in> set seen"
    using ne one valid rules(1) assms(9) by (simp_all add: Redact_def)
  then show "\<not> list_ex is_digit (rr_Content (Redact order e (pre @ (g @ ds) @ post)))"
    "\<exists>seen. rr_Categories (Redact order e (pre @ (g @ ds) @ post)) = order seen \<and>
       CategoryCard \<in> set seen"
    unfolding t [symmetric] by auto
qed

theorem card_redaction_witness:
  "Redact id card_engine ''pay 4111 1111-1111 1111 now'' =
     \<lparr>rr_Content = ''pay [CREDIT_CARD] now'', rr_Count = 1, rr_Categories = [CategoryCard]\<rparr> \<and>
   \<not> list_ex is_digit (rr_Content
      (Redact id \<lparr>en_enabled = True, en_rules = defaultRules\<rparr> ''pay 4111 1111-1111 1111 now''))"
proof -
  have "luhnValid ''4111 1111-1111 1111''" by code_simp
  moreover have "find_all re_api_key ''pay 4111 1111-1111 1111 now'' = []" by code_simp
  ultimately show ?thesis
    using card_redaction [of "''pay ''" "'' now''" "''4111 1111-1111 1''" "''111''"
        "\<lparr>en_enabled = True, en_rules = defaultRules\<rparr>" "[]" id]
    by (simp add: filter_rules_def grouped_def is_digit_def word_char_def is_upper_def is_lower_def
        in_class_def card_sep_def)
qed

text \<open>
  Card numbers that are missed. A digit token before a card number, with a space or a dash
  between, is taken into the match, whose checksum then fails: the number stays in the text,
  although it is redacted when it stands alone.
\<close>

lemma card_after_digit_kept:
  "Redact order card_engine ''7 4111111111111111'' =
     \<lparr>rr_Content = ''7 4111111111111111'', rr_Count = 0, rr_Categories = order []\<rparr> \<and>
   rr_Content (Redact order card_engine ''4111111111111111'') = ''[CREDIT_CARD]''"
proof
  have f: "find_all re_card ''7 4111111111111111'' = [(0, 18)]" by code_simp
  have l: "\<not> luhnValid (substr 0 18 ''7 4111111111111111'')" by code_simp
  show "Redact order card_engine ''7 4111111111111111'' =
      \<lparr>rr_Content = ''7 4111111111111111'', rr_Count = 0, rr_Categories = order []\<rparr>"
    using f l by (simp add: Redact_def card_engine_rules mk_rule_def apply_rule_def replace_all_def
        replace_one_def accepts_def) (simp add: card_engine_def)
next
  have f: "find_all re_card ''4111111111111111'' = [(0, 16)]" by code_simp
  have l: "luhnValid (substr 0 16 ''4111111111111111'')" by code_simp
  show "rr_Content (Redact order card_engine ''4111111111111111'') = ''[CREDIT_CARD]''"
    using f l by (simp add: Redact_def card_engine_rules mk_rule_def apply_rule_def replace_all_def
        replace_one_def accepts_def) (simp add: card_engine_def)
qed

text \<open>
  C18. One pass. For any expression the matches of a rule are in order, disjoint, inside the text and
  at least as long as the expression demands, and replacing them in place from the last to the first
  is one pass from left to right that substitutes the accepted matches and keeps all other bytes;
  the count is the number of accepted matches.
\<close>

theorem apply_rule_one_pass:
  "spans_ok (min_len r) 0 (length s) (find_all r s) \<and>
   apply_rule (mk_rule c r repl v) (s, n, seen) =
     (let k = length (accepted v s (find_all r s)) in
      (rewrite_spans v repl 0 s (find_all r s), n + k,
       if k = 0 \<or> c \<in> set seen then seen else seen @ [c]))"
  using find_all_ok [of r s] rx.apply_rule_rewrite [of "mk_rule c r repl v" r s n seen]
  by (simp add: mk_rule_def)

text \<open>
  C20. Output size. The built-in rules lengthen a text by less than two fifths: 66 times the output's
  length is at most 91 times the input's.
\<close>

theorem Redact_length:
  assumes "en_rules e = defaultRules"
  shows "66 * length (rr_Content (Redact order e content)) \<le> 91 * length content"
proof (cases "en_enabled e \<and> content \<noteq> []")
  case True
  then obtain s n seen where "fold apply_rule (en_rules e) (content, 0, []) = (s, n, seen)"
    "Redact order e content = \<lparr>rr_Content = s, rr_Count = n, rr_Categories = order seen\<rparr>"
    using Redact_fold by blast
  then show ?thesis using assms defaultRules_length [of content s n seen] by simp
next
  case False
  then show ?thesis by (auto simp: Redact_def)
qed

theorem Redact_length_witness:
  "66 * length (rr_Content (Redact id \<lparr>en_enabled = True, en_rules = defaultRules\<rparr> ''a@b.co'')) \<le> 546"
  using Redact_length [of "\<lparr>en_enabled = True, en_rules = defaultRules\<rparr>" id "''a@b.co''"] by simp

text \<open>
  The report of a redaction. With the built-in rules, under any choice of categories, a count of
  0 means that the text came back unchanged with no category, and a positive count comes with at
  least one category and none twice (in the order of the map's iteration).
\<close>

lemma Redact_report:
  "let got = Redact order \<lparr>en_enabled = True, en_rules = filter_rules cs\<rparr> (c # content) in
   (rr_Count got = 0 \<longrightarrow> rr_Content got = c # content \<and> rr_Categories got = order []) \<and>
   (0 < rr_Count got \<longrightarrow> (\<exists>seen. rr_Categories got = order seen \<and> seen \<noteq> [] \<and> distinct seen))"
proof -
  let ?e = "\<lparr>en_enabled = True, en_rules = filter_rules cs\<rparr>"
  obtain s n seen where f: "fold apply_rule (en_rules ?e) (c # content, 0, []) = (s, n, seen)"
    "Redact order ?e (c # content) = \<lparr>rr_Content = s, rr_Count = n, rr_Categories = order seen\<rparr>"
    by (rule Redact_fold [of ?e "c # content" order]) simp_all
  have "0 \<le> n \<and> (n = 0 \<longrightarrow> s = c # content \<and> seen = []) \<and> (0 < n \<longrightarrow> seen \<noteq> []) \<and>
      set [] \<subseteq> set seen \<and> (distinct ([] :: category list) \<longrightarrow> distinct seen)"
    by (rule fold_rules_zero [OF _ f(1)]) (simp add: filter_rules_ok)
  then show ?thesis unfolding f(2) by (auto simp: Let_def)
qed

text \<open>
  The Luhn checksum detects every single wrong digit: of two texts that differ in one digit at
  most one passes the check.
\<close>

lemma luhn_single_error:
  assumes "luhnValid (pre @ c # post)" "luhnValid (pre @ d # post)" "is_digit c" "is_digit d"
  shows "c = d"
proof -
  have "luhn_sum False (rev (digits_of post) @ digit_val c # rev (digits_of pre)) mod 10 =
      luhn_sum False (rev (digits_of post) @ digit_val d # rev (digits_of pre)) mod 10"
    using assms by (simp add: luhnValid_def Let_def digits_of_append digits_of_Cons split: if_splits)
  then have "digit_val c = digit_val d"
    using digit_val_range [OF assms(3)] digit_val_range [OF assms(4)] luhn_sum_change by blast
  then show ?thesis using digit_val_inj assms(3,4) by blast
qed

end
