(* ===== verification/Regex_Syntax.thy ===== *)
theory Regex_Syntax
  imports Redact
begin

text \<open>
  The syntax of regular expressions, as far as the built-in rules use it: a reader of patterns that
  builds the expressions of Regex, so that the expressions of \<open>defaultRules\<close> can be compared with the
  patterns that internal/redact/rules.go writes. As in regexp/syntax, the reader keeps a stack of
  open groups. None is a pattern that package regexp refuses, or one outside this part of the syntax
  (negated and named classes, anchors, the dot, flags but a leading (?i), lazy forms but of the star,
  a bracket or a brace as a literal, bytes beyond ASCII); the bound of 1000 on nested groups is not
  modelled. Equal expressions are recognised by a normal form that keeps what an expression matches:
  ranges sorted and merged, sequences and alternatives nested to the right.
\<close>

section \<open>Tokens\<close>

datatype repetition = RStar bool | RPlus | ROpt | RRange nat "nat option"

datatype token = TOpen | TClose | TBar | TAtom re | TRep repetition

definition punct :: "char \<Rightarrow> bool" where
  "punct c \<longleftrightarrow> byte c < 128 \<and> \<not> is_digit c \<and> \<not> is_upper c \<and> \<not> is_lower c"

definition meta :: string where
  "meta = [CHR 0x5C] @ ''.+*?()|[]{}^$''"

text \<open>The Perl classes.\<close>

definition perl_class :: "char \<Rightarrow> (nat \<times> nat) list option" where
  "perl_class c =
     map_of [(CHR ''d'', [(48, 57)]), (CHR ''s'', [(9, 10), (12, 13), (32, 32)]),
             (CHR ''w'', [(48, 57), (65, 90), (95, 95), (97, 122)])] c"

text \<open>Case folding of a class: the other case of its letters, and for k and s the two runes beyond
  ASCII that fold to them.\<close>

definition other_case :: "nat \<times> nat \<Rightarrow> (nat \<times> nat) list" where
  "other_case rg =
     (case rg of (lo, hi) \<Rightarrow>
        [(max lo 65 + 32, min hi 90 + 32), (max lo 97 - 32, min hi 122 - 32)])"

lemma re_kelvin_code [code]:
  "re_kelvin = Cat (Cls [(226, 226)]) (Cat (Cls [(132, 132)]) (Cat (Cls [(170, 170)]) Eps))"
  by (simp add: re_kelvin_def chr_def)

lemma re_long_s_code [code]: "re_long_s = Cat (Cls [(197, 197)]) (Cat (Cls [(191, 191)]) Eps)"
  by (simp add: re_long_s_def chr_def)

primrec alts :: "re list \<Rightarrow> re" where
  "alts [] = Eps"
| "alts (r # rs) = (if rs = [] then r else Alt r (alts rs))"

definition with_code :: "nat \<Rightarrow> (nat \<times> nat) list \<Rightarrow> bool" where
  "with_code n rs = list_ex (\<lambda>(lo, hi). lo \<le> n \<and> n \<le> hi) rs"

definition folded :: "(nat \<times> nat) list \<Rightarrow> re" where
  "folded rs =
     alts ([Cls rs] @ (if with_code (107) rs then [re_kelvin] else []) @
           (if with_code (115) rs then [re_long_s] else []))"

definition class_re :: "bool \<Rightarrow> (nat \<times> nat) list \<Rightarrow> re" where
  "class_re fold_case rs =
     (if fold_case then folded (filter (\<lambda>(lo, hi). lo \<le> hi) (rs @ concat (map other_case rs)))
      else Cls rs)"

text \<open>A character of a class, and the items of a class up to its closing bracket.\<close>

definition class_char :: "string \<Rightarrow> (nat \<times> string) option" where
  "class_char s =
     (case s of
        [] \<Rightarrow> None
      | c # t \<Rightarrow>
          if c = CHR 0x5C
          then (case t of [] \<Rightarrow> None | e # u \<Rightarrow> if punct e then Some (byte e, u) else None)
          else if byte c < 128 then Some (byte c, t) else None)"

lemma class_char_shorter: "class_char s = Some (n, t) \<Longrightarrow> length t < length s"
  by (auto simp: class_char_def split: list.splits if_splits)

definition class_item :: "string \<Rightarrow> ((nat \<times> nat) list \<times> string) option" where
  "class_item s =
     (case s of
        b # e # t \<Rightarrow>
          (if b = CHR ''['' \<and> e = CHR '':'' then None
           else if b = CHR 0x5C \<and> perl_class e \<noteq> None
           then map_option (\<lambda>rs. (rs, t)) (perl_class e)
           else case class_char s of
                  None \<Rightarrow> None
                | Some (lo, u) \<Rightarrow>
                    (case u of
                       d # v \<Rightarrow>
                         if d = CHR ''-'' \<and> v \<noteq> [] \<and> hd v \<noteq> CHR '']''
                         then (case class_char v of
                                 None \<Rightarrow> None
                               | Some (hi, w) \<Rightarrow> if hi < lo then None else Some ([(lo, hi)], w))
                         else Some ([(lo, lo)], u)
                     | [] \<Rightarrow> None))
      | _ \<Rightarrow> None)"

lemma class_item_shorter: "class_item s = Some (rs, t) \<Longrightarrow> length t < length s"
  by (auto simp: class_item_def split: list.splits if_splits option.splits prod.splits
      dest!: class_char_shorter)

function class_items :: "string \<Rightarrow> ((nat \<times> nat) list \<times> string) option" where
  "class_items s =
     (case s of
        [] \<Rightarrow> None
      | c # t \<Rightarrow>
          if c = CHR '']'' then Some ([], t)
          else case class_item s of
                 None \<Rightarrow> None
               | Some (rs, u) \<Rightarrow> map_option (\<lambda>(qs, v). (rs @ qs, v)) (class_items u))"
  by pat_completeness auto
termination
  by (relation "measure length") (auto dest: class_item_shorter)

declare class_items.simps [simp del]

lemma class_items_shorter: "class_items s = Some (rs, t) \<Longrightarrow> length t < length s"
proof (induction s arbitrary: rs rule: class_items.induct)
  case (1 s)
  show ?case
  proof (cases s)
    case (Cons c u)
    show ?thesis
    proof (cases "c = CHR '']''")
      case False
      then obtain qs v rs' where "class_item s = Some (qs, v)" "class_items v = Some (rs', t)"
        using 1(2) Cons by (subst (asm) class_items.simps) (auto split: option.splits)
      then show ?thesis using 1(1) [OF Cons False] class_item_shorter by fastforce
    qed (use 1(2) Cons in \<open>subst (asm) class_items.simps, simp\<close>)
  qed (use 1(2) in \<open>subst (asm) class_items.simps, simp\<close>)
qed

text \<open>The counts of a repetition, after its opening brace: decimal numbers without leading zeros.\<close>

definition number :: "string \<Rightarrow> bool" where
  "number ds \<longleftrightarrow> ds \<noteq> [] \<and> (hd ds = CHR ''0'' \<longrightarrow> tl ds = [])"

definition counts :: "string \<Rightarrow> (repetition \<times> string) option" where
  "counts s =
     (let ds = takeWhile is_digit s; r = dropWhile is_digit s; n = nat (undec ds) in
      if \<not> number ds then None
      else case r of
             [] \<Rightarrow> None
           | c # t \<Rightarrow>
               if c = CHR ''}'' then Some (RRange n (Some n), t)
               else if c \<noteq> CHR '','' then None
               else let es = takeWhile is_digit t; u = dropWhile is_digit t in
                    case u of
                      [] \<Rightarrow> None
                    | d # v \<Rightarrow>
                        if d \<noteq> CHR ''}'' \<or> (es \<noteq> [] \<and> \<not> number es) then None
                        else Some (RRange n (if es = [] then None else Some (nat (undec es))), v))"

lemma counts_shorter: "counts s = Some (r, t) \<Longrightarrow> length t < length s"
proof -
  assume a: "counts s = Some (r, t)"
  have "length (dropWhile is_digit x) \<le> length x" for x by (rule length_dropWhile_le)
  from this [of s] this [of "tl (dropWhile is_digit s)"] show ?thesis
    using a by (auto simp: counts_def Let_def split: list.splits if_splits)
qed

section \<open>The lexer\<close>

definition starts :: "char \<Rightarrow> string \<Rightarrow> bool" where
  "starts c s \<longleftrightarrow> s \<noteq> [] \<and> hd s = c"

text \<open>A token and the rest of a pattern that is not empty.\<close>

definition next_token :: "bool \<Rightarrow> char \<Rightarrow> string \<Rightarrow> (token \<times> string) option" where
  "next_token fold_case c s =
     (if c = CHR ''('' then
        (if has_prefix s ''?:'' then Some (TOpen, drop 2 s)
         else if starts (CHR ''?'') s then None else Some (TOpen, s))
      else if c = CHR '')'' then Some (TClose, s)
      else if c = CHR ''|'' then Some (TBar, s)
      else if c = CHR ''*'' then
        (if starts (CHR ''?'') s then Some (TRep (RStar False), tl s) else Some (TRep (RStar True), s))
      else if c = CHR ''+'' then (if starts (CHR ''?'') s then None else Some (TRep RPlus, s))
      else if c = CHR ''?'' then (if starts (CHR ''?'') s then None else Some (TRep ROpt, s))
      else if c = CHR ''{'' then
        (case counts s of
           None \<Rightarrow> None
         | Some (r, t) \<Rightarrow> if starts (CHR ''?'') t then None else Some (TRep r, t))
      else if c = CHR ''['' then
        (if starts (CHR ''^'') s \<or> starts (CHR '']'') s then None
         else map_option (\<lambda>(rs, t). (TAtom (class_re fold_case rs), t)) (class_items s))
      else if c = CHR 0x5C then
        (case s of
           [] \<Rightarrow> None
         | e # t \<Rightarrow>
             if e = CHR ''b'' then Some (TAtom WordB, t)
             else case perl_class e of
                    Some rs \<Rightarrow> Some (TAtom (class_re fold_case rs), t)
                  | None \<Rightarrow>
                      if punct e then Some (TAtom (class_re fold_case [(byte e, byte e)]), t)
                      else None)
      else if c \<in> set meta \<or> 128 \<le> byte c then None
      else Some (TAtom (class_re fold_case [(byte c, byte c)]), s))"

lemma next_token_shorter: "next_token f c s = Some (k, t) \<Longrightarrow> length t \<le> length s"
  by (auto simp: next_token_def split: if_splits option.splits list.splits
      dest!: counts_shorter class_items_shorter)

function tokens :: "bool \<Rightarrow> string \<Rightarrow> token list option" where
  "tokens f [] = Some []"
| "tokens f (c # s) =
     (case next_token f c s of
        None \<Rightarrow> None
      | Some (k, t) \<Rightarrow> map_option (Cons k) (tokens f t))"
  by pat_completeness auto
termination
  by (relation "measure (\<lambda>(f, s). length s)") (auto dest!: next_token_shorter)

section \<open>The reader\<close>

text \<open>
  An item of a concatenation: the expression, the product of the counts inside it (at most 1000) and
  whether it is a repetition, to which no other may be applied. A group has its finished branches and
  the items of the current one, both last first.
\<close>

type_synonym item = "re \<times> nat \<times> bool"
type_synonym group = "(re \<times> nat) list \<times> item list"

definition repeated :: "repetition \<Rightarrow> item \<Rightarrow> item option" where
  "repeated k it =
     (case it of (r, w, rep) \<Rightarrow>
        if rep then None
        else case k of
               RStar g \<Rightarrow> Some (Star g r, w, True)
             | RPlus \<Rightarrow> Some (plus r, w, True)
             | ROpt \<Rightarrow> Some (opt r, w, True)
             | RRange m None \<Rightarrow>
                 if 1000 < m \<or> 1000 < m * w then None else Some (at_least m r, max 1 (m * w), True)
             | RRange m (Some n) \<Rightarrow>
                 if n < m \<or> 1000 < n \<or> 1000 < n * w then None
                 else Some (if n = m then times m r else repeat m n r, max 1 (n * w), True))"

definition branch :: "item list \<Rightarrow> re \<times> nat" where
  "branch its = (cats (map fst (rev its)), foldr max (map (\<lambda>it. fst (snd it)) its) 1)"

definition close :: "group \<Rightarrow> item" where
  "close g =
     (case g of (bs, its) \<Rightarrow>
        let all = rev (branch its # bs) in (alts (map fst all), foldr max (map snd all) 1, False))"

fun read :: "group \<Rightarrow> group list \<Rightarrow> token list \<Rightarrow> re option" where
  "read g [] [] = Some (fst (close g))"
| "read g (h # hs) [] = None"
| "read (bs, its) hs (TAtom r # ks) = read (bs, (r, 1, False) # its) hs ks"
| "read (bs, its) hs (TBar # ks) = read (branch its # bs, []) hs ks"
| "read g hs (TOpen # ks) = read ([], []) (g # hs) ks"
| "read g [] (TClose # ks) = None"
| "read g ((bs, its) # hs) (TClose # ks) = read (bs, close g # its) hs ks"
| "read (bs, []) hs (TRep k # ks) = None"
| "read (bs, it # its) hs (TRep k # ks) =
     (case repeated k it of None \<Rightarrow> None | Some it' \<Rightarrow> read (bs, it' # its) hs ks)"

definition compile_re :: "string \<Rightarrow> re option" where
  "compile_re p =
     (if has_prefix p ''(?i)'' then Option.bind (tokens True (drop 4 p)) (read ([], []) [])
      else Option.bind (tokens False p) (read ([], []) []))"

section \<open>A normal form\<close>

fun merge_ranges :: "(nat \<times> nat) list \<Rightarrow> (nat \<times> nat) list" where
  "merge_ranges ((a, b) # (c, d) # rs) =
     (if a \<le> c \<and> c \<le> Suc b then merge_ranges ((a, max b d) # rs)
      else (a, b) # merge_ranges ((c, d) # rs))"
| "merge_ranges rs = rs"

definition canon :: "(nat \<times> nat) list \<Rightarrow> (nat \<times> nat) list" where
  "canon rs = merge_ranges (foldr (insort_key fst) rs [])"

lemma in_class_Cons: "in_class ((a, b) # rs) c \<longleftrightarrow> a \<le> byte c \<and> byte c \<le> b \<or> in_class rs c"
  by (simp add: in_class_def)

lemma in_class_merge [simp]: "in_class (merge_ranges rs) c = in_class rs c"
  by (induction rs rule: merge_ranges.induct) (auto simp: in_class_Cons max_def)

lemma in_class_insort: "in_class (insort_key f x rs) c = in_class (x # rs) c"
  by (induction rs) (auto simp: in_class_def)

lemma in_class_canon [simp]: "in_class (canon rs) c = in_class rs c"
proof -
  have "in_class (foldr (insort_key fst) rs []) c = in_class rs c"
    by (induction rs) (auto simp: in_class_insort, auto simp: in_class_def)
  then show ?thesis by (simp add: canon_def)
qed

text \<open>A sequence or an alternation whose parts are in normal form.\<close>

primrec seq :: "re \<Rightarrow> re \<Rightarrow> re" where
  "seq Eps r = r"
| "seq (Cls rs) r = (if r = Eps then Cls rs else Cat (Cls rs) r)"
| "seq WordB r = (if r = Eps then WordB else Cat WordB r)"
| "seq (Cat a b) r = Cat a (seq b r)"
| "seq (Alt a b) r = (if r = Eps then Alt a b else Cat (Alt a b) r)"
| "seq (Star g a) r = (if r = Eps then Star g a else Cat (Star g a) r)"

primrec either :: "re \<Rightarrow> re \<Rightarrow> re" where
  "either Eps r = Alt Eps r"
| "either (Cls rs) r = Alt (Cls rs) r"
| "either WordB r = Alt WordB r"
| "either (Cat a b) r = Alt (Cat a b) r"
| "either (Alt a b) r = Alt a (either b r)"
| "either (Star g a) r = Alt (Star g a) r"

primrec norm :: "re \<Rightarrow> re" where
  "norm Eps = Eps"
| "norm (Cls rs) = Cls (canon rs)"
| "norm WordB = WordB"
| "norm (Cat a b) = seq (norm a) (norm b)"
| "norm (Alt a b) = either (norm a) (norm b)"
| "norm (Star g a) = Star g (norm a)"

lemma concat_single [simp]: "concat (map (matches Eps) cs) = cs"
  by (induction cs) simp_all

lemma concat_assoc: "concat (map f (concat (map g xs))) = concat (map (\<lambda>x. concat (map f (g x))) xs)"
  by (induction xs) simp_all

lemma matches_Cat: "matches (Cat a b) = (\<lambda>c. concat (map (matches b) (matches a c)))"
  by (rule ext) simp

lemma matches_Alt: "matches (Alt a b) = (\<lambda>c. matches a c @ matches b c)"
  by (rule ext) simp

lemma matches_seq: "matches (seq a r) = matches (Cat a r)"
  by (induction a) (simp_all add: matches_Cat concat_assoc del: matches.simps(4))

lemma matches_either: "matches (either a r) = matches (Alt a r)"
  by (induction a) (simp_all add: fun_eq_iff)

lemma matches_star_cong:
  assumes "matches a = matches b"
  shows "matches (Star g a) c = matches (Star g b) c"
proof (induction "length (snd c)" arbitrary: c rule: less_induct)
  case less
  have "map (matches (Star g a)) (progress c ds) = map (matches (Star g b)) (progress c ds)" for ds
    using less by (auto simp: progress_def)
  then show ?case
    by (simp only: matches.simps(6) [of g a c] matches.simps(6) [of g b c] assms)
qed

lemma matches_Cls_canon: "matches (Cls (canon rs)) = matches (Cls rs)"
  by (rule ext) (simp split: list.splits)

lemma matches_norm: "matches (norm r) = matches r"
proof (induction r)
  case (Cls rs)
  show ?case by (simp only: norm.simps matches_Cls_canon)
next
  case (Star g a)
  show ?case by (rule ext) (simp only: norm.simps matches_star_cong [OF Star])
qed (simp_all only: norm.simps matches_seq matches_either matches_Cat matches_Alt)

section \<open>The built-in expressions\<close>

lemma search_cong: "matches r = matches q \<Longrightarrow> search r n p s = search q n p s"
  by (induction s arbitrary: n p) (simp_all add: search.simps [of r] search.simps [of q] split: list.splits)

lemma find_from_cong:
  assumes "matches r = matches q"
  shows "find_from r k n prev c = find_from q k n prev c"
  by (induction k arbitrary: n prev c)
     (auto simp: search_cong [OF assms] split: option.splits list.splits)

lemma find_all_cong: "matches r = matches q \<Longrightarrow> find_all r = find_all q"
  by (rule ext) (simp add: find_all_def find_from_cong [of r q] del: find_from.simps)

lemma same_find: "map_option norm x = Some (norm q) \<Longrightarrow> map_option find_all x = Some (find_all q)"
  by (cases x) (simp_all, metis find_all_cong matches_norm)

text \<open>The patterns as the file writes them, with a slash where it has a backslash.\<close>

definition raw :: "string \<Rightarrow> string" where
  "raw s = map (\<lambda>c. if c = CHR ''/'' then CHR 0x5C else c) s"

definition builtin_patterns :: "string list" where
  "builtin_patterns = map raw
     [''(?i)(?:sk-[a-z0-9]{20,}|ghp_[a-zA-Z0-9]{20,}|AKIA[0-9A-Z]{16}|'' @
      ''eyJ[a-zA-Z0-9_-]{10,}/.[a-zA-Z0-9_-]+/.[a-zA-Z0-9_-]+)'',
      ''/b(?:/d[ -]*?){13,19}/b'',
      ''/b[A-Z]{2}[0-9]{2}[A-Z0-9]{11,30}/b'',
      ''/b[a-zA-Z0-9._%+/-]+@[a-zA-Z0-9./-]+/.[a-zA-Z]{2,}/b'',
      ''(?:/+[1-9]/d{7,14}/b|(?:/+1[/s.-]?)?/(?/d{3}/)?[/s.-]/d{3}[/s.-]/d{4}/b)'',
      ''/b(?:(?:25[0-5]|2[0-4]/d|[01]?/d/d?)/.){3}(?:25[0-5]|2[0-4]/d|[01]?/d/d?)/b|'' @
      ''/b(?:[0-9a-fA-F]{1,4}:){2,7}[0-9a-fA-F]{1,4}/b'',
      ''/b/d{3}-/d{2}-/d{4}/b'']"

lemma read_api_key:
  "map_option norm (compile_re (builtin_patterns ! 0)) = Some (norm re_api_key)"
  by code_simp

lemma read_card:
  "map_option norm (compile_re (builtin_patterns ! 1)) = Some (norm re_card)"
  by code_simp

lemma read_iban:
  "map_option norm (compile_re (builtin_patterns ! 2)) = Some (norm re_iban)"
  by code_simp

lemma read_email:
  "map_option norm (compile_re (builtin_patterns ! 3)) = Some (norm re_email)"
  by code_simp

lemma read_phone:
  "map_option norm (compile_re (builtin_patterns ! 4)) = Some (norm re_phone)"
  by code_simp

lemma read_ip:
  "map_option norm (compile_re (builtin_patterns ! 5)) = Some (norm re_ip)"
  by code_simp

lemma read_national_id:
  "map_option norm (compile_re (builtin_patterns ! 6)) = Some (norm re_national_id)"
  by code_simp

lemmas built_in_reads = read_api_key [THEN same_find] read_card [THEN same_find]
  read_iban [THEN same_find] read_email [THEN same_find] read_phone [THEN same_find]
  read_ip [THEN same_find] read_national_id [THEN same_find]

lemma builtin_patterns_nth: "builtin_patterns = map (nth builtin_patterns) [0, 1, 2, 3, 4, 5, 6]"
  by (simp add: builtin_patterns_def)

text \<open>
  The built-in expressions. Read as package regexp reads them, the seven patterns of
  \<open>defaultRules\<close> are valid, and they find in every text exactly what the rules of the model find,
  in their order.
\<close>

lemma builtin_patterns_compile:
  "map (\<lambda>p. map_option find_all (compile_re p)) builtin_patterns =
   map (\<lambda>ru. Some (ru_find ru)) defaultRules"
  by (subst builtin_patterns_nth)
     (simp add: built_in_reads built_in_reads [simplified] defaultRules_def mk_rule_def)

end
