(* ===== verification/Auth.thy ===== *)
theory Auth
  imports Apierr
begin

text \<open>
  internal/auth: RSA keys from JWKs, the JWKS cache, the token validator and the middleware. The
  library golang-jwt, which parses a token, calls back for the key of its header and checks the
  signature and the time claims, is a parameter; what the claims about the validator rely on is the
  predicate \<open>jwt_sound\<close>.
\<close>

section \<open>base64.RawURLEncoding\<close>

text \<open>No padding; carriage returns and newlines are skipped; a lone last character is an error.\<close>

definition b64_val :: "char \<Rightarrow> nat option" where
  "b64_val c =
     (if is_upper c then Some (byte c - 65)
      else if is_lower c then Some (byte c - 71)
      else if is_digit c then Some (byte c + 4)
      else if c = CHR ''-'' then Some 62
      else if c = CHR ''_'' then Some 63 else None)"

fun b64_bytes :: "nat list \<Rightarrow> string option" where
  "b64_bytes [] = Some []"
| "b64_bytes [a] = None"
| "b64_bytes [a, b] = Some [char_of (a * 4 + b div 16)]"
| "b64_bytes [a, b, c] =
     Some [char_of (a * 4 + b div 16), char_of (b mod 16 * 16 + c div 4)]"
| "b64_bytes (a # b # c # d # xs) =
     map_option
       (append [char_of (a * 4 + b div 16), char_of (b mod 16 * 16 + c div 4),
                char_of (c mod 4 * 64 + d)])
       (b64_bytes xs)"

definition raw_url_decode :: "string \<Rightarrow> string option" where
  "raw_url_decode s =
     Option.bind (traverse b64_val (filter (\<lambda>c. byte c \<noteq> 10 \<and> byte c \<noteq> 13) s)) b64_bytes"

section \<open>RSA keys\<close>

record rsa_key =
  rsa_N :: int
  rsa_E :: "64 word"

text \<open>\<open>big.Int.SetBytes\<close> reads big-endian bytes; the exponent is accumulated in an \<open>int\<close>.\<close>

definition be_value :: "string \<Rightarrow> int" where
  "be_value bs = fold (\<lambda>b acc. 256 * acc + int (byte b)) bs 0"

definition exponent_of :: "string \<Rightarrow> 64 word" where
  "exponent_of bs = fold (\<lambda>b e. push_bit 8 e + of_nat (byte b)) bs 0"

definition rsaPublicKeyFromJWK :: "string \<Rightarrow> string \<Rightarrow> go_error + rsa_key" where
  "rsaPublicKeyFromJWK nB64 eB64 =
     (case raw_url_decode nB64 of
        None \<Rightarrow> Inl (errorf ''decode n: illegal base64 data'')
      | Some nBytes \<Rightarrow>
          (case raw_url_decode eB64 of
             None \<Rightarrow> Inl (errorf ''decode e: illegal base64 data'')
           | Some eBytes \<Rightarrow>
               (let e = exponent_of eBytes in
                if e = 0 then Inl (errorf ''invalid exponent'')
                else Inr \<lparr>rsa_N = be_value nBytes, rsa_E = e\<rparr>)))"

section \<open>The JWKS cache\<close>

record jwk =
  jwk_Kty :: string
  jwk_Kid :: string
  jwk_N :: string
  jwk_E :: string

definition jwk_fields :: "jwk field list" where
  "jwk_fields =
     [field ''kty'' dec_string jwk_Kty (\<lambda>x s. s\<lparr>jwk_Kty := x\<rparr>),
      field ''kid'' dec_string jwk_Kid (\<lambda>x s. s\<lparr>jwk_Kid := x\<rparr>),
      field ''n'' dec_string jwk_N (\<lambda>x s. s\<lparr>jwk_N := x\<rparr>),
      field ''e'' dec_string jwk_E (\<lambda>x s. s\<lparr>jwk_E := x\<rparr>)]"

definition decode_jwks :: "string \<Rightarrow> jwk list option" where
  "decode_jwks body =
     Option.bind (json_decode body)
       (\<lambda>j. dec_struct
              [field ''keys''
                 (dec_list (dec_struct jwk_fields)
                    \<lparr>jwk_Kty = [], jwk_Kid = [], jwk_N = [], jwk_E = []\<rparr>) id (\<lambda>x s. x)] j [])"

text \<open>A Go map from key ids to keys, as the list of its assignments, latest first.\<close>

type_synonym key_map = "(string \<times> rsa_key) list"

record jwks_cache =
  jc_coreURL :: string
  jc_keys :: key_map
  jc_fetchedAt :: go_time
  jc_ttl :: duration

definition NewJWKSCache :: "string \<Rightarrow> jwks_cache" where
  "NewJWKSCache coreURL =
     \<lparr>jc_coreURL = trim_right_char (CHR ''/'') coreURL, jc_keys = [], jc_fetchedAt = 0,
      jc_ttl = 60 * minute\<rparr>"

definition add_jwk :: "jwk \<Rightarrow> key_map \<Rightarrow> key_map" where
  "add_jwk k keys =
     (if jwk_Kty k \<noteq> ''RSA'' \<or> jwk_Kid k = [] then keys
      else case rsaPublicKeyFromJWK (jwk_N k) (jwk_E k) of
             Inl _ \<Rightarrow> keys
           | Inr key \<Rightarrow> (jwk_Kid k, key) # keys)"

definition jwks_request :: "jwks_cache \<Rightarrow> http_request" where
  "jwks_request c =
     \<lparr>rq_method = ''GET'', rq_url = jc_coreURL c @ ''/.well-known/jwks.json'',
      rq_headers = (\<lambda>_. None), rq_body = []\<rparr>"

definition jwks_refresh ::
    "transport \<Rightarrow> (string \<Rightarrow> go_error) \<Rightarrow> go_time \<Rightarrow> jwks_cache \<Rightarrow>
     go_error option \<times> jwks_cache" where
  "jwks_refresh tr je now c =
     (case tr (jwks_request c) of
        ReqInvalid e \<Rightarrow> (Some e, c)
      | DoFailed cause \<Rightarrow> (Some (url_error (jwks_request c) cause), c)
      | Response code body _ \<Rightarrow>
          if code \<noteq> 200
          then (Some (errorf (''jwks fetch: unexpected status '' @ format_int (int code))), c)
          else
            (case decode_jwks body of
               None \<Rightarrow> (Some (je body), c)
             | Some ks \<Rightarrow>
                 (let keys = fold add_jwk ks [] in
                  if keys = [] then (Some (errorf ''jwks fetch: no usable keys in response''), c)
                  else (None, c\<lparr>jc_keys := keys, jc_fetchedAt := now\<rparr>))))"


definition HasKeys :: "jwks_cache \<Rightarrow> bool" where
  "HasKeys c \<longleftrightarrow> jc_keys c \<noteq> []"

definition GetKey :: "jwks_cache \<Rightarrow> string \<Rightarrow> go_error + rsa_key" where
  "GetKey c kid =
     (case map_of (jc_keys c) kid of
        Some key \<Rightarrow> Inr key
      | None \<Rightarrow> Inl (errorf ''unknown key id''))"

definition SetPublicKey :: "string \<Rightarrow> rsa_key \<Rightarrow> go_time \<Rightarrow> jwks_cache \<Rightarrow> jwks_cache" where
  "SetPublicKey kid pub now c = c\<lparr>jc_keys := (kid, pub) # jc_keys c, jc_fetchedAt := now\<rparr>"

section \<open>Claims and the validator\<close>

record claims =
  cl_Subject :: string
  cl_Issuer :: string
  cl_Audience :: "string list"
  cl_SubscriptionStatus :: string
  cl_SubscriptionTier :: string
  cl_RateLimitBucket :: string

record validator =
  va_issuer :: string
  va_audience :: string

text \<open>
  \<open>parser.ParseWithClaims\<close>: the allowed algorithms, the token and the callback that finds the key
  for the \<open>kid\<close> of the token's header (any JSON value, or none); the result is an error, or the
  claims with the token's validity flag.
\<close>

type_synonym jwt_parser =
  "string list \<Rightarrow> string \<Rightarrow> (json option \<Rightarrow> go_error + rsa_key) \<Rightarrow> go_error + claims \<times> bool"

definition key_for :: "jwks_cache \<Rightarrow> json option \<Rightarrow> go_error + rsa_key" where
  "key_for c kid = GetKey c (case as_string kid of Some s \<Rightarrow> s | None \<Rightarrow> [])"

definition Validate ::
    "jwt_parser \<Rightarrow> validator \<Rightarrow> jwks_cache \<Rightarrow> string \<Rightarrow> go_error + claims" where
  "Validate parse v c tokenString =
     (case parse [''RS256''] tokenString (key_for c) of
        Inl e \<Rightarrow> Inl e
      | Inr (cl, valid) \<Rightarrow>
          if \<not> valid then Inl (errorf ''invalid token'')
          else if cl_Issuer cl \<noteq> va_issuer v then Inl (errorf ''invalid issuer'')
          else if \<not> list_ex (\<lambda>aud. aud = va_audience v) (cl_Audience cl)
          then Inl (errorf ''invalid audience'')
          else if cl_SubscriptionStatus cl \<noteq> ''active'' \<and> cl_SubscriptionStatus cl \<noteq> ''trial''
          then Inl (errorf ''subscription inactive'')
          else Inr cl)"

text \<open>The middleware: \<open>next\<close> gets the claims that \<open>ClaimsFromContext\<close> finds.\<close>

definition bearer_claims ::
    "jwt_parser \<Rightarrow> validator \<Rightarrow> jwks_cache \<Rightarrow> string \<Rightarrow> claims option" where
  "bearer_claims parse v c authz =
     (if \<not> has_prefix authz ''Bearer '' then None
      else case Validate parse v c (trim_prefix authz ''Bearer '') of
             Inl _ \<Rightarrow> None
           | Inr cl \<Rightarrow> Some cl)"

definition JWTMiddleware ::
    "jwt_parser \<Rightarrow> validator \<Rightarrow> jwks_cache \<Rightarrow> string \<Rightarrow>
     (response_writer \<Rightarrow> 'r) \<Rightarrow> (claims option \<Rightarrow> response_writer \<Rightarrow> 'r) \<Rightarrow>
     response_writer \<Rightarrow> 'r" where
  "JWTMiddleware parse v c authz done next w =
     (case bearer_claims parse v c authz of
        None \<Rightarrow> done (WriteUnauthorized w)
      | Some cl \<Rightarrow> next (Some cl) w)"

section \<open>Keys: lemmas\<close>

lemma be_value_snoc: "be_value (bs @ [b]) = 256 * be_value bs + int (byte b)"
  by (simp add: be_value_def)

lemma exponent_snoc: "exponent_of (bs @ [b]) = push_bit 8 (exponent_of bs) + of_nat (byte b)"
  by (simp add: exponent_of_def)

lemma exponent_value: "exponent_of bs = word_of_int (be_value bs)"
proof (induction bs rule: rev_induct)
  case Nil
  then show ?case by (simp add: exponent_of_def be_value_def)
next
  case (snoc b bs)
  have "push_bit 8 (exponent_of bs) = 256 * exponent_of bs" by (simp add: push_bit_eq_mult)
  then show ?case by (simp add: exponent_snoc be_value_snoc snoc.IH)
qed

lemma be_value_bounds: "0 \<le> be_value bs \<and> be_value bs < 256 ^ length bs"
proof (induction bs rule: rev_induct)
  case Nil
  then show ?case by (simp add: be_value_def)
next
  case (snoc b bs)
  have "int (byte b) < 256" by (simp add: nat_less_iff flip: of_nat_less_iff)
  moreover have "be_value bs + 1 \<le> 256 ^ length bs" using snoc.IH by linarith
  ultimately have "256 * be_value bs + int (byte b) < 256 * 256 ^ length bs" by linarith
  then show ?case using snoc.IH by (simp add: be_value_snoc)
qed

lemma rsaPublicKey_Inr:
  "rsaPublicKeyFromJWK n e = Inr key \<Longrightarrow>
   rsa_E key \<noteq> 0 \<and> (\<exists>bs. raw_url_decode e = Some bs \<and> rsa_E key = exponent_of bs)"
  by (auto simp: rsaPublicKeyFromJWK_def Let_def split: option.splits if_splits)

section \<open>The cache: lemmas\<close>

definition usable_jwk :: "jwk \<Rightarrow> rsa_key option" where
  "usable_jwk k =
     (if jwk_Kty k = ''RSA'' \<and> jwk_Kid k \<noteq> []
      then case rsaPublicKeyFromJWK (jwk_N k) (jwk_E k) of Inl _ \<Rightarrow> None | Inr key \<Rightarrow> Some key
      else None)"

lemma add_jwk_eq:
  "add_jwk k keys =
     (case usable_jwk k of None \<Rightarrow> keys | Some key \<Rightarrow> (jwk_Kid k, key) # keys)"
  by (auto simp: add_jwk_def usable_jwk_def split: sum.splits)

lemma fold_add_jwk:
  "fold add_jwk ks keys =
     rev (List.map_filter (\<lambda>k. map_option (Pair (jwk_Kid k)) (usable_jwk k)) ks) @ keys"
  by (induction ks arbitrary: keys) (auto simp: add_jwk_eq map_filter_simps split: option.splits)

definition keys_inv :: "jwks_cache \<Rightarrow> bool" where
  "keys_inv c \<longleftrightarrow> (\<forall>(kid, key) \<in> set (jc_keys c). kid \<noteq> [] \<and> rsa_E key \<noteq> 0)"

lemma fold_add_jwk_inv:
  "(kid, key) \<in> set (fold add_jwk ks []) \<Longrightarrow> kid \<noteq> [] \<and> rsa_E key \<noteq> 0"
  by (auto simp: fold_add_jwk map_filter_def usable_jwk_def dest: rsaPublicKey_Inr
      split: if_splits sum.splits)

lemma jwks_refresh_cases:
  obtains (failed) e where "jwks_refresh tr je now c = (Some e, c)"
  | (stored) ks body err where "tr (jwks_request c) = Response 200 body err"
      "decode_jwks body = Some ks" "fold add_jwk ks [] \<noteq> []"
      "jwks_refresh tr je now c = (None, c\<lparr>jc_keys := fold add_jwk ks [], jc_fetchedAt := now\<rparr>)"
  by (fastforce simp: jwks_refresh_def Let_def split: http_result.splits option.splits if_splits)

lemma keys_inv_New: "keys_inv (NewJWKSCache url)"
  by (simp add: keys_inv_def NewJWKSCache_def)

lemma jwks_refresh_inv: "keys_inv c \<Longrightarrow> keys_inv (snd (jwks_refresh tr je now c))"
  by (rule jwks_refresh_cases [of tr je now c]) (auto simp: keys_inv_def dest: fold_add_jwk_inv)

lemma GetKey_member: "GetKey c kid = Inr key \<Longrightarrow> (kid, key) \<in> set (jc_keys c)"
  by (auto simp: GetKey_def split: option.splits dest: map_of_SomeD)

lemma Validate_Inr:
  "Validate parse v c tok = Inr cl \<Longrightarrow>
   parse [''RS256''] tok (key_for c) = Inr (cl, True) \<and> cl_Issuer cl = va_issuer v \<and>
   va_audience v \<in> set (cl_Audience cl) \<and> cl_SubscriptionStatus cl \<in> {''active'', ''trial''}"
  by (auto simp: Validate_def list_ex_iff split: sum.splits prod.splits if_splits)

section \<open>The token library\<close>

text \<open>
  What the library documents: a token that it reports as valid is signed with one of the allowed
  algorithms, and its signature verifies (\<open>verify\<close>) under a key that the callback gave.
\<close>

definition jwt_sound :: "(string \<Rightarrow> string \<Rightarrow> rsa_key \<Rightarrow> bool) \<Rightarrow> jwt_parser \<Rightarrow> bool" where
  "jwt_sound verify parse \<longleftrightarrow>
     (\<forall>ms tok kf cl. parse ms tok kf = Inr (cl, True) \<longrightarrow>
        (\<exists>alg \<in> set ms. \<exists>kid key. kf kid = Inr key \<and> verify alg tok key))"

lemma jwt_sound_key:
  assumes "jwt_sound verify parse" "Validate parse v c tok = Inr cl"
  obtains kid key where "(kid, key) \<in> set (jc_keys c)" "verify ''RS256'' tok key"
proof -
  obtain kid key where "key_for c kid = Inr key" "verify ''RS256'' tok key"
    using assms(1) Validate_Inr [OF assms(2)] unfolding jwt_sound_def by fastforce
  then show thesis unfolding key_for_def using GetKey_member that by blast
qed

text \<open>A library for the examples: a token is the claims' subject, signed under the key id k1.\<close>

definition demo_claims :: "string \<Rightarrow> claims" where
  "demo_claims sub =
     \<lparr>cl_Subject = sub, cl_Issuer = ''i'', cl_Audience = [''a''], cl_SubscriptionStatus = ''active'',
      cl_SubscriptionTier = ''pro'', cl_RateLimitBucket = ''pro_standard''\<rparr>"

definition demo_verify :: "string \<Rightarrow> string \<Rightarrow> rsa_key \<Rightarrow> bool" where
  "demo_verify alg tok key \<longleftrightarrow> alg = ''RS256'' \<and> rsa_N key = int (length tok)"

definition demo_parse :: jwt_parser where
  "demo_parse ms tok kf =
     (case kf (Some (JStr ''k1'')) of
        Inl e \<Rightarrow> Inl e
      | Inr key \<Rightarrow> if ''RS256'' \<in> set ms \<and> demo_verify ''RS256'' tok key
                   then Inr (demo_claims tok, True) else Inl (errorf ''signature''))"

lemma demo_parse_sound: "jwt_sound demo_verify demo_parse"
  by (auto simp: jwt_sound_def demo_parse_def split: sum.splits if_splits)

definition demo_jwks :: jwks_cache where
  "demo_jwks = (NewJWKSCache ''http://c/'')\<lparr>jc_keys := [(''k1'', \<lparr>rsa_N = 3, rsa_E = 3\<rparr>)]\<rparr>"

definition demo_validator :: validator where
  "demo_validator = \<lparr>va_issuer = ''i'', va_audience = ''a''\<rparr>"

lemma demo_Validate: "Validate demo_parse demo_validator demo_jwks ''sub'' = Inr (demo_claims ''sub'')"
  by (simp add: Validate_def demo_parse_def key_for_def GetKey_def demo_jwks_def demo_verify_def
      demo_claims_def demo_validator_def)

section \<open>Properties\<close>

text \<open>
  C4. Accepted tokens. Given a token library as documented, an accepted token verifies under RS256
  with a key of the cache, under a key id that is not empty, and its claims have the configured
  issuer, the configured audience among theirs, and an active or trial subscription.
\<close>

theorem Validate_safe:
  assumes "jwt_sound verify parse" "keys_inv c" "Validate parse v c tok = Inr cl"
  shows "(\<exists>kid key. (kid, key) \<in> set (jc_keys c) \<and> kid \<noteq> [] \<and> rsa_E key \<noteq> 0 \<and>
            verify ''RS256'' tok key) \<and>
         cl_Issuer cl = va_issuer v \<and> va_audience v \<in> set (cl_Audience cl) \<and>
         cl_SubscriptionStatus cl \<in> {''active'', ''trial''}"
proof -
  obtain kid key where "(kid, key) \<in> set (jc_keys c)" "verify ''RS256'' tok key"
    using assms(1,3) by (rule jwt_sound_key)
  moreover from this have "kid \<noteq> [] \<and> rsa_E key \<noteq> 0" using assms(2) by (auto simp: keys_inv_def)
  ultimately show ?thesis using Validate_Inr [OF assms(3)] by blast
qed

theorem Validate_safe_witness: "cl_Issuer (demo_claims ''sub'') = ''i''"
  using Validate_safe [OF demo_parse_sound _ demo_Validate]
  by (simp add: keys_inv_def demo_jwks_def demo_validator_def)

text \<open>
  C32. The middleware. The protected handler runs only for a Bearer header whose token validates, and
  gets the claims of that token; in every other case the answer is 401 and the handler does not run.
\<close>

theorem JWTMiddleware_gate:
  "(\<exists>tok cl. authz = ''Bearer '' @ tok \<and> Validate parse v c tok = Inr cl \<and>
      JWTMiddleware parse v c authz done next w = next (Some cl) w) \<or>
   (\<forall>tok cl. authz = ''Bearer '' @ tok \<longrightarrow> Validate parse v c tok \<noteq> Inr cl) \<and>
   JWTMiddleware parse v c authz done next w = done (WriteUnauthorized w)"
proof (cases "\<exists>tok. authz = ''Bearer '' @ tok")
  case True
  then obtain tok where t: "authz = ''Bearer '' @ tok" by blast
  then have p: "has_prefix authz ''Bearer ''" "trim_prefix authz ''Bearer '' = tok"
    by (simp_all only: has_prefix_append trim_prefix_append)
  show ?thesis
  proof (cases "Validate parse v c tok")
    case (Inl e)
    then show ?thesis using t p by (simp add: JWTMiddleware_def bearer_claims_def)
  next
    case (Inr cl)
    then have "JWTMiddleware parse v c authz done next w = next (Some cl) w"
      using p by (simp only: JWTMiddleware_def bearer_claims_def) simp
    with t Inr show ?thesis by blast
  qed
next
  case False
  then have "\<not> has_prefix authz ''Bearer ''" by (auto simp only: has_prefix_iff)
  with False show ?thesis by (auto simp: JWTMiddleware_def bearer_claims_def)
qed

theorem JWTMiddleware_gate_witness:
  "JWTMiddleware demo_parse demo_validator demo_jwks ''Basic x'' id (\<lambda>cl w. new_writer) new_writer =
     WriteUnauthorized new_writer"
  using JWTMiddleware_gate [of "''Basic x''" demo_parse demo_validator demo_jwks id
      "\<lambda>cl w. new_writer" new_writer] by simp

text \<open>
  C33. Refreshing the keys. A refresh that fails (no answer, a status other than 200, a body that
  does not decode, no usable key) leaves the cache as it was, so a cache with keys never becomes
  empty; a refresh that succeeds never stores an empty key id or a zero exponent.
\<close>

theorem jwks_refresh_keeps:
  assumes "jwks_refresh tr je now c = (res, c')"
  shows "(res \<noteq> None \<longrightarrow> c' = c) \<and> (res = None \<longrightarrow> HasKeys c' \<and> keys_inv c') \<and>
         (HasKeys c \<longrightarrow> HasKeys c')"
  using assms
  by (cases rule: jwks_refresh_cases [of tr je now c])
     (auto simp: HasKeys_def keys_inv_def dest: fold_add_jwk_inv)

theorem jwks_refresh_keeps_witness: "HasKeys (snd (jwks_refresh (\<lambda>_. Response 500 [] None) (\<lambda>_. errorf []) 0 demo_jwks))"
  using jwks_refresh_keeps [of "\<lambda>_. Response 500 [] None" "\<lambda>_. errorf []" 0 demo_jwks
      "fst (jwks_refresh (\<lambda>_. Response 500 [] None) (\<lambda>_. errorf []) 0 demo_jwks)"
      "snd (jwks_refresh (\<lambda>_. Response 500 [] None) (\<lambda>_. errorf []) 0 demo_jwks)"]
  by (simp add: HasKeys_def demo_jwks_def)

text \<open>
  The keys after a refresh. When Core answers with a key set that holds a usable key, each key
  id gives the last usable key of the set with that id, and every other id is unknown: keys that
  were rotated out are gone.
\<close>

lemma jwks_refresh_lookup:
  assumes "tr (jwks_request c) = Response 200 body er" "decode_jwks body = Some ks"
    "list_ex (\<lambda>k. usable_jwk k \<noteq> None) ks"
  shows "GetKey (snd (jwks_refresh tr je now c)) kid =
    (case find (\<lambda>k. jwk_Kid k = kid \<and> usable_jwk k \<noteq> None) (rev ks) of
       None \<Rightarrow> Inl (errorf ''unknown key id'')
     | Some k \<Rightarrow> Inr (the (usable_jwk k)))"
proof -
  let ?f = "\<lambda>k. map_option (Pair (jwk_Kid k)) (usable_jwk k)"
  have keys: "fold add_jwk ks [] = List.map_filter ?f (rev ks)"
    by (simp add: fold_add_jwk map_filter_def rev_map rev_filter)
  have m: "map_of (List.map_filter ?f xs) kid =
      Option.bind (find (\<lambda>k. jwk_Kid k = kid \<and> usable_jwk k \<noteq> None) xs) usable_jwk" for xs
    by (induction xs) (auto simp: map_filter_simps split: option.splits)
  have "fold add_jwk ks [] \<noteq> []"
    using assms(3) unfolding keys by (auto simp: map_filter_def list_ex_iff filter_empty_conv)
  then have "jc_keys (snd (jwks_refresh tr je now c)) = List.map_filter ?f (rev ks)"
    using assms(1,2) keys by (simp add: jwks_refresh_def Let_def)
  moreover have "\<exists>key. usable_jwk k = Some key"
    if "find (\<lambda>k. jwk_Kid k = kid \<and> usable_jwk k \<noteq> None) (rev ks) = Some k" for k
    using that by (auto simp: find_Some_iff)
  ultimately show ?thesis
    by (cases "find (\<lambda>k. jwk_Kid k = kid \<and> usable_jwk k \<noteq> None) (rev ks)")
       (force simp: GetKey_def m)+
qed

text \<open>
  C34. The exponent of a key. It is the big-endian value of the decoded bytes modulo 2 to the 64, the
  width of an int; up to seven bytes it is exactly that value, and it is never 0. The modulus is the
  value of its bytes.
\<close>

theorem jwk_exponent:
  assumes "rsaPublicKeyFromJWK n e = Inr key" "raw_url_decode e = Some bs"
  shows "uint (rsa_E key) = be_value bs mod 2 ^ 64 \<and> uint (rsa_E key) \<noteq> 0 \<and>
         (length bs \<le> 7 \<longrightarrow> sint (rsa_E key) = be_value bs) \<and>
         (\<exists>ns. raw_url_decode n = Some ns \<and> rsa_N key = be_value ns)"
proof (intro conjI impI)
  have k: "rsa_E key = word_of_int (be_value bs)" "rsa_E key \<noteq> 0"
    using rsaPublicKey_Inr [OF assms(1)] assms(2) by (auto simp: exponent_value)
  show u: "uint (rsa_E key) = be_value bs mod 2 ^ 64" by (simp add: k(1) uint_word_of_int)
  show "uint (rsa_E key) \<noteq> 0" using k(2) by (simp add: uint_0_iff)
  show "sint (rsa_E key) = be_value bs" if "length bs \<le> 7"
  proof -
    have "(256 :: int) ^ length bs \<le> 256 ^ 7" using that by (intro power_increasing) auto
    then have "be_value bs < 2 ^ 56" "0 \<le> be_value bs"
      using be_value_bounds [of bs] by (auto intro: less_le_trans)
    then show ?thesis by (simp add: k(1) int_word_sint)
  qed
  show "\<exists>ns. raw_url_decode n = Some ns \<and> rsa_N key = be_value ns"
    using assms(1) by (auto simp: rsaPublicKeyFromJWK_def Let_def split: option.splits if_splits)
qed

text \<open>Nine bytes, the value 2 to the 64 plus 3, give the exponent 3.\<close>

theorem jwk_exponent_witness:
  "\<exists>key. rsaPublicKeyFromJWK ''AQ'' ''AQAAAAAAAAAD'' = Inr key \<and> uint (rsa_E key) = 3"
proof -
  have d: "raw_url_decode ''AQAAAAAAAAAD'' = Some (map char_of [1, 0, 0, 0, 0, 0, 0, 0, 3 :: nat])"
    by code_simp
  have b: "be_value (map char_of [1, 0, 0, 0, 0, 0, 0, 0, 3 :: nat]) mod 2 ^ 64 = 3"
    by (simp add: be_value_def)
  have "raw_url_decode ''AQ'' = Some [char_of (1 :: nat)]" by code_simp
  moreover have "exponent_of (map char_of [1, 0, 0, 0, 0, 0, 0, 0, 3 :: nat]) \<noteq> 0"
    by (simp add: exponent_value be_value_def)
  ultimately obtain key where k: "rsaPublicKeyFromJWK ''AQ'' ''AQAAAAAAAAAD'' = Inr key"
    by (auto simp: rsaPublicKeyFromJWK_def d Let_def)
  then show ?thesis using jwk_exponent [OF k d] b by metis
qed

end
