(* ===== verification/Router.thy ===== *)
theory Router
  imports Coreclient
begin

text \<open>
  internal/router/router.go: chat requests and responses, the tier check, the text and token
  estimates of messages, the payload of each provider and the buffered calls. The transport, the
  generated ids (package uuid), the clock readings and the texts of JSON errors are arguments.
\<close>

section \<open>Tiers\<close>

text \<open>Reading an absent key of a Go map gives 0.\<close>

definition tierRank :: "string \<Rightarrow> int" where
  "tierRank t =
     (case map_of [(''free'', 0), (''trial'', 1), (''pro'', 2), (''power'', 3)] t of
        Some r \<Rightarrow> r
      | None \<Rightarrow> 0)"

definition TierAllows :: "string \<Rightarrow> string \<Rightarrow> bool" where
  "TierAllows userTier minTier \<longleftrightarrow> tierRank minTier \<le> tierRank userTier"

section \<open>Data\<close>

record ChatMessage =
  cm_Role :: string
  cm_Content :: json

record ChatRequest =
  cq_Model :: string
  cq_Messages :: "ChatMessage list"
  cq_Temperature :: "f64 option"
  cq_MaxTokens :: "int option"
  cq_Stream :: bool

record Choice =
  ch_Index :: int
  ch_Role :: string
  ch_Content :: string
  ch_FinishReason :: string

record Usage =
  us_Prompt :: int
  us_Completion :: int
  us_Total :: int

record ChatResponse =
  cs_ID :: string
  cs_Object :: string
  cs_Created :: int
  cs_Model :: string
  cs_Choices :: "Choice list option"
  cs_Usage :: Usage

record ForwardResult =
  fr_Response :: ChatResponse
  fr_InputTokens :: int
  fr_OutputTokens :: int
  fr_LatencyMs :: int
  fr_TraceID :: string
  fr_SpanID :: string
  fr_StartedAt :: go_time
  fr_EndedAt :: go_time
  fr_CostUSD :: f64

definition zero_usage :: Usage where
  "zero_usage = \<lparr>us_Prompt = 0, us_Completion = 0, us_Total = 0\<rparr>"

definition zero_response :: ChatResponse where
  "zero_response =
     \<lparr>cs_ID = [], cs_Object = [], cs_Created = 0, cs_Model = [], cs_Choices = None,
      cs_Usage = zero_usage\<rparr>"

text \<open>Decoding of a chat request and of an OpenAI-compatible response; encoding of a response.\<close>

definition message_fields :: "ChatMessage field list" where
  "message_fields =
     [field ''role'' dec_string cm_Role (\<lambda>x s. s\<lparr>cm_Role := x\<rparr>),
      field ''content'' dec_any cm_Content (\<lambda>x s. s\<lparr>cm_Content := x\<rparr>)]"

definition request_fields :: "ChatRequest field list" where
  "request_fields =
     [field ''model'' dec_string cq_Model (\<lambda>x s. s\<lparr>cq_Model := x\<rparr>),
      field ''messages''
        (dec_list (dec_struct message_fields) \<lparr>cm_Role = [], cm_Content = JNull\<rparr>) cq_Messages
        (\<lambda>x s. s\<lparr>cq_Messages := x\<rparr>),
      field ''temperature'' (dec_ptr dec_float (Fin 0)) cq_Temperature
        (\<lambda>x s. s\<lparr>cq_Temperature := x\<rparr>),
      field ''max_tokens'' (dec_ptr dec_int 0) cq_MaxTokens (\<lambda>x s. s\<lparr>cq_MaxTokens := x\<rparr>),
      field ''stream'' dec_bool cq_Stream (\<lambda>x s. s\<lparr>cq_Stream := x\<rparr>)]"

definition decode_request :: "string \<Rightarrow> ChatRequest option" where
  "decode_request body =
     Option.bind (json_decode body)
       (\<lambda>j. dec_struct request_fields j
              \<lparr>cq_Model = [], cq_Messages = [], cq_Temperature = None, cq_MaxTokens = None,
               cq_Stream = False\<rparr>)"

definition choice_message_fields :: "Choice field list" where
  "choice_message_fields =
     [field ''role'' dec_string ch_Role (\<lambda>x s. s\<lparr>ch_Role := x\<rparr>),
      field ''content'' dec_string ch_Content (\<lambda>x s. s\<lparr>ch_Content := x\<rparr>)]"

definition choice_fields :: "Choice field list" where
  "choice_fields =
     [field ''index'' dec_int ch_Index (\<lambda>x s. s\<lparr>ch_Index := x\<rparr>),
      field ''message'' (dec_struct choice_message_fields) id (\<lambda>x s. x),
      field ''finish_reason'' dec_string ch_FinishReason (\<lambda>x s. s\<lparr>ch_FinishReason := x\<rparr>)]"

definition usage_fields :: "Usage field list" where
  "usage_fields =
     [field ''prompt_tokens'' dec_int us_Prompt (\<lambda>x s. s\<lparr>us_Prompt := x\<rparr>),
      field ''completion_tokens'' dec_int us_Completion (\<lambda>x s. s\<lparr>us_Completion := x\<rparr>),
      field ''total_tokens'' dec_int us_Total (\<lambda>x s. s\<lparr>us_Total := x\<rparr>)]"

definition response_fields :: "ChatResponse field list" where
  "response_fields =
     [field ''id'' dec_string cs_ID (\<lambda>x s. s\<lparr>cs_ID := x\<rparr>),
      field ''object'' dec_string cs_Object (\<lambda>x s. s\<lparr>cs_Object := x\<rparr>),
      field ''created'' dec_int cs_Created (\<lambda>x s. s\<lparr>cs_Created := x\<rparr>),
      field ''model'' dec_string cs_Model (\<lambda>x s. s\<lparr>cs_Model := x\<rparr>),
      field ''choices''
        (dec_ptr (dec_list (dec_struct choice_fields)
           \<lparr>ch_Index = 0, ch_Role = [], ch_Content = [], ch_FinishReason = []\<rparr>) [])
        cs_Choices (\<lambda>x s. s\<lparr>cs_Choices := x\<rparr>),
      field ''usage'' (dec_struct usage_fields) cs_Usage (\<lambda>x s. s\<lparr>cs_Usage := x\<rparr>)]"

definition unmarshal_response :: "string \<Rightarrow> ChatResponse option" where
  "unmarshal_response raw =
     Option.bind (json_unmarshal raw) (\<lambda>j. dec_struct response_fields j zero_response)"

definition choice_json :: "Choice \<Rightarrow> json" where
  "choice_json c =
     JObj [(''index'', jint (ch_Index c)),
           (''message'', JObj [(''role'', JStr (ch_Role c)), (''content'', JStr (ch_Content c))]),
           (''finish_reason'', JStr (ch_FinishReason c))]"

text \<open>A nil slice of choices (None) is printed as null.\<close>

definition response_json :: "ChatResponse \<Rightarrow> json" where
  "response_json r =
     JObj [(''id'', JStr (cs_ID r)), (''object'', JStr (cs_Object r)),
           (''created'', jint (cs_Created r)), (''model'', JStr (cs_Model r)),
           (''choices'', case cs_Choices r of None \<Rightarrow> JNull
                          | Some cs \<Rightarrow> JArr (map choice_json cs)),
           (''usage'',
            JObj [(''prompt_tokens'', jint (us_Prompt (cs_Usage r))),
                  (''completion_tokens'', jint (us_Completion (cs_Usage r))),
                  (''total_tokens'', jint (us_Total (cs_Usage r)))])]"

section \<open>Texts and estimates\<close>

text \<open>The text of one part of a structured content: \<open>part.(map[string]any)["text"].(string)\<close>.\<close>

definition part_text :: "json \<Rightarrow> string" where
  "part_text part = (case as_string (obj_get part ''text'') of Some t \<Rightarrow> t | None \<Rightarrow> [])"

fun messageText :: "json \<Rightarrow> string" where
  "messageText (JStr s) = s"
| "messageText (JArr parts) = concat (map part_text parts)"
| "messageText content = marshal content"

definition estimateTokens :: "ChatMessage list \<Rightarrow> int" where
  "estimateTokens msgs =
     (let n = fold (\<lambda>m n. n + int (length (messageText (cm_Content m))) div 4) msgs 0
      in if n < 1 then 1 else n)"

fun split_messages ::
    "ChatMessage list \<Rightarrow> string \<Rightarrow> (string \<times> string) list \<Rightarrow> string \<times> (string \<times> string) list" where
  "split_messages [] system out = (system, out)"
| "split_messages (m # ms) system out =
     (if cm_Role m = ''system''
      then split_messages ms (system @ messageText (cm_Content m) @ [char_of (10 :: nat)]) out
      else split_messages ms system
             (out @ [(if cm_Role m = ''assistant'' then ''assistant'' else ''user'',
                      messageText (cm_Content m))]))"

text \<open>The system prompt and the other messages, as pairs of role and content.\<close>

definition splitAnthropicMessages ::
    "ChatMessage list \<Rightarrow> string \<times> (string \<times> string) list" where
  "splitAnthropicMessages msgs =
     (case split_messages msgs [] [] of (system, out) \<Rightarrow> (trim_space system, out))"

definition request_cost :: "RouteEntry \<Rightarrow> int \<Rightarrow> int \<Rightarrow> f64" where
  "request_cost route inTok outTok =
     f64_add (f64_mul (f64_div_const (f64_of_int inTok) 1000000) (re_InputCost1M route))
             (f64_mul (f64_div_const (f64_of_int outTok) 1000000) (re_OutputCost1M route))"

section \<open>Payloads and requests\<close>

definition message_json :: "ChatMessage \<Rightarrow> json" where
  "message_json m = JObj [(''role'', JStr (cm_Role m)), (''content'', cm_Content m)]"

definition jfloat :: "f64 \<Rightarrow> json" where
  "jfloat x = JNum (case format_float x of Some s \<Rightarrow> s | None \<Rightarrow> [])"

definition openai_payload :: "RouteEntry \<Rightarrow> ChatRequest \<Rightarrow> bool \<Rightarrow> json" where
  "openai_payload route req stream =
     jmap ([(''model'', JStr (re_ExternalID route)),
            (''messages'', JArr (map message_json (cq_Messages req)))] @
           (if stream then [(''stream'', JBool True)] else []) @
           (case cq_Temperature req of None \<Rightarrow> [] | Some t \<Rightarrow> [(''temperature'', jfloat t)]) @
           (case cq_MaxTokens req of None \<Rightarrow> [] | Some n \<Rightarrow> [(''max_tokens'', jint n)]))"

definition anthropic_payload :: "RouteEntry \<Rightarrow> ChatRequest \<Rightarrow> bool \<Rightarrow> json" where
  "anthropic_payload route req stream =
     (case splitAnthropicMessages (cq_Messages req) of (system, messages) \<Rightarrow>
        jmap ([(''model'', JStr (re_ExternalID route)),
               (''max_tokens'',
                jint (case cq_MaxTokens req of None \<Rightarrow> 4096 | Some n \<Rightarrow> n)),
               (''messages'',
                JArr (map (\<lambda>(role, content).
                  jmap [(''role'', JStr role), (''content'', JStr content)]) messages))] @
              (if stream then [(''stream'', JBool True)] else []) @
              (if system \<noteq> [] then [(''system'', JStr system)] else [])))"

definition gemini_content :: "ChatMessage \<Rightarrow> json" where
  "gemini_content m =
     jmap [(''role'', JStr (if cm_Role m = ''assistant'' then ''model'' else ''user'')),
           (''parts'', JArr [jmap [(''text'', JStr (messageText (cm_Content m)))]])]"

definition gemini_payload :: "ChatRequest \<Rightarrow> json" where
  "gemini_payload req = jmap [(''contents'', JArr (map gemini_content (cq_Messages req)))]"

definition base_url :: "RouteEntry \<Rightarrow> string" where
  "base_url route = trim_right_char (CHR ''/'') (re_BaseURL route)"

fun with_headers :: "(string \<times> string) list \<Rightarrow> headers" where
  "with_headers [] = (\<lambda>_. None)"
| "with_headers ((k, v) # kvs) = header_set (with_headers kvs) k v"

definition post :: "string \<Rightarrow> (string \<times> string) list \<Rightarrow> json \<Rightarrow> http_request" where
  "post url hs payload =
     \<lparr>rq_method = ''POST'', rq_url = url, rq_headers = with_headers hs,
      rq_body = marshal payload\<rparr>"

definition sse_accept :: "bool \<Rightarrow> (string \<times> string) list" where
  "sse_accept stream = (if stream then [(''Accept'', ''text/event-stream'')] else [])"

definition openai_request :: "RouteEntry \<Rightarrow> ChatRequest \<Rightarrow> bool \<Rightarrow> http_request" where
  "openai_request route req stream =
     post (base_url route @ ''/chat/completions'')
       ([(''Authorization'', ''Bearer '' @ re_APIKey route),
         (''Content-Type'', ''application/json'')] @ sse_accept stream)
       (openai_payload route req stream)"

definition anthropic_request :: "RouteEntry \<Rightarrow> ChatRequest \<Rightarrow> bool \<Rightarrow> http_request" where
  "anthropic_request route req stream =
     post (base_url route @ ''/messages'')
       ([(''x-api-key'', re_APIKey route), (''anthropic-version'', ''2023-06-01''),
         (''Content-Type'', ''application/json'')] @ sse_accept stream)
       (anthropic_payload route req stream)"

definition gemini_request :: "RouteEntry \<Rightarrow> ChatRequest \<Rightarrow> http_request" where
  "gemini_request route req =
     (let modelPath = (if has_prefix (re_ExternalID route) ''models/'' then re_ExternalID route
                       else ''models/'' @ re_ExternalID route)
      in post (base_url route @ ''/'' @ modelPath @ '':generateContent?key='' @ re_APIKey route)
           [(''Content-Type'', ''application/json'')] (gemini_payload req))"

section \<open>Buffered calls\<close>

definition provider_error :: "nat \<Rightarrow> go_error" where
  "provider_error code = errorf (''provider error '' @ format_int (int code))"

text \<open>Build, send, read all that can be read, and refuse a status of 300 or above.\<close>

definition call_provider :: "transport \<Rightarrow> http_request \<Rightarrow> (go_error + string) \<times> sent" where
  "call_provider tr rq =
     (case tr rq of
        ReqInvalid e \<Rightarrow> (Inl e, [])
      | DoFailed cause \<Rightarrow> (Inl (url_error rq cause), [rq])
      | Response code raw _ \<Rightarrow>
          (if 300 \<le> code then Inl (provider_error code) else Inr raw, [rq]))"

definition forwardOpenAICompatible ::
    "transport \<Rightarrow> json_errors \<Rightarrow> RouteEntry \<Rightarrow> ChatRequest \<Rightarrow>
     (go_error + ChatResponse) \<times> sent" where
  "forwardOpenAICompatible tr je route req =
     (case call_provider tr (openai_request route req False) of
        (Inl e, sent) \<Rightarrow> (Inl e, sent)
      | (Inr raw, sent) \<Rightarrow>
          (case unmarshal_response raw of
             None \<Rightarrow> Inl (je raw)
           | Some out \<Rightarrow> Inr (out\<lparr>cs_Model := re_ExternalID route\<rparr>), sent))"

text \<open>One assistant choice, as the Anthropic and Gemini adapters build it.\<close>

definition assistant_response ::
    "string \<Rightarrow> int \<Rightarrow> string \<Rightarrow> string \<Rightarrow> int \<Rightarrow> int \<Rightarrow> ChatResponse" where
  "assistant_response rid created model text inTok outTok =
     \<lparr>cs_ID = rid, cs_Object = ''chat.completion'', cs_Created = created, cs_Model = model,
      cs_Choices = Some [\<lparr>ch_Index = 0, ch_Role = ''assistant'', ch_Content = text,
                          ch_FinishReason = ''stop''\<rparr>],
      cs_Usage = \<lparr>us_Prompt = inTok, us_Completion = outTok, us_Total = wrap64 (inTok + outTok)\<rparr>\<rparr>"

record anthropic_reply =
  ar_ID :: string
  ar_Model :: string
  ar_Content :: "(string \<times> string) list"
  ar_Input :: int
  ar_Output :: int

definition anthropic_fields :: "anthropic_reply field list" where
  "anthropic_fields =
     [field ''id'' dec_string ar_ID (\<lambda>x s. s\<lparr>ar_ID := x\<rparr>),
      field ''model'' dec_string ar_Model (\<lambda>x s. s\<lparr>ar_Model := x\<rparr>),
      field ''content''
        (dec_list (dec_struct [field ''type'' dec_string fst (\<lambda>x s. (x, snd s)),
                               field ''text'' dec_string snd (\<lambda>x s. (fst s, x))]) ([], []))
        ar_Content (\<lambda>x s. s\<lparr>ar_Content := x\<rparr>),
      field ''usage''
        (dec_struct [field ''input_tokens'' dec_int ar_Input (\<lambda>x s. s\<lparr>ar_Input := x\<rparr>),
                     field ''output_tokens'' dec_int ar_Output (\<lambda>x s. s\<lparr>ar_Output := x\<rparr>)])
        id (\<lambda>x s. x)]"

definition unmarshal_anthropic :: "string \<Rightarrow> anthropic_reply option" where
  "unmarshal_anthropic raw =
     Option.bind (json_unmarshal raw)
       (\<lambda>j. dec_struct anthropic_fields j
              \<lparr>ar_ID = [], ar_Model = [], ar_Content = [], ar_Input = 0, ar_Output = 0\<rparr>)"

definition anthropic_text :: "(string \<times> string) list \<Rightarrow> string" where
  "anthropic_text blocks =
     fold (\<lambda>(ty, t) text. if ty = ''text'' then text @ t else text) blocks []"

definition forwardAnthropic ::
    "transport \<Rightarrow> json_errors \<Rightarrow> go_time \<Rightarrow> RouteEntry \<Rightarrow> ChatRequest \<Rightarrow>
     (go_error + ChatResponse) \<times> sent" where
  "forwardAnthropic tr je now route req =
     (case call_provider tr (anthropic_request route req False) of
        (Inl e, sent) \<Rightarrow> (Inl e, sent)
      | (Inr raw, sent) \<Rightarrow>
          (case unmarshal_anthropic raw of
             None \<Rightarrow> Inl (je raw)
           | Some a \<Rightarrow>
               Inr (assistant_response (ar_ID a) (time_unix now) (re_ExternalID route)
                      (anthropic_text (ar_Content a)) (ar_Input a) (ar_Output a)), sent))"

record gemini_reply =
  gr_Candidates :: "string list list"
  gr_Prompt :: int
  gr_Output :: int

definition gemini_fields :: "gemini_reply field list" where
  "gemini_fields =
     [field ''candidates''
        (dec_list
           (dec_struct
              [field ''content''
                 (dec_struct
                    [field ''parts'' (dec_list (dec_struct [field ''text'' dec_string id (\<lambda>x s. x)]) [])
                       id (\<lambda>x s. x)]) id (\<lambda>x s. x)]) [])
        gr_Candidates (\<lambda>x s. s\<lparr>gr_Candidates := x\<rparr>),
      field ''usageMetadata''
        (dec_struct [field ''promptTokenCount'' dec_int gr_Prompt (\<lambda>x s. s\<lparr>gr_Prompt := x\<rparr>),
                     field ''candidatesTokenCount'' dec_int gr_Output (\<lambda>x s. s\<lparr>gr_Output := x\<rparr>)])
        id (\<lambda>x s. x)]"

definition unmarshal_gemini :: "string \<Rightarrow> gemini_reply option" where
  "unmarshal_gemini raw =
     Option.bind (json_unmarshal raw)
       (\<lambda>j. dec_struct gemini_fields j \<lparr>gr_Candidates = [], gr_Prompt = 0, gr_Output = 0\<rparr>)"

definition forwardGemini ::
    "transport \<Rightarrow> json_errors \<Rightarrow> string \<Rightarrow> go_time \<Rightarrow> RouteEntry \<Rightarrow> ChatRequest \<Rightarrow>
     (go_error + ChatResponse) \<times> sent" where
  "forwardGemini tr je newID now route req =
     (case call_provider tr (gemini_request route req) of
        (Inl e, sent) \<Rightarrow> (Inl e, sent)
      | (Inr raw, sent) \<Rightarrow>
          (case unmarshal_gemini raw of
             None \<Rightarrow> Inl (je raw)
           | Some g \<Rightarrow>
               Inr (assistant_response newID (time_unix now) (re_ExternalID route)
                      (case gr_Candidates g of [] \<Rightarrow> [] | parts # _ \<Rightarrow> concat parts)
                      (gr_Prompt g) (gr_Output g)), sent))"

text \<open>The ids that package uuid generates in one call: trace, span and response id.\<close>

type_synonym fresh_ids = "string \<times> string \<times> string"

definition dispatch_provider ::
    "transport \<Rightarrow> json_errors \<Rightarrow> fresh_ids \<Rightarrow> clock \<Rightarrow> RouteEntry \<Rightarrow> ChatRequest \<Rightarrow>
     (go_error + ChatResponse) \<times> sent" where
  "dispatch_provider tr je ids clk route req =
     (if re_ProviderType route = ''anthropic'' then forwardAnthropic tr je (clk 1) route req
      else if re_ProviderType route = ''gemini''
      then forwardGemini tr je (snd (snd ids)) (clk 1) route req
      else forwardOpenAICompatible tr je route req)"

definition count_input :: "ChatResponse \<Rightarrow> ChatRequest \<Rightarrow> int" where
  "count_input resp req =
     (if us_Prompt (cs_Usage resp) = 0 then estimateTokens (cq_Messages req)
      else us_Prompt (cs_Usage resp))"

definition count_output :: "ChatResponse \<Rightarrow> int" where
  "count_output resp =
     (case cs_Choices resp of
        Some (c # _) \<Rightarrow>
          if us_Completion (cs_Usage resp) = 0 then int (length (ch_Content c)) div 4
          else us_Completion (cs_Usage resp)
      | _ \<Rightarrow> us_Completion (cs_Usage resp))"

definition Forward ::
    "transport \<Rightarrow> json_errors \<Rightarrow> fresh_ids \<Rightarrow> clock \<Rightarrow> RouteEntry \<Rightarrow> ChatRequest \<Rightarrow>
     ForwardResult \<times> go_error option \<times> sent" where
  "Forward tr je ids clk route req =
     (let started = clk 0; ended = clk 2;
          latency = milliseconds (time_sub ended started);
          failed = \<lparr>fr_Response = zero_response, fr_InputTokens = 0, fr_OutputTokens = 0,
                    fr_LatencyMs = latency, fr_TraceID = fst ids, fr_SpanID = fst (snd ids),
                    fr_StartedAt = started, fr_EndedAt = ended, fr_CostUSD = Fin 0\<rparr>
      in case dispatch_provider tr je ids clk route req of
           (Inl e, sent) \<Rightarrow> (failed, Some e, sent)
         | (Inr resp, sent) \<Rightarrow>
             (let inTok = count_input resp req; outTok = count_output resp
              in (failed\<lparr>fr_Response := resp, fr_InputTokens := inTok, fr_OutputTokens := outTok,
                         fr_CostUSD := request_cost route inTok outTok\<rparr>, None, sent)))"

section \<open>Lemmas\<close>

lemma tierRank_cases:
  "tierRank t = (if t = ''trial'' then 1 else if t = ''pro'' then 2 else if t = ''power'' then 3 else 0)"
  by (simp add: tierRank_def)

lemma tierRank_range: "0 \<le> tierRank t \<and> tierRank t \<le> 3"
  by (simp add: tierRank_cases)

lemma split_messages_spec:
  "split_messages ms system out =
     (system @ concat (map (\<lambda>m. messageText (cm_Content m) @ [char_of (10 :: nat)])
                 (filter (\<lambda>m. cm_Role m = ''system'') ms)),
      out @ map (\<lambda>m. (if cm_Role m = ''assistant'' then ''assistant'' else ''user'',
                        messageText (cm_Content m)))
              (filter (\<lambda>m. cm_Role m \<noteq> ''system'') ms))"
  by (induction ms system out rule: split_messages.induct) auto

lemma fold_token_sum:
  "fold (\<lambda>m n. n + f m) ms (a :: int) = a + sum_list (map f ms)"
  by (induction ms arbitrary: a) (auto simp: algebra_simps)

lemma estimateTokens_sum:
  "estimateTokens ms =
     max 1 (sum_list (map (\<lambda>m. int (length (messageText (cm_Content m))) div 4) ms))"
  by (simp add: estimateTokens_def fold_token_sum max_def not_less)

lemma anthropic_text_concat:
  "anthropic_text blocks = concat (map snd (filter (\<lambda>b. fst b = ''text'') blocks))"
proof -
  have "fold (\<lambda>(ty, t) text. if ty = ''text'' then text @ t else text) blocks acc =
      acc @ concat (map snd (filter (\<lambda>b. fst b = ''text'') blocks))" for acc
    by (induction blocks arbitrary: acc) auto
  then show ?thesis by (simp add: anthropic_text_def)
qed

lemma request_cost_nonneg:
  assumes "0 \<le> i" "i < 2 ^ 63" "0 \<le> n" "n < 2 ^ 63" "re_InputCost1M route = Fin p"
    "re_OutputCost1M route = Fin q" "0 \<le> p" "0 \<le> q"
  shows "f64_nonneg (request_cost route i n)"
  using f64_tokens [OF assms(1,2)] f64_tokens [OF assms(3,4)] assms(5-8)
  by (auto simp: request_cost_def intro!: f64_add_nonneg f64_round_nonneg)

lemma estimateTokens_pos: "1 \<le> estimateTokens ms"
  by (simp add: estimateTokens_sum)

lemma dispatch_model:
  "dispatch_provider tr je ids clk route req = (Inr resp, sent) \<Longrightarrow> cs_Model resp = re_ExternalID route"
  by (auto simp: dispatch_provider_def forwardOpenAICompatible_def forwardAnthropic_def
      forwardGemini_def assistant_response_def split: sum.splits option.splits if_splits prod.splits)

text \<open>A call sends its request once, unless the request cannot be built.\<close>

lemma call_provider_sent: "call_provider tr rq = (ans, sent) \<Longrightarrow> sent = [rq] \<or> sent = [] \<and> (\<exists>e. ans = Inl e)"
  by (auto simp: call_provider_def split: http_result.splits)

lemma sum_div4:
  "4 * sum_list (map (\<lambda>x. (f x :: int) div 4) xs) \<le> sum_list (map f xs) \<and>
   sum_list (map f xs) \<le> 4 * sum_list (map (\<lambda>x. f x div 4) xs) + 3 * int (length xs)"
proof (induction xs)
  case (Cons x xs)
  have "4 * (f x div 4) \<le> f x" "f x \<le> 4 * (f x div 4) + 3" by presburger+
  with Cons show ?case by (simp add: distrib_left)
qed simp

section \<open>Properties\<close>

definition tiers :: "string list" where
  "tiers = [''free'', ''trial'', ''pro'', ''power'']"

text \<open>
  The tier check. The four tiers are ordered free, trial, pro, power, and a user's tier allows
  exactly the models whose minimal tier is not above it; a user whose tier is none of them counts as
  free. A minimal tier that is none of them (a misspelt one, say) is open to every user.
\<close>

lemma TierAllows_order:
  "(i < 4 \<longrightarrow> j < 4 \<longrightarrow> TierAllows (tiers ! i) (tiers ! j) = (j \<le> i)) \<and>
   (u \<notin> set tiers \<longrightarrow> TierAllows u m = TierAllows ''free'' m) \<and>
   (m \<notin> set tiers \<longrightarrow> TierAllows u m)"
proof -
  have r: "tierRank (tiers ! k) = int k" if "k < 4" for k
    using that by (auto simp: tiers_def tierRank_def numeral_eq_Suc less_Suc_eq)
  have "tierRank t = 0" if "t \<notin> set tiers" for t
    using that by (auto simp: tiers_def tierRank_def)
  then show ?thesis using r tierRank_range [of u] by (auto simp: TierAllows_def tierRank_def)
qed

text \<open>
  Translation of messages for Anthropic. The system prompt is the trimmed concatenation of the
  texts of the system messages, each on a line of its own; the other messages keep their order and
  texts, with every role but assistant turned into user.
\<close>

lemma splitAnthropicMessages_spec:
  "splitAnthropicMessages msgs =
     (trim_space (concat (map (\<lambda>m. messageText (cm_Content m) @ [char_of (10 :: nat)])
                    (filter (\<lambda>m. cm_Role m = ''system'') msgs))),
      map (\<lambda>m. (if cm_Role m = ''assistant'' then ''assistant'' else ''user'',
                  messageText (cm_Content m)))
        (filter (\<lambda>m. cm_Role m \<noteq> ''system'') msgs))"
  unfolding splitAnthropicMessages_def split_messages_spec by simp

text \<open>
  Token estimates. The estimate is at least 1, never more than a quarter of the bytes of the
  texts (or 1), and short of a quarter by less than one token for each message.
\<close>

lemma estimateTokens_bounds:
  "let total = sum_list (map (\<lambda>m. int (length (messageText (cm_Content m)))) msgs) in
   1 \<le> estimateTokens msgs \<and> 4 * estimateTokens msgs \<le> max 4 total \<and>
   total \<le> 4 * estimateTokens msgs + 3 * int (length msgs)"
  using sum_div4 [of "\<lambda>m. int (length (messageText (cm_Content m)))" msgs]
  unfolding estimateTokens_sum Let_def by linarith

text \<open>
  Where a provider's key goes. The requests to OpenAI-compatible providers and to Anthropic
  carry it in one header, and neither URL nor body depends on it; the request to Gemini carries it
  in the URL.
\<close>

lemma api_key_location:
  "header_get (rq_headers (openai_request route req stream)) ''Authorization'' =
     ''Bearer '' @ re_APIKey route \<and>
   header_get (rq_headers (anthropic_request route req stream)) ''x-api-key'' = re_APIKey route \<and>
   rq_url (openai_request (route\<lparr>re_APIKey := k\<rparr>) req stream) = rq_url (openai_request route req stream) \<and>
   rq_body (openai_request (route\<lparr>re_APIKey := k\<rparr>) req stream) = rq_body (openai_request route req stream) \<and>
   rq_url (anthropic_request (route\<lparr>re_APIKey := k\<rparr>) req stream) = rq_url (anthropic_request route req stream) \<and>
   rq_body (anthropic_request (route\<lparr>re_APIKey := k\<rparr>) req stream) = rq_body (anthropic_request route req stream) \<and>
   (\<exists>u. rq_url (gemini_request route req) = u @ ''?key='' @ re_APIKey route)"
proof -
  have c: "canonical_key ''Authorization'' = ''Authorization''" "canonical_key ''x-api-key'' = ''X-Api-Key''"
    by code_simp+
  have b: "base_url (route\<lparr>re_APIKey := k\<rparr>) = base_url route" by (simp add: base_url_def)
  show ?thesis
    unfolding openai_request_def anthropic_request_def gemini_request_def post_def Let_def
    by (auto simp: header_get_set c b openai_payload_def anthropic_payload_def)
qed

text \<open>
  Translation of Anthropic's answer. From a successful answer the adapter builds one assistant
  choice whose content is the texts of the text blocks in order (other blocks are dropped), with the
  provider's token counts; a status of 300 or above is an error naming it.
\<close>

lemma forwardAnthropic_spec:
  assumes "tr (anthropic_request route req False) = Response code raw er"
    "unmarshal_anthropic raw = Some a"
  shows "forwardAnthropic tr je now route req =
    (if 300 \<le> code then Inl (errorf (''provider error '' @ format_int (int code)))
     else Inr (assistant_response (ar_ID a) (time_unix now) (re_ExternalID route)
                 (concat (map snd (filter (\<lambda>b. fst b = ''text'') (ar_Content a))))
                 (ar_Input a) (ar_Output a)), [anthropic_request route req False])"
  using assms by (simp add: forwardAnthropic_def call_provider_def provider_error_def anthropic_text_concat)

definition demo_anthropic :: string where
  "demo_anthropic = marshal (JObj [(''id'', JStr ''x''), (''content'', JArr
     [JObj [(''type'', JStr ''text''), (''text'', JStr ''a'')], JObj [(''type'', JStr ''tool_use'')],
      JObj [(''type'', JStr ''text''), (''text'', JStr ''b'')]])])"

end
