(* ===== verification/Accounting.thy ===== *)
theory Accounting
  imports Router
begin

text \<open>
  The accounting of a buffered call: the token counts that \<open>Forward\<close> reports, and how far its cost, a
  sum of rounded products, can be from the exact price.
\<close>

section \<open>The price of tokens\<close>

text \<open>Prices are per million tokens, in dollars.\<close>

definition exact_cost :: "int \<Rightarrow> int \<Rightarrow> rat \<Rightarrow> rat \<Rightarrow> rat" where
  "exact_cost inTok outTok p q = (of_int inTok * p + of_int outTok * q) / 1000000"

text \<open>One product of the sum.\<close>

lemma price_near:
  assumes "0 \<le> i" "i < 2 ^ 63" "0 \<le> p" "p \<le> 2 ^ 40"
  shows "\<exists>y. f64_mul (f64_div_const (f64_of_int i) 1000000) (Fin p) = Fin y \<and> 0 \<le> y \<and> y < 2 ^ 107 \<and>
    \<bar>y - of_int i * p / 1000000\<bar> \<le> 4 / 2 ^ 53 * (of_int i * p / 1000000) + 1 / 2 ^ 1032"
proof -
  have i: "(0 :: rat) \<le> of_int i" "(of_int i :: rat) < 2 ^ 63"
  proof -
    have "(of_int i :: rat) < of_int (2 ^ 63)" using assms(2) by (simp only: of_int_less_iff)
    then show "(of_int i :: rat) < 2 ^ 63" by simp
  qed (use assms(1) in simp)
  obtain a where a: "f64_round (of_int i) = Fin a" "0 \<le> a" "a < 2 ^ Suc 63"
    "\<bar>a - of_int i\<bar> \<le> 1 / 2 ^ 53 * of_int i + 1 / 2 ^ 1075"
    using f64_round_near [OF i, of "of_int i" 0 0 "1 / 2 ^ 53" "1 / 2 ^ 1075"] i(1) by auto
  let ?z = "of_int i / 1000000 :: rat"
  have z: "0 \<le> ?z" using i(1) by simp
  have "\<bar>a / 1000000 - ?z\<bar> = \<bar>a - of_int i\<bar> / 1000000" by (simp add: diff_divide_distrib [symmetric])
  also have "\<dots> \<le> (1 / 2 ^ 53 * of_int i + 1 / 2 ^ 1075) / 1000000"
    using a(4) by (rule divide_right_mono) simp
  also have "\<dots> \<le> 1 / 2 ^ 53 * ?z + 1 / 2 ^ 1075" by simp
  finally have "\<bar>a / 1000000 - ?z\<bar> \<le> 1 / 2 ^ 53 * ?z + 1 / 2 ^ 1075" .
  moreover have "0 \<le> a / 1000000" "a / 1000000 < 2 ^ 64" using a(2,3) by simp_all
  ultimately obtain b where b: "f64_round (a / 1000000) = Fin b" "0 \<le> b" "b < 2 ^ Suc 64"
    "\<bar>b - ?z\<bar> \<le> 5 / 2 ^ 54 * ?z + 1 / 2 ^ 1073"
    using f64_round_near [of "a / 1000000" 64 ?z "1 / 2 ^ 53" "1 / 2 ^ 1075" "5 / 2 ^ 54" "1 / 2 ^ 1073"] z
    by auto
  have "\<bar>b * p - ?z * p\<bar> = \<bar>b - ?z\<bar> * p"
    unfolding left_diff_distrib [symmetric] abs_mult using assms(3) by simp
  also have "\<dots> \<le> (5 / 2 ^ 54 * ?z + 1 / 2 ^ 1073) * p" using b(4) assms(3) by (rule mult_right_mono)
  also have "\<dots> = 5 / 2 ^ 54 * (?z * p) + p / 2 ^ 1073" by (simp add: distrib_right)
  also have "\<dots> \<le> 5 / 2 ^ 54 * (?z * p) + 1 / 2 ^ 1033"
  proof -
    have "p / 2 ^ 1073 \<le> 2 ^ 40 / 2 ^ 1073" using assms(4) by (rule divide_right_mono) simp
    then show ?thesis by simp
  qed
  finally have "\<bar>b * p - ?z * p\<bar> \<le> 5 / 2 ^ 54 * (?z * p) + 1 / 2 ^ 1033" .
  moreover have "0 \<le> b * p" "0 \<le> ?z * p" using b(2) z assms(3) by simp_all
  moreover have "b * p < 2 ^ 106"
  proof -
    have "b * p \<le> b * 2 ^ 40" using b(2) assms(4) by (rule mult_left_mono [rotated])
    also have "\<dots> < 2 ^ 65 * 2 ^ 40" using b(3) by (intro mult_strict_right_mono) simp_all
    finally show ?thesis by simp
  qed
  ultimately obtain y where "f64_round (b * p) = Fin y" "0 \<le> y" "y < 2 ^ Suc 106"
    "\<bar>y - ?z * p\<bar> \<le> 4 / 2 ^ 53 * (?z * p) + 1 / 2 ^ 1032"
    using f64_round_near [of "b * p" 106 "?z * p" "5 / 2 ^ 54" "1 / 2 ^ 1033" "4 / 2 ^ 53" "1 / 2 ^ 1032"]
    by auto
  then show ?thesis using a(1) b(1) by (simp add: f64_of_int_def)
qed

lemma request_cost_near:
  assumes "0 \<le> i" "i < 2 ^ 63" "0 \<le> n" "n < 2 ^ 63" "re_InputCost1M route = Fin p"
    "re_OutputCost1M route = Fin q" "0 \<le> p" "p \<le> 2 ^ 40" "0 \<le> q" "q \<le> 2 ^ 40"
  shows "\<exists>c. request_cost route i n = Fin c \<and> 0 \<le> c \<and>
    \<bar>c - exact_cost i n p q\<bar> \<le> exact_cost i n p q / 2 ^ 50 + 1 / 2 ^ 1000"
proof -
  let ?x = "of_int i * p / 1000000 :: rat" and ?y = "of_int n * q / 1000000 :: rat"
  obtain x where x: "f64_mul (f64_div_const (f64_of_int i) 1000000) (Fin p) = Fin x" "0 \<le> x"
    "x < 2 ^ 107" "\<bar>x - ?x\<bar> \<le> 4 / 2 ^ 53 * ?x + 1 / 2 ^ 1032"
    using price_near [OF assms(1,2,7,8)] by blast
  obtain y where y: "f64_mul (f64_div_const (f64_of_int n) 1000000) (Fin q) = Fin y" "0 \<le> y"
    "y < 2 ^ 107" "\<bar>y - ?y\<bar> \<le> 4 / 2 ^ 53 * ?y + 1 / 2 ^ 1032"
    using price_near [OF assms(3,4,9,10)] by blast
  have e: "exact_cost i n p q = ?x + ?y" by (simp add: exact_cost_def add_divide_distrib)
  have nonneg: "0 \<le> ?x" "0 \<le> ?y" using assms(1,3,7,9) by simp_all
  have "\<bar>x + y - (?x + ?y)\<bar> \<le> 4 / 2 ^ 53 * (?x + ?y) + 1 / 2 ^ 1031"
    using x(4) y(4) by (simp add: distrib_left)
  moreover have "0 \<le> x + y" "x + y < 2 ^ 108" using x(2,3) y(2,3) by simp_all
  ultimately obtain c where c: "f64_round (x + y) = Fin c" "0 \<le> c"
    "\<bar>c - (?x + ?y)\<bar> \<le> 1 / 2 ^ 50 * (?x + ?y) + 1 / 2 ^ 1000"
    using f64_round_near [of "x + y" 108 "?x + ?y" "4 / 2 ^ 53" "1 / 2 ^ 1031" "1 / 2 ^ 50" "1 / 2 ^ 1000"]
      nonneg by auto
  then show ?thesis using x(1) y(1) assms(5,6) e by (simp add: request_cost_def)
qed

section \<open>Properties\<close>

text \<open>
  C38. Accounting of a buffered call. A failed call reports no tokens and no cost. A successful one
  reports the provider's prompt tokens, or, when those are 0, a quarter of the length of every
  message, at least 1 in all; and the provider's completion tokens, or, when those are 0, a quarter
  of the length of the first choice's text. The cost is the input count at the input price and the
  output count at the output price, per million: for counts and prices that are not negative, up to
  a relative error of 2 to the -50. The response names the model by its external id.
\<close>

theorem Forward_accounting:
  assumes "Forward tr je ids clk route req = (res, err, sent)" "usage = cs_Usage (fr_Response res)"
  shows "(err \<noteq> None \<longrightarrow> fr_InputTokens res = 0 \<and> fr_OutputTokens res = 0 \<and> fr_CostUSD res = Fin 0) \<and>
    (err = None \<longrightarrow>
       cs_Model (fr_Response res) = re_ExternalID route \<and>
       fr_InputTokens res =
         (if us_Prompt usage = 0
          then max 1 (\<Sum>m\<leftarrow>cq_Messages req. int (length (messageText (cm_Content m))) div 4)
          else us_Prompt usage) \<and>
       fr_OutputTokens res =
         (if us_Completion usage = 0
          then (case cs_Choices (fr_Response res) of
                  Some (c # _) \<Rightarrow> int (length (ch_Content c)) div 4 | _ \<Rightarrow> 0)
          else us_Completion usage) \<and>
       (\<forall>p q. re_InputCost1M route = Fin p \<longrightarrow> re_OutputCost1M route = Fin q \<longrightarrow>
          0 \<le> p \<longrightarrow> p \<le> 2 ^ 40 \<longrightarrow> 0 \<le> q \<longrightarrow> q \<le> 2 ^ 40 \<longrightarrow>
          0 \<le> fr_InputTokens res \<longrightarrow> fr_InputTokens res < 2 ^ 63 \<longrightarrow>
          0 \<le> fr_OutputTokens res \<longrightarrow> fr_OutputTokens res < 2 ^ 63 \<longrightarrow>
          (\<exists>c. fr_CostUSD res = Fin c \<and> 0 \<le> c \<and>
             (let exact = (of_int (fr_InputTokens res) * p + of_int (fr_OutputTokens res) * q) / 1000000
              in \<bar>c - exact\<bar> \<le> exact / 2 ^ 50 + 1 / 2 ^ 1000))))"
proof (cases "dispatch_provider tr je ids clk route req")
  case d: (Pair ans sent')
  show ?thesis
  proof (cases ans)
    case (Inl e)
    then show ?thesis using assms(1) d by (auto simp: Forward_def Let_def)
  next
    case (Inr resp)
    have res: "err = None" "fr_Response res = resp" "fr_InputTokens res = count_input resp req"
      "fr_OutputTokens res = count_output resp"
      "fr_CostUSD res = request_cost route (count_input resp req) (count_output resp)"
      using assms(1) d Inr by (auto simp: Forward_def Let_def)
    have "count_output resp =
        (if us_Completion usage = 0
         then (case cs_Choices resp of Some (c # _) \<Rightarrow> int (length (ch_Content c)) div 4 | _ \<Rightarrow> 0)
         else us_Completion usage)"
      by (simp add: count_output_def assms(2) res(2) split: option.split list.split)
    moreover have "cs_Model resp = re_ExternalID route" using dispatch_model d Inr by blast
    moreover note request_cost_near [of "count_input resp req" "count_output resp" route,
        unfolded exact_cost_def]
    ultimately show ?thesis
      by (simp add: res assms(2) Let_def) (simp add: count_input_def estimateTokens_sum)
  qed
qed

definition demo_choice :: Choice where
  "demo_choice =
     \<lparr>ch_Index = 0, ch_Role = [], ch_Content = ''hello world'', ch_FinishReason = []\<rparr>"

definition demo_reply :: string where
  "demo_reply =
     marshal (JObj [(''choices'', JArr [JObj [(''message'', JObj [(''content'', JStr ''hello world'')])]]),
       (''usage'', JObj [(''prompt_tokens'', jint 1000)])])"

lemma demo_reply_decoded:
  "unmarshal_response demo_reply =
     Some (zero_response\<lparr>cs_Choices := Some [demo_choice],
       cs_Usage := \<lparr>us_Prompt = 1000, us_Completion = 0, us_Total = 0\<rparr>\<rparr>)"
  by code_simp

theorem Forward_accounting_witness:
  "\<exists>res sent c. Forward (\<lambda>_. Response 200 demo_reply None) (\<lambda>_. errorf []) ([], [], []) (\<lambda>_. 0)
     (zero_route\<lparr>re_InputCost1M := Fin 3, re_OutputCost1M := Fin 15\<rparr>)
     \<lparr>cq_Model = ''m'', cq_Messages = [], cq_Temperature = None, cq_MaxTokens = None, cq_Stream = False\<rparr> =
       (res, None, sent) \<and>
     fr_InputTokens res = 1000 \<and> fr_OutputTokens res = 2 \<and>
     fr_CostUSD res = Fin c \<and> \<bar>c - 303 / 100000\<bar> < 1 / 2 ^ 40"
proof -
  let ?r = "zero_route\<lparr>re_InputCost1M := Fin 3, re_OutputCost1M := Fin 15\<rparr>"
  let ?q = "\<lparr>cq_Model = ''m'', cq_Messages = [], cq_Temperature = None, cq_MaxTokens = None, cq_Stream = False\<rparr>"
  let ?F = "Forward (\<lambda>_. Response 200 demo_reply None) (\<lambda>_. errorf []) ([], [], []) (\<lambda>_. 0) ?r ?q"
  let ?resp = "zero_response\<lparr>cs_Choices := Some [demo_choice],
    cs_Usage := \<lparr>us_Prompt = 1000, us_Completion = 0, us_Total = 0\<rparr>, cs_Model := re_ExternalID ?r\<rparr>"
  have "dispatch_provider (\<lambda>_. Response 200 demo_reply None) (\<lambda>_. errorf []) ([], [], []) (\<lambda>_. 0) ?r ?q =
      (Inr ?resp, [openai_request ?r ?q False])"
    by (simp add: dispatch_provider_def forwardOpenAICompatible_def call_provider_def
        demo_reply_decoded zero_route_def)
  then have "fst (snd ?F) = None" "fr_Response (fst ?F) = ?resp"
    by (simp_all add: Forward_def Let_def)
  then obtain res sent where f: "?F = (res, None, sent)" "fr_Response res = ?resp"
    by (cases ?F) auto
  note acc = Forward_accounting [OF f(1) refl, THEN conjunct2, rule_format, OF refl, unfolded f(2)]
  have tok: "fr_InputTokens res = 1000" "fr_OutputTokens res = 2"
    using acc by (simp_all add: demo_choice_def)
  then obtain c where "fr_CostUSD res = Fin c" "\<bar>c - 303 / 100000\<bar> \<le> 303 / 100000 / 2 ^ 50 + 1 / 2 ^ 1000"
    using acc by (auto simp: Let_def)
  moreover have "(303 / 100000 / 2 ^ 50 + 1 / 2 ^ 1000 :: rat) < 1 / 2 ^ 40" by simp
  ultimately show ?thesis using f(1) tok by (blast intro: le_less_trans)
qed

end
