(* ===== verification/Stream.thy ===== *)
theory Stream
  imports Router
begin

text \<open>
  internal/router/router_stream.go: server-sent events relayed from a provider to the client. The
  line scanner is \<open>bufio.Scanner\<close> with its default limit; the client's connection may fail at any
  write (\<open>fail i\<close> says whether the i-th write does).
\<close>

section \<open>The router\<close>

text \<open>\<open>Options\<close> of 0 mean the defaults; the one timeout of the HTTP client is the sum of both.\<close>

record router =
  rt_Timeout :: duration
  rt_connectTimeout :: duration
  rt_readTimeout :: duration

definition NewWithOptions :: "duration \<Rightarrow> duration \<Rightarrow> router" where
  "NewWithOptions connect read =
     (let c = (if connect = 0 then 10 * second else connect);
          r = (if read = 0 then 120 * second else read)
      in \<lparr>rt_Timeout = wrap64 (r + c), rt_connectTimeout = c, rt_readTimeout = r\<rparr>)"

section \<open>bufio.Scanner\<close>

definition newline :: char where "newline = char_of (10 :: nat)"

definition max_line :: nat where "max_line = 65536"

definition drop_cr :: "string \<Rightarrow> string" where
  "drop_cr l = (if l \<noteq> [] \<and> last l = char_of (13 :: nat) then butlast l else l)"

text \<open>
  The lines of a text up to its end or the first line that does not fit the 64 KiB buffer, where
  scanning stops with an error that the sources do not read. The flag says that this happened.
\<close>

function scan_lines :: "string \<Rightarrow> string list \<times> bool" where
  "scan_lines s =
     (if s = [] then ([], False)
      else let l = takeWhile (\<lambda>c. c \<noteq> newline) s; r = dropWhile (\<lambda>c. c \<noteq> newline) s
           in if max_line \<le> length l then ([], True)
              else if r = [] then ([drop_cr l], False)
              else case scan_lines (tl r) of (ls, over) \<Rightarrow> (drop_cr l # ls, over))"
  by pat_completeness auto
termination
proof (relation "measure length", simp)
  fix s l r :: string
  assume "r = dropWhile (\<lambda>c. c \<noteq> newline) s" "r \<noteq> []"
  then show "(tl r, s) \<in> measure length"
    using length_dropWhile_le [of "\<lambda>c. c \<noteq> newline" s]
    by (cases "dropWhile (\<lambda>c. c \<noteq> newline) s") simp_all
qed

declare scan_lines.simps [simp del]

section \<open>Writing to the client\<close>

text \<open>A write that fails leaves nothing; it still counts.\<close>

definition try_write ::
    "(nat \<Rightarrow> bool) \<Rightarrow> string \<Rightarrow> response_writer \<Rightarrow> bool \<times> response_writer" where
  "try_write fail bs w =
     (if fail (rw_writes w) then (False, w\<lparr>rw_writes := Suc (rw_writes w)\<rparr>)
      else (True, write_body bs w))"

definition start_stream :: "response_writer \<Rightarrow> response_writer" where
  "start_stream w =
     write_header 200
       (set_header ''Connection'' ''keep-alive''
         (set_header ''Cache-Control'' ''no-cache''
           (set_header ''Content-Type'' ''text/event-stream'' w)))"

section \<open>OpenAI-compatible streams\<close>

definition extractStreamDelta :: "json \<Rightarrow> int" where
  "extractStreamDelta chunk =
     (case as_array (obj_get chunk ''choices'') of
        None \<Rightarrow> 0
      | Some [] \<Rightarrow> 0
      | Some (c # _) \<Rightarrow>
          (case as_object (Some c) of
             None \<Rightarrow> 0
           | Some choice \<Rightarrow>
               (case as_object (obj_get choice ''delta'') of
                  None \<Rightarrow> 0
                | Some delta \<Rightarrow>
                    (case as_string (obj_get delta ''content'') of
                       Some content \<Rightarrow> int (length content) div 4
                     | None \<Rightarrow> 0))))"

text \<open>\<open>json.Unmarshal\<close> into a \<open>map[string]any\<close> takes an object or null.\<close>

definition unmarshal_map :: "string \<Rightarrow> json option" where
  "unmarshal_map data =
     (case Option.bind (json_unmarshal data) to_any of
        Some (JObj kvs) \<Rightarrow> Some (JObj kvs)
      | Some JNull \<Rightarrow> Some JNull
      | _ \<Rightarrow> None)"

definition line_tokens :: "string \<Rightarrow> int" where
  "line_tokens line =
     (if has_prefix line ''data: '' then
        (let data = trim_prefix line ''data: '' in
         if data = ''[DONE]'' then 0
         else case unmarshal_map data of None \<Rightarrow> 0 | Some chunk \<Rightarrow> extractStreamDelta chunk)
      else 0)"

fun openai_loop ::
    "(nat \<Rightarrow> bool) \<Rightarrow> string list \<Rightarrow> int \<Rightarrow> response_writer \<Rightarrow> int \<times> response_writer" where
  "openai_loop fail [] outTok w = (outTok, w)"
| "openai_loop fail (line # ls) outTok w =
     (case try_write fail (line @ [newline]) w of
        (False, w') \<Rightarrow> (outTok, w')
      | (True, w') \<Rightarrow> openai_loop fail ls (outTok + line_tokens line) w')"

section \<open>Anthropic streams\<close>

text \<open>The type of an event and the text of its delta.\<close>

definition event_fields :: "(string \<times> string) field list" where
  "event_fields =
     [field ''type'' dec_string fst (\<lambda>x s. (x, snd s)),
      field ''delta''
        (dec_struct [field ''text'' dec_string snd (\<lambda>x s. (fst s, x))]) id (\<lambda>x s. x)]"

definition unmarshal_event :: "string \<Rightarrow> (string \<times> string) option" where
  "unmarshal_event data =
     Option.bind (json_unmarshal data) (\<lambda>j. dec_struct event_fields j ([], []))"

text \<open>The text that a line of the provider's stream contributes, if any.\<close>

definition anthropic_delta :: "string \<Rightarrow> string option" where
  "anthropic_delta line =
     (if line = [] \<or> has_prefix line ''event:'' then None
      else if \<not> has_prefix line ''data: '' then None
      else case unmarshal_event (trim_prefix line ''data: '') of
             None \<Rightarrow> None
           | Some (ty, text) \<Rightarrow>
               if ty \<noteq> ''content_block_delta'' \<or> text = [] then None else Some text)"

definition openai_chunk :: "string \<Rightarrow> go_time \<Rightarrow> string \<Rightarrow> string \<Rightarrow> json" where
  "openai_chunk traceID now model text =
     jmap [(''id'', JStr traceID), (''object'', JStr ''chat.completion.chunk''),
           (''created'', jint (time_unix now)), (''model'', JStr model),
           (''choices'',
            JArr [jmap [(''index'', jint 0), (''delta'', jmap [(''content'', JStr text)])]])]"

definition sse_chunk :: "json \<Rightarrow> string" where
  "sse_chunk j = ''data: '' @ marshal j @ [newline, newline]"

definition sse_done :: string where
  "sse_done = ''data: [DONE]'' @ [newline, newline]"

text \<open>\<open>clk i\<close> is the time at which the i-th chunk is built.\<close>

fun anthropic_loop ::
    "(nat \<Rightarrow> bool) \<Rightarrow> (nat \<Rightarrow> go_time) \<Rightarrow> string \<Rightarrow> string \<Rightarrow> string list \<Rightarrow> nat \<Rightarrow> int \<Rightarrow>
     response_writer \<Rightarrow> int \<times> response_writer" where
  "anthropic_loop fail clk traceID model [] i outTok w = (outTok, w)"
| "anthropic_loop fail clk traceID model (line # ls) i outTok w =
     (case anthropic_delta line of
        None \<Rightarrow> anthropic_loop fail clk traceID model ls i outTok w
      | Some text \<Rightarrow>
          (case try_write fail (sse_chunk (openai_chunk traceID (clk i) model text)) w of
             (False, w') \<Rightarrow> (outTok + int (length text) div 4, w')
           | (True, w') \<Rightarrow>
               anthropic_loop fail clk traceID model ls (Suc i)
                 (outTok + int (length text) div 4) w'))"

section \<open>ForwardStream\<close>

record StreamForwardResult =
  sf_InputTokens :: int
  sf_OutputTokens :: int
  sf_LatencyMs :: int
  sf_TraceID :: string
  sf_SpanID :: string
  sf_StartedAt :: go_time
  sf_EndedAt :: go_time
  sf_CostUSD :: f64

definition providerHTTPError :: "nat \<Rightarrow> go_error" where
  "providerHTTPError code =
     (if code = 429 \<or> code = 503
      then errorf (''provider retryable '' @ format_int (int code))
      else errorf (''provider error '' @ format_int (int code)))"

type_synonym stream_outcome =
  "StreamForwardResult \<times> go_error option \<times> response_writer \<times> sent"

definition streamErr :: "string \<Rightarrow> string \<Rightarrow> go_time \<Rightarrow> go_time \<Rightarrow> StreamForwardResult" where
  "streamErr traceID spanID started ended =
     \<lparr>sf_InputTokens = 0, sf_OutputTokens = 0,
      sf_LatencyMs = milliseconds (time_sub ended started), sf_TraceID = traceID,
      sf_SpanID = spanID, sf_StartedAt = started, sf_EndedAt = ended, sf_CostUSD = Fin 0\<rparr>"

definition stream_result ::
    "RouteEntry \<Rightarrow> ChatRequest \<Rightarrow> int \<Rightarrow> string \<Rightarrow> string \<Rightarrow> go_time \<Rightarrow> go_time \<Rightarrow>
     StreamForwardResult" where
  "stream_result route req outTok traceID spanID started ended =
     (let inTok = estimateTokens (cq_Messages req);
          outTok' = (if outTok = 0 then 1 else outTok)
      in (streamErr traceID spanID started ended)
           \<lparr>sf_InputTokens := inTok, sf_OutputTokens := outTok',
            sf_CostUSD := request_cost route inTok outTok'\<rparr>)"

text \<open>
  The circumstances of one streamed request: the clock at its start and end, the clock of its
  chunks, the ids, whether the writer can flush, and which writes fail.
\<close>

record stream_env =
  se_clk :: clock
  se_chunk_clk :: "nat \<Rightarrow> go_time"
  se_ids :: fresh_ids
  se_flusher :: bool
  se_fail :: "nat \<Rightarrow> bool"

definition open_stream ::
    "transport \<Rightarrow> stream_env \<Rightarrow> http_request \<Rightarrow> (go_error + string) \<times> sent" where
  "open_stream tr env rq =
     (case tr rq of
        ReqInvalid e \<Rightarrow> (Inl e, [])
      | DoFailed cause \<Rightarrow> (Inl (url_error rq cause), [rq])
      | Response code body _ \<Rightarrow>
          (if 300 \<le> code then Inl (providerHTTPError code)
           else if \<not> se_flusher env then Inl (errorf ''streaming unsupported'')
           else Inr body, [rq]))"

definition forwardOpenAIStream ::
    "transport \<Rightarrow> stream_env \<Rightarrow> RouteEntry \<Rightarrow> ChatRequest \<Rightarrow> response_writer \<Rightarrow>
     stream_outcome" where
  "forwardOpenAIStream tr env route req w =
     (let started = se_clk env 0; ended = se_clk env 1;
          traceID = fst (se_ids env); spanID = fst (snd (se_ids env))
      in case open_stream tr env (openai_request route req True) of
           (Inl e, sent) \<Rightarrow> (streamErr traceID spanID started ended, Some e, w, sent)
         | (Inr body, sent) \<Rightarrow>
             (case openai_loop (se_fail env) (fst (scan_lines body)) 0 (start_stream w) of
                (outTok, w') \<Rightarrow>
                  (stream_result route req outTok traceID spanID started ended, None, w', sent)))"

definition forwardAnthropicStream ::
    "transport \<Rightarrow> stream_env \<Rightarrow> RouteEntry \<Rightarrow> ChatRequest \<Rightarrow> response_writer \<Rightarrow>
     stream_outcome" where
  "forwardAnthropicStream tr env route req w =
     (let started = se_clk env 0; ended = se_clk env 1;
          traceID = fst (se_ids env); spanID = fst (snd (se_ids env))
      in case open_stream tr env (anthropic_request route req True) of
           (Inl e, sent) \<Rightarrow> (streamErr traceID spanID started ended, Some e, w, sent)
         | (Inr body, sent) \<Rightarrow>
             (case anthropic_loop (se_fail env) (se_chunk_clk env) traceID
                     (re_ExternalID route) (fst (scan_lines body)) 0 0 (start_stream w) of
                (outTok, w') \<Rightarrow>
                  (stream_result route req outTok traceID spanID started ended, None,
                   snd (try_write (se_fail env) sse_done w'), sent)))"

text \<open>The Gemini refusal reports no latency.\<close>

definition ForwardStream ::
    "transport \<Rightarrow> stream_env \<Rightarrow> RouteEntry \<Rightarrow> ChatRequest \<Rightarrow> response_writer \<Rightarrow>
     stream_outcome" where
  "ForwardStream tr env route req w =
     (if re_ProviderType route = ''gemini''
      then ((streamErr (fst (se_ids env)) (fst (snd (se_ids env))) (se_clk env 0) (se_clk env 1))
              \<lparr>sf_LatencyMs := 0\<rparr>,
            Some (errorf ''streaming not supported for gemini''), w, [])
      else if re_ProviderType route = ''anthropic'' then forwardAnthropicStream tr env route req w
      else forwardOpenAIStream tr env route req w)"

text \<open>
  \<open>doRequest\<close>, which nothing calls: one retry on 429 and 503. \<open>leftover\<close> is what reading the body
  of the request again yields after the first attempt.
\<close>

definition doRequest ::
    "transport \<Rightarrow> transport \<Rightarrow> go_error + string \<Rightarrow> http_request \<Rightarrow>
     go_error + nat \<times> string" where
  "doRequest tr tr' leftover rq =
     (let answer = (\<lambda>q r. case r of
                      ReqInvalid e \<Rightarrow> Inl e
                    | DoFailed cause \<Rightarrow> Inl (url_error q cause)
                    | Response code body _ \<Rightarrow> Inr (code, body))
      in case answer rq (tr rq) of
           Inl e \<Rightarrow> Inl e
         | Inr (code, body) \<Rightarrow>
             if code \<noteq> 429 \<and> code \<noteq> 503 then Inr (code, body)
             else (case leftover of
                     Inl _ \<Rightarrow> Inl (providerHTTPError code)
                   | Inr b \<Rightarrow> answer (rq\<lparr>rq_body := b\<rparr>) (tr' (rq\<lparr>rq_body := b\<rparr>))))"

section \<open>Lemmas\<close>

lemma start_stream_fields [simp]:
  "rw_body (start_stream w) = rw_body w" "rw_writes (start_stream w) = rw_writes w"
  "rw_sent (start_stream w) \<noteq> None"
  by (simp_all add: start_stream_def split: option.splits)

lemma openai_loop_ok:
  "\<forall>i. \<not> fail i \<Longrightarrow>
   fst (openai_loop fail ls k w) = k + sum_list (map line_tokens ls) \<and>
   rw_body (snd (openai_loop fail ls k w)) = rw_body w @ concat (map (\<lambda>l. l @ [newline]) ls)"
  by (induction fail ls k w rule: openai_loop.induct) (simp_all add: try_write_def)

lemma anthropic_loop_ok:
  "\<forall>i. \<not> fail i \<Longrightarrow>
   fst (anthropic_loop fail clk t m ls i k w) =
     k + sum_list (map (\<lambda>x. int (length x) div 4) (List.map_filter anthropic_delta ls)) \<and>
   rw_body (snd (anthropic_loop fail clk t m ls i k w)) =
     rw_body w @ concat (map (\<lambda>(j, x). sse_chunk (openai_chunk t (clk j) m x))
                   (enumerate i (List.map_filter anthropic_delta ls)))"
  by (induction fail clk t m ls i k w rule: anthropic_loop.induct)
     (simp_all add: try_write_def map_filter_simps split: option.splits)

text \<open>
  A text whose lines are short is scanned whole, a last line without a newline included; a carriage
  return before a newline, or at the end, is dropped.
\<close>

definition short_line :: "string \<Rightarrow> bool" where
  "short_line l \<longleftrightarrow> newline \<notin> set l \<and> length l < max_line"

definition last_line :: "string \<Rightarrow> string list" where
  "last_line r = (if r = [] then [] else [r])"

lemma scan_lines_step:
  assumes "short_line l"
  shows "scan_lines (l @ newline # s) = (case scan_lines s of (ls, over) \<Rightarrow> (drop_cr l # ls, over))"
proof -
  have all: "\<And>c. c \<in> set l \<Longrightarrow> c \<noteq> newline" using assms by (auto simp: short_line_def)
  have tw: "takeWhile (\<lambda>c. c \<noteq> newline) (l @ newline # s) = l"
    "dropWhile (\<lambda>c. c \<noteq> newline) (l @ newline # s) = newline # s"
    using takeWhile_append2 [of l "\<lambda>c. c \<noteq> newline" "newline # s", OF all]
      dropWhile_append2 [of l "\<lambda>c. c \<noteq> newline" "newline # s", OF all] by simp_all
  show ?thesis using assms by (subst scan_lines.simps) (simp add: tw Let_def short_line_def)
qed

lemma scan_lines_last:
  assumes "short_line r"
  shows "scan_lines r = (map drop_cr (last_line r), False)"
proof -
  have all: "\<And>c. c \<in> set r \<Longrightarrow> c \<noteq> newline" using assms by (auto simp: short_line_def)
  have tw: "takeWhile (\<lambda>c. c \<noteq> newline) r = r" "dropWhile (\<lambda>c. c \<noteq> newline) r = []"
    using all takeWhile_eq_all_conv [of "\<lambda>c. c \<noteq> newline" r]
      dropWhile_eq_Nil_conv [of "\<lambda>c. c \<noteq> newline" r] by blast+
  show ?thesis
    using assms unfolding scan_lines.simps [of r] tw
    by (simp add: Let_def last_line_def short_line_def)
qed

lemma scan_lines_relay:
  "list_all short_line ls \<Longrightarrow> short_line r \<Longrightarrow>
   scan_lines (concat (map (\<lambda>l. l @ [newline]) ls) @ r) = (map drop_cr (ls @ last_line r), False)"
  by (induction ls) (simp_all add: scan_lines_last scan_lines_step)

lemma relay_unchanged:
  "list_all (\<lambda>l. drop_cr l = l) ls \<Longrightarrow>
   concat (map (\<lambda>l. l @ [newline]) (map drop_cr ls)) = concat (map (\<lambda>l. l @ [newline]) ls)"
  by (induction ls) simp_all

lemma line_tokens_nonneg: "0 \<le> line_tokens l"
  by (auto simp: line_tokens_def extractStreamDelta_def Let_def split: option.splits list.splits)

lemma sum_nonneg_list: "(\<And>x. x \<in> set xs \<Longrightarrow> 0 \<le> f x) \<Longrightarrow> 0 \<le> sum_list (map (f :: 'a \<Rightarrow> int) xs)"
  by (induction xs) auto

lemma token_sum_nonneg: "0 \<le> sum_list (map line_tokens ls)"
  by (rule sum_nonneg_list) (rule line_tokens_nonneg)

text \<open>A line that does not fit ends the scan; the lines before it are kept.\<close>

lemma scan_lines_overlong:
  assumes "list_all (\<lambda>l. newline \<notin> set l \<and> length l < max_line \<and> drop_cr l = l) ls"
    "newline \<notin> set l" "max_line \<le> length l"
  shows "scan_lines (concat (map (\<lambda>l. l @ [newline]) ls) @ l @ rest) = (ls, True)"
  using assms(1)
proof (induction ls)
  case Nil
  have "\<And>c. c \<in> set l \<Longrightarrow> c \<noteq> newline" using assms(2) by blast
  then have "length l \<le> length (takeWhile (\<lambda>c. c \<noteq> newline) (l @ rest))"
    by (simp add: takeWhile_append2)
  moreover have "l \<noteq> []" using assms(3) by (auto simp: max_line_def)
  ultimately show ?case
    using assms(3) by (simp add: scan_lines.simps [of "l @ rest"])
qed (simp add: scan_lines_step short_line_def)

lemma openai_stream_ok:
  assumes "re_ProviderType route \<notin> {''gemini'', ''anthropic''}"
    "tr (openai_request route req True) = Response code body er" "code < 300"
    "se_flusher env" "\<forall>i. \<not> se_fail env i" "fst (scan_lines body) = ls"
  obtains res w' where
    "ForwardStream tr env route req w = (res, None, w', [openai_request route req True])"
    "rw_body w' = rw_body w @ concat (map (\<lambda>l. l @ [newline]) ls)"
    "sf_OutputTokens res = max 1 (sum_list (map line_tokens ls))"
proof -
  obtain out w' where o: "openai_loop (se_fail env) ls 0 (start_stream w) = (out, w')" by fastforce
  have "out = sum_list (map line_tokens ls)"
    "rw_body w' = rw_body w @ concat (map (\<lambda>l. l @ [newline]) ls)"
    using openai_loop_ok [OF assms(5), of ls 0 "start_stream w"] o by simp_all
  then show thesis
    using assms o token_sum_nonneg [of ls]
    by (intro that)
       (auto simp: ForwardStream_def forwardOpenAIStream_def open_stream_def Let_def
          stream_result_def max_def split: if_splits)
qed

text \<open>
  A client that disconnects. The relay stops at the first write that fails: what was written, and
  what the tokens are counted from, is exactly the lines before it, for any pattern of failures.
\<close>

lemma openai_loop_disconnect:
  "\<exists>k \<le> length ls.
     fst (openai_loop fail ls n w) = n + sum_list (map line_tokens (take k ls)) \<and>
     rw_body (snd (openai_loop fail ls n w)) =
       rw_body w @ concat (map (\<lambda>l. l @ [newline]) (take k ls)) \<and>
     (\<forall>i < k. \<not> fail (rw_writes w + i)) \<and> (k < length ls \<longrightarrow> fail (rw_writes w + k))"
proof (induction ls arbitrary: n w)
  case Nil
  then show ?case by simp
next
  case (Cons l ls)
  show ?case
  proof (cases "fail (rw_writes w)")
    case True
    then show ?thesis by (intro exI [of _ 0]) (simp add: try_write_def)
  next
    case False
    let ?w = "write_body (l @ [newline]) w" and ?n = "n + line_tokens l"
    obtain k where k: "k \<le> length ls"
      "fst (openai_loop fail ls ?n ?w) = ?n + sum_list (map line_tokens (take k ls))"
      "rw_body (snd (openai_loop fail ls ?n ?w)) =
         rw_body ?w @ concat (map (\<lambda>l. l @ [newline]) (take k ls))"
      "\<forall>i < k. \<not> fail (rw_writes ?w + i)" "k < length ls \<longrightarrow> fail (rw_writes ?w + k)"
      using Cons.IH by blast
    have "\<not> fail (rw_writes w + i)" if "i < Suc k" for i
      using that k(4) False by (cases i) auto
    then show ?thesis using k False by (intro exI [of _ "Suc k"]) (auto simp: try_write_def)
  qed
qed

section \<open>Properties\<close>

definition demo_req :: ChatRequest where
  "demo_req = \<lparr>cq_Model = ''m'', cq_Messages = [], cq_Temperature = None, cq_MaxTokens = None, cq_Stream = True\<rparr>"

definition demo_env :: stream_env where
  "demo_env = \<lparr>se_clk = \<lambda>_. 0, se_chunk_clk = \<lambda>_. 0, se_ids = (''t'', ''s'', ''r''), se_flusher = True,
     se_fail = \<lambda>_. False\<rparr>"

lemma demo_simps:
  "re_ProviderType zero_route = []" "se_flusher demo_env" "\<not> se_fail demo_env i"
  "rw_body new_writer = []" "fst (se_ids demo_env) = ''t''" "se_chunk_clk demo_env j = 0"
  by (simp_all add: zero_route_def demo_env_def new_writer_def)

lemma demo_chars:
  "newline \<noteq> CHR ''a''" "newline \<noteq> CHR ''x''" "CHR ''a'' \<noteq> char_of (13 :: nat)"
  by code_simp+

text \<open>
  C23. A stream that fails has written nothing. Whenever \<open>ForwardStream\<close> returns an error (a provider
  that cannot be reached or refuses, a writer that cannot flush, Gemini), the response is exactly as
  it was, so an error response can still be sent, and no tokens or cost are reported.
\<close>

theorem ForwardStream_error_untouched:
  assumes "ForwardStream tr env route req w = (res, Some e, w', sent)"
  shows "w' = w \<and> sf_InputTokens res = 0 \<and> sf_OutputTokens res = 0 \<and> sf_CostUSD res = Fin 0"
  using assms
  by (auto simp: ForwardStream_def forwardOpenAIStream_def forwardAnthropicStream_def Let_def
      streamErr_def split: if_splits sum.splits prod.splits)

theorem ForwardStream_error_untouched_witness:
  "\<exists>res e sent. ForwardStream (\<lambda>_. DoFailed ''refused'') demo_env zero_route demo_req new_writer =
     (res, Some e, new_writer, sent) \<and> sf_OutputTokens res = 0"
proof -
  obtain res e w' sent where f:
    "ForwardStream (\<lambda>_. DoFailed ''refused'') demo_env zero_route demo_req new_writer =
      (res, Some e, w', sent)"
    by (simp add: ForwardStream_def zero_route_def forwardOpenAIStream_def open_stream_def Let_def)
  show ?thesis using ForwardStream_error_untouched [OF f] f by blast
qed

text \<open>
  C24. The relay of an OpenAI-compatible stream. When every line of the provider's body is shorter than
  64 KiB, the client gets the lines in order, each ended by a newline and without a carriage return
  at its end, up to the first write that fails; the output tokens are the sum of the estimates for
  those lines, at least 1. A body whose lines all end in a newline with no carriage return before it
  reaches a client that stays connected byte for byte; a last line without a newline is given one.
\<close>

theorem openai_stream_relay:
  assumes "re_ProviderType route \<notin> {''gemini'', ''anthropic''}"
    "tr (openai_request route req True) = Response code body er" "code < 300" "se_flusher env"
    "body = concat (map (\<lambda>l. l @ [newline]) ls) @ rem" "list_all short_line ls" "short_line rem"
    "out = map drop_cr (ls @ last_line rem)"
  shows "\<exists>res w' n. ForwardStream tr env route req w =
      (res, None, w', [openai_request route req True]) \<and>
    n \<le> length out \<and> (\<forall>i < n. \<not> se_fail env (rw_writes w + i)) \<and>
    (n < length out \<longrightarrow> se_fail env (rw_writes w + n)) \<and>
    rw_body w' = rw_body w @ concat (map (\<lambda>l. l @ [newline]) (take n out)) \<and>
    sf_OutputTokens res = max 1 (sum_list (map line_tokens (take n out))) \<and>
    ((\<forall>i. \<not> se_fail env i) \<and> rem = [] \<and> list_all (\<lambda>l. drop_cr l = l) ls \<longrightarrow>
       rw_body w' = rw_body w @ body)"
proof -
  let ?loop = "openai_loop (se_fail env) out 0 (start_stream w)"
  obtain k w' where o: "?loop = (k, w')" by fastforce
  obtain n where n: "n \<le> length out" "k = sum_list (map line_tokens (take n out))"
    "rw_body w' = rw_body w @ concat (map (\<lambda>l. l @ [newline]) (take n out))"
    "\<forall>i < n. \<not> se_fail env (rw_writes w + i)" "n < length out \<longrightarrow> se_fail env (rw_writes w + n)"
    using openai_loop_disconnect [of out "se_fail env" 0 "start_stream w"] o by auto
  define res where "res = stream_result route req k (fst (se_ids env)) (fst (snd (se_ids env)))
    (se_clk env 0) (se_clk env 1)"
  have "scan_lines body = (out, False)"
    using scan_lines_relay [OF assms(6,7)] by (simp add: assms(5,8))
  then have f: "ForwardStream tr env route req w = (res, None, w', [openai_request route req True])"
    using assms(1-4) o
    by (simp add: ForwardStream_def forwardOpenAIStream_def open_stream_def Let_def res_def)
  have tok: "sf_OutputTokens res = max 1 (sum_list (map line_tokens (take n out)))"
    using token_sum_nonneg [of "take n out"] n(2)
    by (simp add: res_def stream_result_def Let_def max_def)
  have "rw_body w' = rw_body w @ body"
    if all: "\<forall>i. \<not> se_fail env i" "rem = []" "list_all (\<lambda>l. drop_cr l = l) ls"
  proof -
    have "n = length out" using n(1,5) all(1) by fastforce
    then have "take n out = map drop_cr ls" using assms(8) all(2) by (simp add: last_line_def)
    then show ?thesis using n(3) relay_unchanged [OF all(3)] assms(5) all(2) by simp
  qed
  with f tok n show ?thesis by blast
qed

theorem openai_stream_relay_witness:
  "\<exists>res w' sent. ForwardStream
     (\<lambda>_. Response 200 (''data: x'' @ [char_of (13 :: nat), newline] @ ''data: [DONE]'') None)
     demo_env zero_route demo_req new_writer = (res, None, w', sent) \<and>
     rw_body w' = ''data: x'' @ newline # ''data: [DONE]'' @ [newline]"
proof -
  let ?l = "''data: x'' @ [char_of (13 :: nat)]" and ?r = "''data: [DONE]''"
  have "newline \<notin> set ?l" "newline \<notin> set ?r" by code_simp+
  then have l: "short_line ?l" "short_line ?r" by (simp_all add: short_line_def max_line_def)
  have d: "drop_cr ?l = ''data: x''" "drop_cr ?r = ?r" by code_simp+
  obtain res w' n where f: "ForwardStream (\<lambda>_. Response 200 (?l @ [newline] @ ?r) None) demo_env
      zero_route demo_req new_writer = (res, None, w', [openai_request zero_route demo_req True])"
    "n \<le> length (map drop_cr ([?l] @ last_line ?r))"
    "n < length (map drop_cr ([?l] @ last_line ?r)) \<longrightarrow> se_fail demo_env (rw_writes new_writer + n)"
    "rw_body w' = rw_body new_writer @
       concat (map (\<lambda>l. l @ [newline]) (take n (map drop_cr ([?l] @ last_line ?r))))"
    using openai_stream_relay [where tr = "\<lambda>_. Response 200 (?l @ [newline] @ ?r) None" and
        env = demo_env and route = zero_route and req = demo_req and w = new_writer and code = 200 and
        er = None and ls = "[?l]" and rem = ?r, OF _ _ _ _ _ _ _ refl] l(1,2)
    by (auto simp: demo_simps)
  then have "n = 2" by (simp add: demo_simps last_line_def)
  then have "rw_body w' = ''data: x'' @ newline # ?r @ [newline]"
    using f(4) d by (simp add: demo_simps last_line_def)
  then show ?thesis using f(1) by auto
qed

text \<open>
  C26. Silent truncation. A line of 64 KiB or more ends the relay: the client gets the lines before it
  and nothing of it or after it, and the call still reports success.
\<close>

theorem openai_stream_truncated:
  assumes "re_ProviderType route \<notin> {''gemini'', ''anthropic''}"
    "tr (openai_request route req True) =
       Response code (concat (map (\<lambda>l. l @ [newline]) ls) @ l @ rest) er" "code < 300"
    "se_flusher env" "\<forall>i. \<not> se_fail env i"
    "list_all (\<lambda>l. newline \<notin> set l \<and> length l < max_line \<and> drop_cr l = l) ls"
    "newline \<notin> set l" "max_line \<le> length l"
  shows "\<exists>res w' sent. ForwardStream tr env route req w = (res, None, w', sent) \<and>
    rw_body w' = rw_body w @ concat (map (\<lambda>l. l @ [newline]) ls)"
proof -
  have "fst (scan_lines (concat (map (\<lambda>l. l @ [newline]) ls) @ l @ rest)) = ls"
    using scan_lines_overlong [OF assms(6-8)] by simp
  with assms(1-5) obtain res w' where
    "ForwardStream tr env route req w = (res, None, w', [openai_request route req True])"
    "rw_body w' = rw_body w @ concat (map (\<lambda>l. l @ [newline]) ls)"
    by (rule openai_stream_ok)
  then show ?thesis by blast
qed

theorem openai_stream_truncated_witness:
  "\<exists>res w' sent. ForwardStream
     (\<lambda>_. Response 200 (''a'' @ [newline] @ replicate 65536 CHR ''x'' @ newline # ''data: [DONE]'') None)
     demo_env zero_route demo_req new_writer = (res, None, w', sent) \<and> rw_body w' = ''a'' @ [newline]"
proof -
  let ?x = "replicate 65536 CHR ''x''"
  have "\<exists>res w' sent. ForwardStream (\<lambda>_. Response 200 (''a'' @ [newline] @ ?x @ newline # ''data: [DONE]'') None)
      demo_env zero_route demo_req new_writer = (res, None, w', sent) \<and>
      rw_body w' = rw_body new_writer @ concat (map (\<lambda>l. l @ [newline]) [''a''])"
    by (intro openai_stream_truncated [where code = 200 and er = None and l = ?x and
          rest = "newline # ''data: [DONE]''"])
       (auto simp: demo_simps demo_chars max_line_def drop_cr_def)
  then show ?thesis by (simp add: demo_simps)
qed

text \<open>
  C25. Translation of Anthropic streams. A connected client receives one chunk in the OpenAI form for
  every non-empty text delta of the provider's events, in order and with nothing else between, and
  then the end marker; the output tokens are the sum of the deltas' estimates, at least 1. The
  marker comes whether or not the provider's stream was complete.
\<close>

theorem anthropic_stream_translation:
  assumes "re_ProviderType route = ''anthropic''"
    "tr (anthropic_request route req True) = Response code body er" "code < 300"
    "se_flusher env" "\<forall>i. \<not> se_fail env i"
    "texts = List.map_filter anthropic_delta (fst (scan_lines body))"
  shows "\<exists>res w' sent. ForwardStream tr env route req w = (res, None, w', sent) \<and>
    rw_body w' = rw_body w @
      concat (map (\<lambda>(j, x). sse_chunk (openai_chunk (fst (se_ids env)) (se_chunk_clk env j)
                                (re_ExternalID route) x)) (enumerate 0 texts)) @ sse_done \<and>
    sf_OutputTokens res = max 1 (sum_list (map (\<lambda>x. int (length x) div 4) texts))"
proof -
  let ?loop = "anthropic_loop (se_fail env) (se_chunk_clk env) (fst (se_ids env)) (re_ExternalID route)
    (fst (scan_lines body)) 0 0 (start_stream w)"
  obtain out w1 where o: "?loop = (out, w1)" by fastforce
  let ?sum = "sum_list (map (\<lambda>x. int (length x) div 4) texts)"
  have "0 \<le> ?sum" by (rule sum_nonneg_list) simp
  moreover have "out = ?sum"
    "rw_body w1 = rw_body w @
      concat (map (\<lambda>(j, x). sse_chunk (openai_chunk (fst (se_ids env)) (se_chunk_clk env j)
                                (re_ExternalID route) x)) (enumerate 0 texts))"
    using o assms(6) anthropic_loop_ok [OF assms(5), of "se_chunk_clk env" "fst (se_ids env)"
        "re_ExternalID route" "fst (scan_lines body)" 0 0 "start_stream w"] by simp_all
  moreover have "ForwardStream tr env route req w =
      (stream_result route req out (fst (se_ids env)) (fst (snd (se_ids env))) (se_clk env 0) (se_clk env 1),
       None, write_body sse_done w1, [anthropic_request route req True])"
    using assms(1-5) o
    by (simp add: ForwardStream_def forwardAnthropicStream_def open_stream_def Let_def try_write_def)
  ultimately show ?thesis by (auto simp: stream_result_def Let_def)
qed

definition demo_event :: string where
  "demo_event = ''data: '' @ marshal (JObj [(''type'', JStr ''content_block_delta''),
     (''delta'', JObj [(''text'', JStr ''hi'')])])"

theorem anthropic_stream_translation_witness:
  "\<exists>res w' sent. ForwardStream (\<lambda>_. Response 200 demo_event None) demo_env
     (zero_route\<lparr>re_ProviderType := ''anthropic'', re_ExternalID := ''m''\<rparr>) demo_req new_writer = (res, None, w', sent) \<and>
     rw_body w' = sse_chunk (openai_chunk ''t'' 0 ''m'' ''hi'') @ sse_done"
proof -
  let ?r = "zero_route\<lparr>re_ProviderType := ''anthropic'', re_ExternalID := ''m''\<rparr>"
  have "newline \<notin> set demo_event" "demo_event \<noteq> []" "drop_cr demo_event = demo_event"
    "length demo_event < 100" "anthropic_delta demo_event = Some ''hi''" by code_simp+
  then have "List.map_filter anthropic_delta (fst (scan_lines demo_event)) = [''hi'']"
    by (simp add: scan_lines_last short_line_def last_line_def max_line_def map_filter_simps)
  then have "\<exists>res w' sent. ForwardStream (\<lambda>_. Response 200 demo_event None) demo_env ?r demo_req new_writer =
      (res, None, w', sent) \<and> rw_body w' = rw_body new_writer @
        concat (map (\<lambda>(j, x). sse_chunk (openai_chunk (fst (se_ids demo_env)) (se_chunk_clk demo_env j)
                                  (re_ExternalID ?r) x)) (enumerate 0 [''hi''])) @ sse_done \<and>
      sf_OutputTokens res = max 1 (sum_list (map (\<lambda>x. int (length x) div 4) [''hi'']))"
    by (intro anthropic_stream_translation [where code = 200 and er = None and body = demo_event])
       (simp_all add: demo_simps)
  then show ?thesis by (fastforce simp: demo_simps)
qed

end
