(* ===== verification/Stream_Endless.thy ===== *)
theory Stream_Endless
  imports Stream
begin

text \<open>
  The two relays of internal/router/router_stream.go over a source that may never end. The i-th
  \<open>scanner.Scan()\<close> gives a line or, at the end of the body, at an error of the connection and at a
  line that is too long, None. The relays are partial functions: None is a relay that never returns.
\<close>

section \<open>The relays\<close>

type_synonym line_source = "nat \<Rightarrow> string option"

partial_function (option) openai_relay ::
    "line_source \<Rightarrow> (nat \<Rightarrow> bool) \<Rightarrow> nat \<Rightarrow> int \<Rightarrow> response_writer \<Rightarrow> (int \<times> response_writer) option"
where
  "openai_relay src fail i outTok w =
     (case src i of
        None \<Rightarrow> Some (outTok, w)
      | Some line \<Rightarrow>
          (let res = try_write fail (line @ [newline]) w in
           if fst res then openai_relay src fail (Suc i) (outTok + line_tokens line) (snd res)
           else Some (outTok, snd res)))"

partial_function (option) anthropic_relay ::
    "line_source \<Rightarrow> (nat \<Rightarrow> bool) \<Rightarrow> (nat \<Rightarrow> go_time) \<Rightarrow> string \<Rightarrow> string \<Rightarrow> nat \<Rightarrow> nat \<Rightarrow> int \<Rightarrow>
     response_writer \<Rightarrow> (int \<times> response_writer) option"
where
  "anthropic_relay src fail clk traceID model k i outTok w =
     (case src k of
        None \<Rightarrow> Some (outTok, w)
      | Some line \<Rightarrow>
          (case anthropic_delta line of
             None \<Rightarrow> anthropic_relay src fail clk traceID model (Suc k) i outTok w
           | Some text \<Rightarrow>
               (let res = try_write fail (sse_chunk (openai_chunk traceID (clk i) model text)) w;
                    outTok' = outTok + int (length text) div 4
                in if fst res
                   then anthropic_relay src fail clk traceID model (Suc k) (Suc i) outTok' (snd res)
                   else Some (outTok', snd res))))"

text \<open>The lines of a finite body.\<close>

definition lines_source :: "string list \<Rightarrow> line_source" where
  "lines_source ls k = (if k < length ls then Some (ls ! k) else None)"

lemma drop_lines:
  "lines_source ls k = None \<Longrightarrow> drop k ls = []"
  "lines_source ls k = Some l \<Longrightarrow> drop k ls = l # drop (Suc k) ls"
  by (auto simp: lines_source_def Cons_nth_drop_Suc split: if_splits)

text \<open>On a finite body the relays are the loops of Stream.\<close>

lemma openai_relay_lines:
  "openai_relay (lines_source ls) fail k n w = Some (openai_loop fail (drop k ls) n w)"
proof (induction "drop k ls" arbitrary: k n w rule: length_induct)
  case 1
  show ?case
  proof (cases "lines_source ls k")
    case None
    then show ?thesis by (simp add: openai_relay.simps drop_lines)
  next
    case (Some l)
    then have "openai_relay (lines_source ls) fail (Suc k) n' w' =
        Some (openai_loop fail (drop (Suc k) ls) n' w')" for n' w'
      using 1 drop_lines(2) [OF Some] by (metis length_Cons lessI)
    then show ?thesis
      using Some by (subst openai_relay.simps) (auto simp: drop_lines(2) Let_def split: prod.split bool.split)
  qed
qed

lemma anthropic_relay_lines:
  "anthropic_relay (lines_source ls) fail clk t m k i n w =
   Some (anthropic_loop fail clk t m (drop k ls) i n w)"
proof (induction "drop k ls" arbitrary: k i n w rule: length_induct)
  case 1
  show ?case
  proof (cases "lines_source ls k")
    case None
    then show ?thesis by (simp add: anthropic_relay.simps drop_lines)
  next
    case (Some l)
    then have "anthropic_relay (lines_source ls) fail clk t m (Suc k) i' n' w' =
        Some (anthropic_loop fail clk t m (drop (Suc k) ls) i' n' w')" for i' n' w'
      using 1 drop_lines(2) [OF Some] by (metis length_Cons lessI)
    then show ?thesis
      using Some
      by (subst anthropic_relay.simps)
         (auto simp: drop_lines(2) Let_def split: prod.split bool.split option.split)
  qed
qed

section \<open>When the relays return\<close>

text \<open>
  The OpenAI relay, read from the i-th line, ends at the k-th line from there: the source has ended
  or the write of that line fails.
\<close>

definition openai_stops :: "line_source \<Rightarrow> (nat \<Rightarrow> bool) \<Rightarrow> nat \<Rightarrow> response_writer \<Rightarrow> nat \<Rightarrow> bool" where
  "openai_stops src fail i w k \<longleftrightarrow> src (i + k) = None \<or> fail (rw_writes w + k)"

definition first_lines :: "line_source \<Rightarrow> nat \<Rightarrow> nat \<Rightarrow> string list" where
  "first_lines src i k = map (\<lambda>j. the (src (i + j))) [0..<k]"

definition openai_sent :: "string list \<Rightarrow> response_writer \<Rightarrow> response_writer" where
  "openai_sent ls w = fold (\<lambda>l. write_body (l @ [newline])) ls w"

definition openai_result ::
    "line_source \<Rightarrow> nat \<Rightarrow> int \<Rightarrow> response_writer \<Rightarrow> nat \<Rightarrow> int \<times> response_writer" where
  "openai_result src i n w k =
     (let ls = first_lines src i k; sent = openai_sent ls w
      in (n + sum_list (map line_tokens ls),
          if src (i + k) = None then sent else sent\<lparr>rw_writes := Suc (rw_writes sent)\<rparr>))"

lemma first_lines_Suc: "first_lines src i (Suc k) = the (src i) # first_lines src (Suc i) k"
  by (simp add: first_lines_def map_upt_Suc del: upt_Suc)

lemma openai_stops_Suc:
  "openai_stops src fail i w (Suc k) \<longleftrightarrow> openai_stops src fail (Suc i) (write_body b w) k"
  by (simp add: openai_stops_def)

lemma openai_result_Suc:
  "src i = Some l \<Longrightarrow> openai_result src i n w (Suc k) =
     openai_result src (Suc i) (n + line_tokens l) (write_body (l @ [newline]) w) k"
  by (simp add: openai_result_def first_lines_Suc openai_sent_def Let_def add.assoc)

lemma openai_relay_stops:
  assumes "openai_stops src fail i w k" "\<And>j. j < k \<Longrightarrow> \<not> openai_stops src fail i w j"
  shows "openai_relay src fail i n w = Some (openai_result src i n w k)"
  using assms
proof (induction k arbitrary: i n w)
  case 0
  then show ?case
    by (subst openai_relay.simps)
       (auto simp: openai_stops_def openai_result_def first_lines_def openai_sent_def try_write_def
          Let_def split: option.split)
next
  case (Suc k)
  have "\<not> openai_stops src fail i w 0" by (rule Suc.prems(2)) simp
  then obtain l where l: "src i = Some l" "\<not> fail (rw_writes w)"
    by (auto simp: openai_stops_def)
  let ?w = "write_body (l @ [newline]) w"
  have "openai_stops src fail (Suc i) ?w k" using Suc.prems(1) openai_stops_Suc by blast
  moreover have "\<not> openai_stops src fail (Suc i) ?w j" if "j < k" for j
    using Suc.prems(2) [of "Suc j"] that openai_stops_Suc by blast
  ultimately have "openai_relay src fail (Suc i) (n + line_tokens l) ?w =
      Some (openai_result src (Suc i) (n + line_tokens l) ?w k)"
    by (rule Suc.IH)
  then show ?case
    by (subst openai_relay.simps) (simp add: l try_write_def openai_result_Suc [of src i l, OF l(1)])
qed

lemma openai_relay_returns:
  "openai_relay src fail i n w = Some y \<Longrightarrow> \<exists>k. openai_stops src fail i w k"
proof (erule openai_relay.raw_induct [rotated], goal_cases)
  case (1 relay src fail i n w y)
  show ?case
  proof (cases "src i = None \<or> fail (rw_writes w)")
    case True
    then show ?thesis by (intro exI [of _ 0]) (simp add: openai_stops_def)
  next
    case False
    then obtain l where l: "src i = Some l" "\<not> fail (rw_writes w)" by auto
    then have "relay src fail (Suc i) (n + line_tokens l) (write_body (l @ [newline]) w) = Some y"
      using 1(2) by (simp add: try_write_def)
    from 1(1) [OF this] show ?thesis using openai_stops_Suc by blast
  qed
qed

text \<open>
  The Anthropic relay writes only for a line with a delta, so a write that fails ends it there: the
  writes before the k-th line are the deltas before it.
\<close>

definition delta_count :: "line_source \<Rightarrow> nat \<Rightarrow> nat \<Rightarrow> nat" where
  "delta_count src i k = length (List.map_filter anthropic_delta (first_lines src i k))"

definition anthropic_stops :: "line_source \<Rightarrow> (nat \<Rightarrow> bool) \<Rightarrow> nat \<Rightarrow> response_writer \<Rightarrow> nat \<Rightarrow> bool" where
  "anthropic_stops src fail i w k \<longleftrightarrow>
     (case src (i + k) of
        None \<Rightarrow> True
      | Some l \<Rightarrow> anthropic_delta l \<noteq> None \<and> fail (rw_writes w + delta_count src i k))"

lemma delta_count_Suc:
  "src i = Some l \<Longrightarrow> delta_count src i (Suc k) =
     (if anthropic_delta l = None then 0 else 1) + delta_count src (Suc i) k"
  by (simp add: delta_count_def first_lines_Suc map_filter_simps split: option.split)

lemma anthropic_stops_skip:
  assumes "src i = Some l" "anthropic_delta l = None"
  shows "anthropic_stops src fail i w (Suc k) \<longleftrightarrow> anthropic_stops src fail (Suc i) w k"
  using assms by (simp add: anthropic_stops_def delta_count_Suc [of src i l] split: option.split)

lemma anthropic_stops_delta:
  assumes "src i = Some l" "anthropic_delta l = Some x"
  shows "anthropic_stops src fail i w (Suc k) \<longleftrightarrow> anthropic_stops src fail (Suc i) (write_body b w) k"
  using assms by (simp add: anthropic_stops_def delta_count_Suc [of src i l] split: option.split)

lemma anthropic_stops_0:
  "anthropic_stops src fail i w 0 \<longleftrightarrow>
   (case src i of None \<Rightarrow> True | Some l \<Rightarrow> anthropic_delta l \<noteq> None \<and> fail (rw_writes w))"
  by (simp add: anthropic_stops_def delta_count_def first_lines_def map_filter_simps split: option.split)

lemma anthropic_relay_stops:
  assumes "anthropic_stops src fail k w j"
  shows "\<exists>y. anthropic_relay src fail clk t m k i n w = Some y"
  using assms
proof (induction j arbitrary: k i n w)
  case 0
  then show ?case
    by (subst anthropic_relay.simps)
       (auto simp: anthropic_stops_0 try_write_def Let_def split: option.splits)
next
  case (Suc j)
  show ?case
  proof (cases "src k")
    case None
    then show ?thesis by (subst anthropic_relay.simps) simp
  next
    case (Some l)
    show ?thesis
    proof (cases "anthropic_delta l")
      case None
      then have "anthropic_stops src fail (Suc k) w j"
        using Suc.prems anthropic_stops_skip [of src k l, OF Some None] by blast
      then show ?thesis
        using Suc.IH Some None by (subst anthropic_relay.simps) simp
    next
      case (Some x)
      note l = \<open>src k = Some l\<close> Some
      have "anthropic_stops src fail (Suc k) (write_body b w) j" for b
        using Suc.prems anthropic_stops_delta [of src k l x, OF l] by blast
      then show ?thesis
        using Suc.IH l by (subst anthropic_relay.simps) (simp add: try_write_def Let_def)
    qed
  qed
qed

lemma anthropic_relay_returns:
  "anthropic_relay src fail clk t m k i n w = Some y \<Longrightarrow> \<exists>j. anthropic_stops src fail k w j"
proof (erule anthropic_relay.raw_induct [rotated], goal_cases)
  case (1 relay src fail clk t m k i n w y)
  show ?case
  proof (cases "anthropic_stops src fail k w 0")
    case True
    then show ?thesis by blast
  next
    case False
    then obtain l where l: "src k = Some l" by (auto simp: anthropic_stops_0 split: option.splits)
    show ?thesis
    proof (cases "anthropic_delta l")
      case None
      then have "relay src fail clk t m (Suc k) i n w = Some y" using 1(2) l by simp
      then show ?thesis using 1(1) anthropic_stops_skip [of src k l, OF l None] by blast
    next
      case (Some x)
      then have "\<not> fail (rw_writes w)" using False l by (simp add: anthropic_stops_0)
      with 1(2) l Some have "relay src fail clk t m (Suc k) (Suc i) (n + int (length x) div 4)
          (write_body (sse_chunk (openai_chunk t (clk i) m x)) w) = Some y"
        by (simp add: try_write_def Let_def)
      from 1(1) [OF this] show ?thesis using anthropic_stops_delta [of src k l x, OF l Some] by blast
    qed
  qed
qed

section \<open>Properties\<close>

text \<open>
  C21. When the relay of an OpenAI-compatible stream returns. It returns exactly when its source ends
  or a write to the client fails, at the first line where either happens: the client has then
  received exactly the lines before it, which are counted. An endless source to a client that stays
  keeps the handler for ever. On a finite body it is the loop of \<open>forwardOpenAIStream\<close>.
\<close>

theorem openai_relay_total:
  "openai_relay src fail 0 n w =
     (if \<exists>k. openai_stops src fail 0 w k
      then Some (openai_result src 0 n w (LEAST k. openai_stops src fail 0 w k)) else None) \<and>
   openai_relay (lines_source ls) fail 0 n w = Some (openai_loop fail ls n w)"
proof (cases "\<exists>k. openai_stops src fail 0 w k")
  case True
  then have "openai_stops src fail 0 w (LEAST k. openai_stops src fail 0 w k)" by (rule LeastI_ex)
  then have "openai_relay src fail 0 n w =
      Some (openai_result src 0 n w (LEAST k. openai_stops src fail 0 w k))"
    by (rule openai_relay_stops) (rule not_less_Least)
  then show ?thesis using True openai_relay_lines [of ls fail 0] by (simp only: if_True drop_0 simp_thms)
next
  case False
  then have "openai_relay src fail 0 n w = None"
    by (metis openai_relay_returns not_None_eq)
  then show ?thesis using False openai_relay_lines [of ls fail 0] by simp
qed

text \<open>
  C22. When the relay of an Anthropic stream returns. It returns exactly when its source ends or the
  write of a delta fails. Lines without a delta write nothing, so however long they come the relay
  goes on, also for a client that has gone. On a finite body it is the loop of
  \<open>forwardAnthropicStream\<close>.
\<close>

theorem anthropic_relay_total:
  "(anthropic_relay src fail clk t m 0 i n w \<noteq> None \<longleftrightarrow>
      (\<exists>k. src k = None \<or>
         (\<exists>l. src k = Some l \<and> anthropic_delta l \<noteq> None \<and>
            fail (rw_writes w +
                  length (List.map_filter anthropic_delta (map (\<lambda>j. the (src j)) [0..<k])))))) \<and>
   anthropic_relay (lines_source ls) fail clk t m 0 i n w = Some (anthropic_loop fail clk t m ls i n w)"
proof -
  have "anthropic_relay src fail clk t m 0 i n w \<noteq> None \<longleftrightarrow> (\<exists>k. anthropic_stops src fail 0 w k)"
    using anthropic_relay_stops anthropic_relay_returns by fastforce
  moreover have "anthropic_stops src fail 0 w k \<longleftrightarrow> src k = None \<or>
      (\<exists>l. src k = Some l \<and> anthropic_delta l \<noteq> None \<and>
         fail (rw_writes w +
               length (List.map_filter anthropic_delta (map (\<lambda>j. the (src j)) [0..<k]))))" for k
    by (cases "src k") (simp_all add: anthropic_stops_def delta_count_def first_lines_def)
  ultimately show ?thesis
    using anthropic_relay_lines [of ls fail clk t m 0] by (simp only: drop_0 simp_thms)
qed

end
