(* ===== verification/Manifest.thy ===== *)
theory Manifest
  imports Coreclient_Steps
begin

text \<open>
  internal/yadmanifest/service.go: the manifest of downloadable models. Its source is the URL of the
  platform configuration; a fetched manifest is validated before it is stored, and the cached one is
  the fallback. The service holds the client of the Core Platform, which may be nil (None). The
  transport of the manifest fetch is an argument of its own.
\<close>

section \<open>Data\<close>

record Entry =
  en_Version :: string
  en_URL :: string
  en_SHA256 :: string
  en_SizeBytes :: int
  en_MinAppVersion :: string
  en_EvalReportURL :: "string option"

record Manifest =
  mf_Models :: "Entry list"

definition zero_entry :: Entry where
  "zero_entry =
     \<lparr>en_Version = [], en_URL = [], en_SHA256 = [], en_SizeBytes = 0, en_MinAppVersion = [],
      en_EvalReportURL = None\<rparr>"

definition empty_manifest :: Manifest where "empty_manifest = \<lparr>mf_Models = []\<rparr>"

definition entry_fields :: "Entry field list" where
  "entry_fields =
     [field ''version'' dec_string en_Version (\<lambda>x s. s\<lparr>en_Version := x\<rparr>),
      field ''url'' dec_string en_URL (\<lambda>x s. s\<lparr>en_URL := x\<rparr>),
      field ''sha256'' dec_string en_SHA256 (\<lambda>x s. s\<lparr>en_SHA256 := x\<rparr>),
      field ''sizeBytes'' dec_uint64 en_SizeBytes (\<lambda>x s. s\<lparr>en_SizeBytes := x\<rparr>),
      field ''minAppVersion'' dec_string en_MinAppVersion (\<lambda>x s. s\<lparr>en_MinAppVersion := x\<rparr>),
      field ''evalReportUrl'' (dec_ptr dec_string []) en_EvalReportURL
        (\<lambda>x s. s\<lparr>en_EvalReportURL := x\<rparr>)]"

definition unmarshal_manifest :: "string \<Rightarrow> Manifest option" where
  "unmarshal_manifest body =
     Option.bind (json_unmarshal body)
       (\<lambda>j. dec_struct
              [field ''models'' (dec_list (dec_struct entry_fields) zero_entry) mf_Models
                 (\<lambda>x s. s\<lparr>mf_Models := x\<rparr>)] j empty_manifest)"

definition entry_json :: "Entry \<Rightarrow> json" where
  "entry_json e =
     JObj ([(''version'', JStr (en_Version e)), (''url'', JStr (en_URL e)),
            (''sha256'', JStr (en_SHA256 e)), (''sizeBytes'', jint (en_SizeBytes e)),
            (''minAppVersion'', JStr (en_MinAppVersion e))] @
           (case en_EvalReportURL e of None \<Rightarrow> [] | Some u \<Rightarrow> [(''evalReportUrl'', JStr u)]))"

text \<open>A decoded or stored manifest holds a non-nil slice of models whenever it is printed.\<close>

definition manifest_json :: "Manifest \<Rightarrow> json" where
  "manifest_json m = JObj [(''models'', JArr (map entry_json (mf_Models m)))]"

section \<open>Validation\<close>

definition entry_msg :: "nat \<Rightarrow> string \<Rightarrow> go_error" where
  "entry_msg i t = errorf (''model['' @ format_int (int i) @ ''] '' @ t)"

definition validate_entry :: "nat \<Rightarrow> Entry \<Rightarrow> go_error option" where
  "validate_entry i e =
     (if trim_space (en_Version e) = [] \<or> trim_space (en_URL e) = []
      then Some (entry_msg i ''missing version or url'')
      else if en_MinAppVersion e = [] then Some (entry_msg i ''missing minAppVersion'')
      else if en_SHA256 e = [] then None
      else if length (en_SHA256 e) \<noteq> 64 then Some (entry_msg i ''sha256 must be 64 hex chars'')
      else if list_ex (\<lambda>c. hex_val c = None) (en_SHA256 e)
      then Some (entry_msg i ''sha256 is not valid hex'')
      else None)"

fun validate_from :: "nat \<Rightarrow> Entry list \<Rightarrow> go_error option" where
  "validate_from i [] = None"
| "validate_from i (e # es) =
     (case validate_entry i e of Some err \<Rightarrow> Some err | None \<Rightarrow> validate_from (Suc i) es)"

definition validateManifest :: "Manifest \<Rightarrow> go_error option" where
  "validateManifest m =
     (if mf_Models m = [] then Some (errorf ''models array is empty'')
      else validate_from 0 (mf_Models m))"

text \<open>What validation promises of an entry, without its order of checks and its messages.\<close>

definition sound_entry :: "Entry \<Rightarrow> bool" where
  "sound_entry e \<longleftrightarrow>
     trim_space (en_Version e) \<noteq> [] \<and> trim_space (en_URL e) \<noteq> [] \<and> en_MinAppVersion e \<noteq> [] \<and>
     (en_SHA256 e = [] \<or>
      length (en_SHA256 e) = 64 \<and> list_all (\<lambda>c. hex_val c \<noteq> None) (en_SHA256 e))"

definition sound_manifest :: "Manifest \<Rightarrow> bool" where
  "sound_manifest m \<longleftrightarrow> mf_Models m \<noteq> [] \<and> list_all sound_entry (mf_Models m)"

lemma validate_entry_sound: "validate_entry i e = None \<longleftrightarrow> sound_entry e"
  by (auto simp: validate_entry_def sound_entry_def list_ex_iff list_all_iff)

lemma validate_from_sound: "validate_from i es = None \<longleftrightarrow> list_all sound_entry es"
proof (induction i es rule: validate_from.induct)
  case (2 i e es)
  then show ?case using validate_entry_sound [of i e] by (cases "validate_entry i e") auto
qed simp

lemma validateManifest_sound: "validateManifest m = None \<longleftrightarrow> sound_manifest m"
  by (simp add: validateManifest_def sound_manifest_def validate_from_sound)

section \<open>The service\<close>

record Service =
  sv_cacheTTL :: duration
  sv_manifest :: Manifest
  sv_sourceURL :: string
  sv_configKey :: string
  sv_expiresAt :: go_time
  sv_lastFetch :: go_time

definition New :: "duration \<Rightarrow> Service" where
  "New cacheTTL =
     \<lparr>sv_cacheTTL = (if cacheTTL \<le> 0 then 60 * second else cacheTTL),
      sv_manifest = empty_manifest, sv_sourceURL = [], sv_configKey = [], sv_expiresAt = 0,
      sv_lastFetch = 0\<rparr>"

definition Configured :: "client option \<Rightarrow> bool" where
  "Configured core = (case core of None \<Rightarrow> False | Some c \<Rightarrow> ManifestConfigured c)"

definition cachedOrError :: "go_time \<Rightarrow> Service \<Rightarrow> go_error + Manifest" where
  "cachedOrError now s =
     (if mf_Models (sv_manifest s) \<noteq> [] \<and>
         time_sub now (sv_lastFetch s) < wrap64 (2 * sv_cacheTTL s)
      then Inr (sv_manifest s)
      else Inl (sentinel_err ErrManifestUnavailable))"

definition manifest_request :: "string \<Rightarrow> http_request" where
  "manifest_request url =
     \<lparr>rq_method = ''GET'', rq_url = url,
      rq_headers = header_set (\<lambda>_. None) ''Accept'' ''application/json'', rq_body = []\<rparr>"

definition fetchAndValidate ::
    "transport \<Rightarrow> json_errors \<Rightarrow> string \<Rightarrow> go_error + Manifest" where
  "fetchAndValidate tr je sourceURL =
     (let rq = manifest_request sourceURL in
      case tr rq of
        ReqInvalid e \<Rightarrow> Inl (errorf_w ErrManifestUnavailable (err_text e))
      | DoFailed cause \<Rightarrow> Inl (errorf_w ErrManifestUnavailable (err_text (url_error rq cause)))
      | Response code body (Some e) \<Rightarrow>
          Inl (errorf_w ErrManifestUnavailable (''read body: '' @ err_text e))
      | Response code body None \<Rightarrow>
          if code < 200 \<or> 300 \<le> code
          then Inl (errorf_w ErrManifestUnavailable
                      (''upstream status '' @ format_int (int code)))
          else (case unmarshal_manifest body of
                  None \<Rightarrow> Inl (errorf_w ErrManifestInvalid (err_text (je body)))
                | Some m \<Rightarrow>
                    (case validateManifest m of
                       Some e \<Rightarrow> Inl (errorf_w ErrManifestInvalid (err_text e))
                     | None \<Rightarrow> Inr m)))"

definition config_key :: "PlatformConfig \<Rightarrow> string" where
  "config_key cfg = pc_ModelsManifestURL cfg @ ''|'' @ pc_UpdatedAt cfg"

definition manifest_fresh :: "go_time \<Rightarrow> PlatformConfig \<Rightarrow> Service \<Rightarrow> bool" where
  "manifest_fresh now cfg s \<longleftrightarrow>
     now < sv_expiresAt s \<and> sv_configKey s = config_key cfg \<and> mf_Models (sv_manifest s) \<noteq> []"

definition store_manifest ::
    "Manifest \<Rightarrow> PlatformConfig \<Rightarrow> go_time \<Rightarrow> go_time \<Rightarrow> Service \<Rightarrow> Service" where
  "store_manifest m cfg t1 t2 s =
     s\<lparr>sv_manifest := m, sv_sourceURL := pc_ModelsManifestURL cfg, sv_configKey := config_key cfg,
       sv_expiresAt := t1 + sv_cacheTTL s, sv_lastFetch := t2\<rparr>"

definition fetch_failed_log :: "go_error \<Rightarrow> string \<Rightarrow> log_entry" where
  "fetch_failed_log e url =
     \<lparr>le_level = WarnLevel, le_fields = [(''error'', LErr e), (''source_url'', LStr url)],
      le_msg = ''yad manifest fetch failed''\<rparr>"

definition refreshed_log :: "string \<Rightarrow> Manifest \<Rightarrow> log_entry" where
  "refreshed_log url m =
     \<lparr>le_level = InfoLevel,
      le_fields = [(''source_url'', LStr url), (''model_count'', LInt (int (length (mf_Models m))))],
      le_msg = ''yad manifest refreshed''\<rparr>"

text \<open>The fetch of \<open>Get\<close>, with its fallback; a failed fetch leaves the service as it was.\<close>

definition refresh_manifest ::
    "transport \<Rightarrow> json_errors \<Rightarrow> clock \<Rightarrow> PlatformConfig \<Rightarrow> Service \<Rightarrow>
     (go_error + Manifest) \<times> Service \<times> log_entry list" where
  "refresh_manifest mtr je clk cfg s =
     (case fetchAndValidate mtr je (pc_ModelsManifestURL cfg) of
        Inl e \<Rightarrow>
          (case cachedOrError (clk 1) s of Inr m \<Rightarrow> Inr m | Inl _ \<Rightarrow> Inl e, s,
           [fetch_failed_log e (pc_ModelsManifestURL cfg)])
      | Inr m \<Rightarrow>
          (Inr m, store_manifest m cfg (clk 1) (clk 2) s,
           [refreshed_log (pc_ModelsManifestURL cfg) m]))"

text \<open>\<open>Get\<close> after the platform configuration, which may have failed.\<close>

definition get_manifest ::
    "transport \<Rightarrow> json_errors \<Rightarrow> clock \<Rightarrow> PlatformConfig option \<Rightarrow> Service \<Rightarrow>
     (go_error + Manifest) \<times> Service \<times> log_entry list" where
  "get_manifest mtr je clk pcfg s =
     (case pcfg of
        None \<Rightarrow> (cachedOrError (clk 0) s, s, [])
      | Some cfg \<Rightarrow>
          if manifest_fresh (clk 0) cfg s then (Inr (sv_manifest s), s, [])
          else refresh_manifest mtr je clk cfg s)"

text \<open>\<open>pclk\<close> is the clock of the call to \<open>GetPlatformConfig\<close>.\<close>

definition Get ::
    "transport \<Rightarrow> transport \<Rightarrow> json_errors \<Rightarrow> clock \<Rightarrow> clock \<Rightarrow> client option \<Rightarrow> Service \<Rightarrow>
     (go_error + Manifest) \<times> client option \<times> Service \<times> log_entry list" where
  "Get ctr mtr je pclk clk core s =
     (case core of
        None \<Rightarrow> (case get_manifest mtr je clk None s of (r, s', lg) \<Rightarrow> (r, None, s', lg))
      | Some c \<Rightarrow>
          (case GetPlatformConfig ctr je pclk c of
             (res, c') \<Rightarrow>
               (case get_manifest mtr je clk
                       (case res of Inl _ \<Rightarrow> None | Inr cfg \<Rightarrow> Some cfg) s of
                  (r, s', lg) \<Rightarrow> (r, Some c', s', lg))))"

section \<open>The service as a cache\<close>

definition service_inv :: "Service \<Rightarrow> bool" where
  "service_inv s \<longleftrightarrow>
     (mf_Models (sv_manifest s) \<noteq> [] \<longrightarrow> sound_manifest (sv_manifest s)) \<and> 0 < sv_cacheTTL s"

lemma service_inv_New: "service_inv (New ttl)"
  by (simp add: service_inv_def New_def empty_manifest_def)

lemma fetchAndValidate_sound: "fetchAndValidate tr je url = Inr m \<Longrightarrow> sound_manifest m"
  by (auto simp: fetchAndValidate_def Let_def validateManifest_sound [symmetric]
      split: http_result.splits option.splits if_splits)

lemma fetchAndValidate_errors:
  "fetchAndValidate tr je url = Inl e \<Longrightarrow>
   errors_is e ErrManifestUnavailable \<or> errors_is e ErrManifestInvalid"
  by (auto simp: fetchAndValidate_def Let_def split: http_result.splits option.splits if_splits)

interpretation mt: ttl_fallback sv_manifest "\<lambda>m. mf_Models m \<noteq> []" sv_lastFetch sv_cacheTTL
  cachedOrError
  by unfold_locales (auto simp: cachedOrError_def)

type_synonym manifest_env = "transport \<times> json_errors \<times> clock \<times> PlatformConfig option"

text \<open>The whole of \<open>Get\<close> on the service's own state, for any answer of the platform configuration.\<close>

definition env_hit :: "manifest_env \<Rightarrow> Service \<Rightarrow> bool" where
  "env_hit e s =
     (case e of (mtr, je, clk, pcfg) \<Rightarrow>
        (case pcfg of None \<Rightarrow> False | Some cfg \<Rightarrow> manifest_fresh (clk 0) cfg s))"

definition env_get :: "manifest_env \<Rightarrow> Service \<Rightarrow> (go_error + Manifest) \<times> Service" where
  "env_get e s =
     (case e of (mtr, je, clk, pcfg) \<Rightarrow>
        (case get_manifest mtr je clk pcfg s of (r, s', lg) \<Rightarrow> (r, s')))"

definition env_refresh :: "manifest_env \<Rightarrow> Service \<Rightarrow> (go_error + Manifest) \<times> Service" where
  "env_refresh e s =
     (case e of (mtr, je, clk, pcfg) \<Rightarrow>
        (case pcfg of
           None \<Rightarrow> (cachedOrError (clk 0) s, s)
         | Some cfg \<Rightarrow>
             (case refresh_manifest mtr je clk cfg s of (r, s', lg) \<Rightarrow> (r, s'))))"

lemmas env_defs = env_hit_def env_get_def env_refresh_def get_manifest_def refresh_manifest_def
  manifest_fresh_def store_manifest_def

interpretation mc: ttl_cache sv_manifest "\<lambda>m. mf_Models m \<noteq> []" sv_lastFetch sv_cacheTTL
  cachedOrError service_inv sound_manifest env_hit env_refresh env_get
proof unfold_locales
  show "service_inv (snd (env_refresh e s))" if "service_inv s" for s and e :: manifest_env
    using that
    by (auto simp: env_defs service_inv_def
        split: prod.splits option.splits sum.splits dest: fetchAndValidate_sound)
next
  show "sound_manifest v" if "service_inv s" "fst (env_refresh e s) = Inr v"
    for s v and e :: manifest_env
    using that
    by (auto simp: env_defs service_inv_def mt.fallback_Inr_iff
        split: prod.splits option.splits sum.splits dest: fetchAndValidate_sound)
qed (auto simp: service_inv_def env_defs split: prod.splits option.splits)

lemma get_manifest_env:
  "fst (get_manifest mtr je clk pcfg s) = fst (env_get (mtr, je, clk, pcfg) s)"
  "fst (snd (get_manifest mtr je clk pcfg s)) = snd (env_get (mtr, je, clk, pcfg) s)"
  by (auto simp: env_get_def split: prod.splits)

lemma get_manifest_sound:
  "service_inv s \<Longrightarrow> fst (get_manifest mtr je clk pcfg s) = Inr m \<Longrightarrow> sound_manifest m"
  unfolding get_manifest_env by (rule mc.get_good)

lemma get_manifest_inv: "service_inv s \<Longrightarrow> service_inv (fst (snd (get_manifest mtr je clk pcfg s)))"
  unfolding get_manifest_env by (rule mc.get_inv)

lemma Get_parts:
  obtains pcfg where
    "fst (Get ctr mtr je pclk clk core s) = fst (get_manifest mtr je clk pcfg s)"
    "fst (snd (snd (Get ctr mtr je pclk clk core s))) = fst (snd (get_manifest mtr je clk pcfg s))"
proof (cases core)
  case None
  then show thesis by (intro that [of None]) (simp_all add: Get_def split: prod.splits)
next
  case (Some c)
  obtain res c' where "GetPlatformConfig ctr je pclk c = (res, c')" by fastforce
  with Some show thesis
    by (intro that [of "case res of Inl _ \<Rightarrow> None | Inr cfg \<Rightarrow> Some cfg"])
       (simp_all add: Get_def split: prod.splits)
qed

lemma Get_sound:
  "service_inv s \<Longrightarrow> fst (Get ctr mtr je pclk clk core s) = Inr m \<Longrightarrow> sound_manifest m"
  by (rule Get_parts [of ctr mtr je pclk clk core s]) (auto dest: get_manifest_sound)

lemma Get_inv: "service_inv s \<Longrightarrow> service_inv (fst (snd (snd (Get ctr mtr je pclk clk core s))))"
  by (rule Get_parts [of ctr mtr je pclk clk core s]) (auto intro: get_manifest_inv)

lemma Get_errors:
  "fst (Get ctr mtr je pclk clk core s) = Inl e \<Longrightarrow>
   errors_is e ErrManifestUnavailable \<or> errors_is e ErrManifestInvalid"
  by (auto simp: Get_def get_manifest_def refresh_manifest_def cachedOrError_def
      split: option.splits prod.splits sum.splits if_splits dest: fetchAndValidate_errors)

section \<open>Properties\<close>

text \<open>Reads one after the other, each under its own circumstances; their results in order.\<close>

primrec serve_all :: "manifest_env list \<Rightarrow> Service \<Rightarrow> (go_error + Manifest) list" where
  "serve_all [] s = []"
| "serve_all (e # es) s =
     (case get_manifest (fst e) (fst (snd e)) (fst (snd (snd e))) (snd (snd (snd e))) s of
        (r, s', lg) \<Rightarrow> r # serve_all es s')"

lemma serve_all_gets: "serve_all es s = mc.gets es s"
  by (induction es arbitrary: s) (auto simp: env_get_def split: prod.splits)

definition demo_entry :: Entry where
  "demo_entry = zero_entry\<lparr>en_Version := ''1'', en_URL := ''u'', en_MinAppVersion := ''0''\<rparr>"

definition demo_manifest_body :: string where
  "demo_manifest_body = marshal (JObj [(''models'', JArr [entry_json demo_entry])])"

definition demo_platform :: PlatformConfig where
  "demo_platform = \<lparr>pc_ModelsManifestURL = ''http://m'', pc_UpdatedAt = ''t''\<rparr>"

lemma demo_manifest_decodes: "unmarshal_manifest demo_manifest_body = Some \<lparr>mf_Models = [demo_entry]\<rparr>"
  by code_simp

lemma demo_entry_sound: "sound_entry demo_entry"
  by (simp add: sound_entry_def demo_entry_def zero_entry_def trim_space_visible visible_def)

lemma demo_validates: "validateManifest \<lparr>mf_Models = [demo_entry]\<rparr> = None"
  by (simp add: validateManifest_sound sound_manifest_def demo_entry_sound)

lemma demo_fetch:
  "fetchAndValidate (\<lambda>_. Response 200 demo_manifest_body None) je url = Inr \<lparr>mf_Models = [demo_entry]\<rparr>"
  by (simp add: fetchAndValidate_def demo_manifest_decodes demo_validates)

text \<open>
  Only validated manifests are served. From a new service, whatever the platform configuration,
  the manifest's source and the clock do at each read, every manifest that any read returns has
  models, each with a version and a URL that are not blank, a minimal app version, and a checksum
  that is absent or 64 hex digits.
\<close>

lemma manifest_served_sound:
  assumes "Inr m \<in> set (serve_all es (New ttl))"
  shows "sound_manifest m"
  using mc.gets_good [OF service_inv_New] assms unfolding serve_all_gets by blast

text \<open>
  What validation decides. A manifest passes exactly when it has models and every entry is
  sound; the error of one with models names the first entry that is not.
\<close>

lemma validateManifest_spec:
  "(validateManifest m = None \<longleftrightarrow> sound_manifest m) \<and>
   (\<forall>e. validateManifest m = Some e \<longrightarrow> mf_Models m \<noteq> [] \<longrightarrow>
      (\<exists>k t. k < length (mf_Models m) \<and> list_all sound_entry (take k (mf_Models m)) \<and>
             \<not> sound_entry (mf_Models m ! k) \<and> e = entry_msg k t))"
proof -
  have f: "\<exists>k t. k < length es \<and> list_all sound_entry (take k es) \<and> \<not> sound_entry (es ! k) \<and>
      e = entry_msg (i + k) t"
    if "validate_from i es = Some e" for i es e
    using that
  proof (induction i es rule: validate_from.induct)
    case (2 i x xs)
    show ?case
    proof (cases "validate_entry i x")
      case None
      then obtain k t where "k < length xs" "list_all sound_entry (take k xs)"
          "\<not> sound_entry (xs ! k)" "e = entry_msg (Suc i + k) t"
        using 2 by auto
      then show ?thesis
        using None validate_entry_sound [of i x] by (intro exI [of _ "Suc k"] exI [of _ t]) simp
    next
      case (Some err)
      then have "\<exists>t. err = entry_msg i t" by (auto simp: validate_entry_def split: if_splits)
      then show ?thesis
        using Some 2(2) validate_entry_sound [of i x] by (intro exI [of _ 0]) auto
    qed
  qed simp
  show ?thesis
    using f [of 0 "mf_Models m"] validateManifest_sound [of m] by (auto simp: validateManifest_def)
qed

text \<open>
  C28. Outage of the manifest's source. A failed fetch leaves the service as it was and is logged;
  the last manifest is served while it is younger than twice the time to live, and otherwise the
  error is that of the fetch: unavailable or invalid.
\<close>

theorem manifest_outage:
  assumes "\<not> manifest_fresh (clk 0) cfg s"
    "fetchAndValidate mtr je (pc_ModelsManifestURL cfg) = Inl e"
    "0 \<le> sv_cacheTTL s" "2 * sv_cacheTTL s < 2 ^ 63"
  shows "get_manifest mtr je clk (Some cfg) s =
    (if mf_Models (sv_manifest s) \<noteq> [] \<and> clk 1 - sv_lastFetch s < 2 * sv_cacheTTL s
     then Inr (sv_manifest s) else Inl e,
     s, [fetch_failed_log e (pc_ModelsManifestURL cfg)]) \<and>
    (errors_is e ErrManifestUnavailable \<or> errors_is e ErrManifestInvalid)"
proof -
  have "wrap64 (2 * sv_cacheTTL s) = 2 * sv_cacheTTL s"
    using assms(3,4) by (intro wrap64_id) (simp add: int64_def)
  moreover have "time_sub (clk 1) (sv_lastFetch s) < 2 * sv_cacheTTL s \<longleftrightarrow>
      clk 1 - sv_lastFetch s < 2 * sv_cacheTTL s"
    using assms(3,4) by (simp add: time_sub_def max_def min_def)
  ultimately show ?thesis
    using assms(1,2) fetchAndValidate_errors [OF assms(2)]
    by (simp add: get_manifest_def refresh_manifest_def cachedOrError_def)
qed

theorem manifest_outage_witness:
  "fst (get_manifest (\<lambda>_. DoFailed ''refused'') (\<lambda>_. errorf []) (\<lambda>_. 0) (Some demo_platform)
     (store_manifest \<lparr>mf_Models = [demo_entry]\<rparr> demo_platform (- second) 0 (New second))) =
   Inr \<lparr>mf_Models = [demo_entry]\<rparr>"
  by (subst manifest_outage [THEN conjunct1])
     (simp_all add: manifest_fresh_def store_manifest_def New_def fetchAndValidate_def second_def)

text \<open>
  Caching of the manifest. After a fetch stored a manifest, reads under the same configuration
  serve it without contact until the time to live has passed; a read under a configuration with
  another URL or update time fetches again (for keys that differ).
\<close>

lemma manifest_cached:
  assumes "get_manifest mtr je clk (Some cfg) s = (Inr m, s', lg)"
    "\<not> manifest_fresh (clk 0) cfg s" "fetchAndValidate mtr je (pc_ModelsManifestURL cfg) = Inr m"
  shows "(clk' 0 < clk 1 + sv_cacheTTL s \<longrightarrow>
            get_manifest mtr' je' clk' (Some cfg) s' = (Inr m, s', [])) \<and>
         (config_key cfg' \<noteq> config_key cfg \<longrightarrow>
            get_manifest mtr' je' clk' (Some cfg') s' = refresh_manifest mtr' je' clk' cfg' s')"
proof -
  have "s' = store_manifest m cfg (clk 1) (clk 2) s"
    using assms by (simp add: get_manifest_def refresh_manifest_def)
  moreover have "mf_Models m \<noteq> []"
    using fetchAndValidate_sound [OF assms(3)] by (simp add: sound_manifest_def)
  ultimately show ?thesis
    by (simp add: get_manifest_def manifest_fresh_def store_manifest_def)
qed

end
