(* ===== verification/Manifest_Roundtrip.thy ===== *)
theory Manifest_Roundtrip
  imports Manifest Json_Roundtrip
begin

text \<open>
  The manifest between its source and its clients: what was decoded from the source prints to a text
  that decodes to the same manifest.
\<close>

section \<open>Decoding values whose strings are UTF-8\<close>

lemma dec_members_strings:
  assumes step: "\<And>n f v s s'. (n, f) \<in> set fs \<Longrightarrow> strings_ok v \<Longrightarrow> P s \<Longrightarrow> f v s = Some s' \<Longrightarrow> P s'"
  shows "P s \<Longrightarrow> list_all (\<lambda>(k, v). utf8_ok k \<and> strings_ok v) kvs \<Longrightarrow> dec_members fs kvs s = Some s' \<Longrightarrow> P s'"
proof (induction kvs arbitrary: s)
  case (Cons kv kvs)
  obtain k v where kv: "kv = (k, v)" by fastforce
  show ?case
  proof (cases "find_field fs k")
    case (Some nf)
    obtain n f where nf: "nf = (n, f)" by fastforce
    obtain s1 where s1: "f v s = Some s1" "dec_members fs kvs s1 = Some s'"
      using Some nf Cons.prems(3) kv by (auto split: option.splits)
    have "P s1" using find_field_member [OF Some] nf Cons.prems(1,2) kv s1(1) by (auto intro: step)
    then show ?thesis using Cons.IH s1(2) Cons.prems(2) by simp
  qed (use Cons kv in simp)
qed simp

lemma dec_struct_strings:
  assumes "\<And>n f v s s'. (n, f) \<in> set fs \<Longrightarrow> strings_ok v \<Longrightarrow> P s \<Longrightarrow> f v s = Some s' \<Longrightarrow> P s'"
    and "P s" "strings_ok j" "dec_struct fs j s = Some s'"
  shows "P s'"
proof (cases j)
  case (JObj kvs)
  then show ?thesis using dec_members_strings [of fs P s kvs s', OF assms(1)] assms(2-4) by simp
qed (use assms(2-4) in auto)

lemma dec_list_strings:
  assumes "\<And>j x. strings_ok j \<Longrightarrow> d j zero = Some x \<Longrightarrow> P x" "strings_ok j" "dec_list d zero j old = Some xs"
  shows "list_all P xs"
proof (cases j)
  case (JArr js)
  have "list_all P xs" if "list_all strings_ok js" "traverse (\<lambda>j. d j zero) js = Some xs" for js xs
    using that by (induction js arbitrary: xs) (auto split: option.splits intro: assms(1))
  then show ?thesis using JArr assms(2,3) by simp
qed (use assms(3) in auto)

section \<open>Entries\<close>

definition entry_ok :: "Entry \<Rightarrow> bool" where
  "entry_ok e \<longleftrightarrow>
     utf8_ok (en_Version e) \<and> utf8_ok (en_URL e) \<and> utf8_ok (en_SHA256 e) \<and> utf8_ok (en_MinAppVersion e) \<and>
     0 \<le> en_SizeBytes e \<and> en_SizeBytes e < 2 ^ 64 \<and>
     (case en_EvalReportURL e of None \<Rightarrow> True | Some u \<Rightarrow> utf8_ok u)"

lemma dec_string_ok: "strings_ok j \<Longrightarrow> utf8_ok old \<Longrightarrow> dec_string j old = Some s \<Longrightarrow> utf8_ok s"
  by (cases j) auto

lemma undec_nonneg: "list_all is_digit s \<Longrightarrow> 0 \<le> undec s"
proof (induction s rule: rev_induct)
  case (snoc c s)
  then show ?case by (auto simp: undec_snoc digit_val_def is_digit_def)
qed (simp add: undec_def)

lemma entry_fields_ok:
  "(n, f) \<in> set entry_fields \<Longrightarrow> strings_ok v \<Longrightarrow> entry_ok e \<Longrightarrow> f v e = Some e' \<Longrightarrow> entry_ok e'"
  by (cases v; cases "en_EvalReportURL e")
     (auto simp: entry_fields_def field_def entry_ok_def undec_nonneg split: if_splits)

lemma unmarshal_manifest_ok:
  assumes "unmarshal_manifest body = Some m"
  shows "list_all entry_ok (mf_Models m)"
proof -
  obtain j where j: "json_unmarshal body = Some j" "dec_struct
     [field ''models'' (dec_list (dec_struct entry_fields) zero_entry) mf_Models
        (\<lambda>x s. s\<lparr>mf_Models := x\<rparr>)] j empty_manifest = Some m"
    using assms by (auto simp: unmarshal_manifest_def bind_eq_Some_conv)
  have z: "entry_ok zero_entry" by (simp add: entry_ok_def zero_entry_def)
  have e: "entry_ok e" if "strings_ok j" "dec_struct entry_fields j zero_entry = Some e" for j e
    by (rule dec_struct_strings [where P = entry_ok, OF _ z that]) (rule entry_fields_ok)
  show ?thesis
    by (rule dec_struct_strings [where P = "\<lambda>m. list_all entry_ok (mf_Models m)", OF _ _ json_unmarshal_strings [OF j(1)] j(2)])
       (auto simp: field_def empty_manifest_def intro: dec_list_strings [OF e])
qed

section \<open>Printing and decoding\<close>

lemma entry_keys:
  "utf8_ok ''version''" "utf8_ok ''url''" "utf8_ok ''sha256''" "utf8_ok ''sizeBytes''" "utf8_ok ''minAppVersion''"
  "utf8_ok ''evalReportUrl''" "utf8_ok ''models''"
  by code_simp+

lemma entry_json_ok: "entry_ok e \<Longrightarrow> json_ok (entry_json e)"
  by (auto simp: entry_json_def entry_ok_def jint_def num_ok_int entry_keys split: option.splits)

lemma entry_json_depth: "depth (entry_json e) \<le> 1"
  by (auto simp: entry_json_def jint_def split: option.splits)

lemma manifest_json_ok:
  "list_all entry_ok (mf_Models m) \<Longrightarrow> json_ok (manifest_json m) \<and> depth (manifest_json m) \<le> 10000"
  using foldr_max_bound [of "map entry_json (mf_Models m)" depth 1] entry_json_depth
  by (force simp: manifest_json_def entry_keys list_all_iff entry_json_ok)

lemma dec_uint64_int: "0 \<le> n \<Longrightarrow> n < 2 ^ 64 \<Longrightarrow> dec_uint64 (jint n) old = Some n"
  using dec_digits [of n] by (auto simp: jint_def format_int_def list_all_iff)

lemma find_entry_fields:
  "find_field entry_fields ''version'' =
     Some (''version'', \<lambda>j s. map_option (\<lambda>x. s\<lparr>en_Version := x\<rparr>) (dec_string j (en_Version s)))"
  "find_field entry_fields ''url'' =
     Some (''url'', \<lambda>j s. map_option (\<lambda>x. s\<lparr>en_URL := x\<rparr>) (dec_string j (en_URL s)))"
  "find_field entry_fields ''sha256'' =
     Some (''sha256'', \<lambda>j s. map_option (\<lambda>x. s\<lparr>en_SHA256 := x\<rparr>) (dec_string j (en_SHA256 s)))"
  "find_field entry_fields ''sizeBytes'' =
     Some (''sizeBytes'', \<lambda>j s. map_option (\<lambda>x. s\<lparr>en_SizeBytes := x\<rparr>) (dec_uint64 j (en_SizeBytes s)))"
  "find_field entry_fields ''minAppVersion'' =
     Some (''minAppVersion'', \<lambda>j s. map_option (\<lambda>x. s\<lparr>en_MinAppVersion := x\<rparr>) (dec_string j (en_MinAppVersion s)))"
  "find_field entry_fields ''evalReportUrl'' =
     Some (''evalReportUrl'', \<lambda>j s. map_option (\<lambda>x. s\<lparr>en_EvalReportURL := x\<rparr>) (dec_ptr dec_string [] j (en_EvalReportURL s)))"
  by (simp_all add: find_field_def entry_fields_def field_def)

lemma decode_entry: "entry_ok e \<Longrightarrow> dec_struct entry_fields (entry_json e) zero_entry = Some e"
  by (cases "en_EvalReportURL e")
     (simp_all add: entry_json_def find_entry_fields entry_ok_def dec_uint64_int zero_entry_def)

lemma decode_entries: "list_all entry_ok es \<Longrightarrow> traverse (\<lambda>j. dec_struct entry_fields j zero_entry) (map entry_json es) = Some es"
  by (induction es) (simp_all add: decode_entry)

lemma manifest_roundtrip:
  "list_all entry_ok (mf_Models m) \<Longrightarrow> unmarshal_manifest (encode_line (manifest_json m)) = Some m"
  using manifest_json_ok [of m] decode_entries [of "mf_Models m"]
  by (simp add: unmarshal_manifest_def json_roundtrip)
     (simp add: manifest_json_def find_field_def field_def empty_manifest_def)

text \<open>A manifest that some fetch has given.\<close>

definition fetched :: "Manifest \<Rightarrow> bool" where
  "fetched m \<longleftrightarrow> (\<exists>tr je url. fetchAndValidate tr je url = Inr m)"

lemma fetched_sound: "fetched m \<Longrightarrow> sound_manifest m"
  by (auto simp: fetched_def dest: fetchAndValidate_sound)

lemma fetched_roundtrip:
  assumes "fetched m"
  shows "unmarshal_manifest (encode_line (manifest_json m)) = Some m"
proof -
  obtain tr je url where "fetchAndValidate tr je url = Inr m" using assms by (auto simp: fetched_def)
  then obtain code body er where "tr (manifest_request url) = Response code body er"
    "unmarshal_manifest body = Some m"
    by (cases "tr (manifest_request url)")
       (auto simp: fetchAndValidate_def Let_def split: option.split_asm if_split_asm)
  then show ?thesis using manifest_roundtrip unmarshal_manifest_ok by blast
qed

text \<open>What \<open>Get\<close> answers comes from a fetch, now or before.\<close>

lemma get_manifest_fetched:
  assumes "mf_Models (sv_manifest s) = [] \<or> fetched (sv_manifest s)"
    "fst (get_manifest mtr je clk pcfg s) = Inr m"
  shows "fetched m"
proof -
  have cached: "fetched m" if "cachedOrError now s = Inr m" for now
    using that assms(1) by (auto simp: cachedOrError_def split: if_splits)
  have "fetched m" if "fst (refresh_manifest mtr je clk cfg s) = Inr m" for cfg
    using that cached by (auto simp: refresh_manifest_def fetched_def split: sum.splits)
  then show ?thesis
    using assms cached by (auto simp: get_manifest_def manifest_fresh_def split: option.splits if_splits)
qed

lemma Get_fetched:
  "mf_Models (sv_manifest s) = [] \<or> fetched (sv_manifest s) \<Longrightarrow>
   fst (Get ctr mtr je pclk clk core s) = Inr m \<Longrightarrow> fetched m"
  using get_manifest_fetched by (rule_tac Get_parts [of ctr mtr je pclk clk core s]) metis

end
