(* ===== verification/Handler.thy ===== *)
theory Handler
  imports Ratelimit Auth Stream Redact_Props Manifest
begin

text \<open>
  internal/handler: the HTTP handlers over the other components. \<open>Handle\<close> of chat.go is the whole
  request: claims, rate limit, decoding, redaction, routing, tier, provider call, usage event.
  Everything outside the process that one request meets is a field of \<open>chat_env\<close>; the state that
  requests share is the Redis state and the client of the Core Platform. Usage is ingested in a
  goroutine of its own: \<open>Handle\<close> gives the event, \<open>ingestUsage\<close> is that goroutine.
\<close>

section \<open>Timestamps\<close>

text \<open>\<open>t.UTC().Format(time.RFC3339)\<close>: the Gregorian date of a day number, counted from March 1.\<close>

definition civil :: "int \<Rightarrow> int \<times> int \<times> int" where
  "civil day =
     (let z = day + 306; era = z div 146097; doe = z mod 146097;
          yoe = (doe - doe div 1460 + doe div 36524 - doe div 146096) div 365;
          doy = doe - (365 * yoe + yoe div 4 - yoe div 100);
          mp = (5 * doy + 2) div 153;
          m = (if mp < 10 then mp + 3 else mp - 9)
      in (yoe + era * 400 + (if m \<le> 2 then 1 else 0), m, doy - (153 * mp + 2) div 5 + 1))"

definition pad :: "nat \<Rightarrow> int \<Rightarrow> string" where
  "pad w n = (let s = format_int n in replicate (w - length s) (CHR ''0'') @ s)"

definition rfc3339 :: "go_time \<Rightarrow> string" where
  "rfc3339 t =
     (case civil (t div (24 * hour)) of
        (y, m, d) \<Rightarrow>
          pad 4 y @ ''-'' @ pad 2 m @ ''-'' @ pad 2 d @ ''T'' @
          pad 2 (t div hour mod 24) @ '':'' @ pad 2 (t div minute mod 60) @ '':'' @
          pad 2 (t div second mod 60) @ ''Z'')"

section \<open>Redaction of a request\<close>

definition contentAsString :: "json \<Rightarrow> string" where
  "contentAsString content = (case content of JStr s \<Rightarrow> s | _ \<Rightarrow> marshal content)"

definition mergeCategories :: "category list \<Rightarrow> category list \<Rightarrow> category list" where
  "mergeCategories existing add =
     fold (\<lambda>c acc. if c \<in> set acc then acc else acc @ [c]) add existing"

definition empty_redaction :: redact_result where
  "empty_redaction = \<lparr>rr_Content = [], rr_Count = 0, rr_Categories = []\<rparr>"

fun redact_messages ::
    "(string \<Rightarrow> redact_result) \<Rightarrow> ChatMessage list \<Rightarrow> redact_result \<Rightarrow>
     ChatMessage list \<times> redact_result" where
  "redact_messages redact [] tot = ([], tot)"
| "redact_messages redact (m # ms) tot =
     (let got = redact (contentAsString (cm_Content m)) in
      if 0 < rr_Count got
      then (case redact_messages redact ms
                   (tot\<lparr>rr_Count := rr_Count tot + rr_Count got,
                          rr_Categories := mergeCategories (rr_Categories tot)
                                             (rr_Categories got)\<rparr>) of
              (ms', t') \<Rightarrow> (m\<lparr>cm_Content := JStr (rr_Content got)\<rparr> # ms', t'))
      else (case redact_messages redact ms tot of (ms', t') \<Rightarrow> (m # ms', t')))"

text \<open>The engine may be nil (None).\<close>

definition applyRedaction ::
    "(category list \<Rightarrow> category list) \<Rightarrow> engine option \<Rightarrow> ChatRequest \<Rightarrow>
     ChatRequest \<times> redact_result" where
  "applyRedaction order redactor req =
     (case redactor of
        None \<Rightarrow> (req, empty_redaction)
      | Some e \<Rightarrow>
          if \<not> en_enabled e then (req, empty_redaction)
          else (case redact_messages (Redact order e) (cq_Messages req) empty_redaction of
                  (ms, tot) \<Rightarrow> (req\<lparr>cq_Messages := ms\<rparr>, tot)))"

section \<open>Provider errors\<close>

definition is_timeout :: "go_error \<Rightarrow> bool" where
  "is_timeout e \<longleftrightarrow> contains (err_text e) ''504'' \<or> contains (err_text e) ''timeout''"

definition writeProviderError :: "go_error \<Rightarrow> response_writer \<Rightarrow> response_writer" where
  "writeProviderError e w =
     (if is_timeout e then WriteProviderTimeout w else WriteProviderUnavailable w)"

definition mapProviderError :: "go_error \<Rightarrow> string" where
  "mapProviderError e = (if is_timeout e then CodeProviderTimeout else CodeProviderUnavailable)"

text \<open>A writer with a \<open>Size\<close> method tells whether bytes were written; net/http's has none.\<close>

definition headersSent :: "(response_writer \<Rightarrow> int) option \<Rightarrow> response_writer \<Rightarrow> bool" where
  "headersSent sz w = (case sz of None \<Rightarrow> False | Some f \<Rightarrow> 0 < f w)"

section \<open>Usage\<close>

definition usage_event ::
    "claims \<Rightarrow> RouteEntry \<Rightarrow> string \<Rightarrow> ForwardResult \<Rightarrow> string \<Rightarrow> string \<Rightarrow> redact_result \<Rightarrow>
     UsageIngestEvent" where
  "usage_event cl route model result status errCode redaction =
     \<lparr>ue_TraceID = fr_TraceID result, ue_SpanID = fr_SpanID result, ue_ParentSpanID = [],
      ue_UserID = cl_Subject cl, ue_ModelExternalID = model, ue_ProviderID = re_ProviderID route,
      ue_ModelID = re_ModelID route, ue_InputTokens = fr_InputTokens result,
      ue_OutputTokens = fr_OutputTokens result, ue_LatencyMs = fr_LatencyMs result,
      ue_Status = status, ue_ErrorCode = errCode, ue_Tier = cl_SubscriptionTier cl,
      ue_CostUSD = fr_CostUSD result, ue_StartedAt = rfc3339 (fr_StartedAt result),
      ue_EndedAt = rfc3339 (fr_EndedAt result), ue_RedactedCount = int (rr_Count redaction),
      ue_RedactionCategories = rr_Categories redaction\<rparr>"

definition ingestUsage ::
    "transport \<Rightarrow> client \<Rightarrow> go_error \<Rightarrow> claims \<Rightarrow> UsageIngestEvent \<Rightarrow> log_entry list" where
  "ingestUsage tr core marshal_err cl evt =
     (case IngestUsage tr core marshal_err [evt] of
        None \<Rightarrow> []
      | Some e \<Rightarrow>
          [\<lparr>le_level = WarnLevel,
            le_fields = [(''error'', LErr e), (''user_sub'', LStr (cl_Subject cl))],
            le_msg = ''usage ingest failed''\<rparr>])"

section \<open>The chat handler\<close>

text \<open>
  \<open>ce_now\<close> is the clock of the rate limiter; \<open>ce_core\<close>, \<open>ce_core_je\<close> and \<open>ce_core_clk\<close> serve
  \<open>ResolveRoute\<close>; \<open>ce_tr\<close>, \<open>ce_je\<close>, \<open>ce_ids\<close> and \<open>ce_clk\<close> the buffered call and \<open>ce_latency\<close> the
  handler's own measurement of it; \<open>ce_stream\<close> the streamed call.
\<close>

record 'r chat_env =
  ce_limiter :: limiter
  ce_redis :: "'r redis_ops"
  ce_now :: go_time
  ce_order :: "category list \<Rightarrow> category list"
  ce_redactor :: "engine option"
  ce_core :: transport
  ce_core_je :: json_errors
  ce_core_clk :: clock
  ce_tr :: transport
  ce_je :: json_errors
  ce_ids :: fresh_ids
  ce_clk :: clock
  ce_latency :: duration
  ce_stream :: stream_env
  ce_size :: "(response_writer \<Rightarrow> int) option"

record 'r outcome =
  oc_writer :: response_writer
  oc_redis :: 'r
  oc_core :: client
  oc_logs :: "log_entry list"
  oc_usage :: "UsageIngestEvent option"
  oc_sent :: sent

definition stopped ::
    "response_writer \<Rightarrow> 'r \<Rightarrow> client \<Rightarrow> log_entry list \<Rightarrow> 'r outcome" where
  "stopped w r core lg =
     \<lparr>oc_writer = w, oc_redis = r, oc_core = core, oc_logs = lg, oc_usage = None, oc_sent = []\<rparr>"

definition provider_error_log :: "go_error \<Rightarrow> string \<Rightarrow> claims \<Rightarrow> int \<Rightarrow> log_entry" where
  "provider_error_log e model cl latency =
     \<lparr>le_level = ErrorLevel,
      le_fields = [(''error'', LErr e), (''model'', LStr model),
                   (''user_sub'', LStr (cl_Subject cl)), (''latency_ms'', LInt latency)],
      le_msg = ''provider error''\<rparr>"

definition stream_error_log :: "go_error \<Rightarrow> string \<Rightarrow> claims \<Rightarrow> log_entry" where
  "stream_error_log e model cl =
     \<lparr>le_level = ErrorLevel,
      le_fields = [(''error'', LErr e), (''model'', LStr model),
                   (''user_sub'', LStr (cl_Subject cl))],
      le_msg = ''provider stream error''\<rparr>"

definition routing_log :: "ChatRequest \<Rightarrow> claims \<Rightarrow> RouteEntry \<Rightarrow> redact_result \<Rightarrow> log_entry" where
  "routing_log req cl route redaction =
     \<lparr>le_level = InfoLevel,
      le_fields = [(''model'', LStr (cq_Model req)), (''user_sub'', LStr (cl_Subject cl)),
                   (''tier'', LStr (cl_SubscriptionTier cl)),
                   (''provider_type'', LStr (re_ProviderType route)),
                   (''provider_id'', LStr (re_ProviderID route)),
                   (''stream'', LBool (cq_Stream req)),
                   (''redacted_count'', LInt (int (rr_Count redaction)))],
      le_msg = ''routing request''\<rparr>"

definition limit_failed_log :: "go_error \<Rightarrow> claims \<Rightarrow> log_entry" where
  "limit_failed_log e cl =
     \<lparr>le_level = WarnLevel,
      le_fields = [(''error'', LErr e), (''user_sub'', LStr (cl_Subject cl)),
                   (''bucket'', LStr (cl_RateLimitBucket cl))],
      le_msg = ''rate limit check failed''\<rparr>"

text \<open>What a provider call gives: the writer, the log entries, the usage event, the requests sent.\<close>

type_synonym call_outcome = "response_writer \<times> log_entry list \<times> UsageIngestEvent \<times> sent"

definition handleBuffered ::
    "'r chat_env \<Rightarrow> claims \<Rightarrow> RouteEntry \<Rightarrow> ChatRequest \<Rightarrow> redact_result \<Rightarrow> response_writer \<Rightarrow>
     call_outcome" where
  "handleBuffered env cl route req redaction w =
     (case Forward (ce_tr env) (ce_je env) (ce_ids env) (ce_clk env) route req of
        (result, Some e, sent) \<Rightarrow>
          (writeProviderError e w,
           [provider_error_log e (cq_Model req) cl (milliseconds (ce_latency env))],
           usage_event cl route (cq_Model req) result ''error'' (mapProviderError e) redaction, sent)
      | (result, None, sent) \<Rightarrow>
          (write_body (encode_line (response_json (fr_Response result)))
             (set_header ''Content-Type'' ''application/json'' w),
           [],
           usage_event cl route (cq_Model req) result ''ok'' [] redaction, sent))"

definition stream_forward :: "StreamForwardResult \<Rightarrow> ForwardResult" where
  "stream_forward r =
     \<lparr>fr_Response = zero_response, fr_InputTokens = sf_InputTokens r,
      fr_OutputTokens = sf_OutputTokens r, fr_LatencyMs = sf_LatencyMs r,
      fr_TraceID = sf_TraceID r, fr_SpanID = sf_SpanID r, fr_StartedAt = sf_StartedAt r,
      fr_EndedAt = sf_EndedAt r, fr_CostUSD = sf_CostUSD r\<rparr>"

definition handleStream ::
    "'r chat_env \<Rightarrow> claims \<Rightarrow> RouteEntry \<Rightarrow> ChatRequest \<Rightarrow> redact_result \<Rightarrow> response_writer \<Rightarrow>
     call_outcome" where
  "handleStream env cl route req redaction w =
     (case ForwardStream (ce_tr env) (ce_stream env) route req w of
        (result, None, w1, sent) \<Rightarrow>
          (w1, [], usage_event cl route (cq_Model req) (stream_forward result) ''ok'' [] redaction,
           sent)
      | (result, Some e, w1, sent) \<Rightarrow>
          (if headersSent (ce_size env) w1 then w1
           else if contains (err_text e) ''not supported for gemini''
           then WriteStreamingNotSupported (re_ProviderType route) w1
           else writeProviderError e w1,
           [stream_error_log e (cq_Model req) cl],
           usage_event cl route (cq_Model req) (stream_forward result) ''error''
             (mapProviderError e) redaction, sent))"

text \<open>The call of the provider, buffered or streamed.\<close>

definition call_chat ::
    "'r chat_env \<Rightarrow> claims \<Rightarrow> RouteEntry \<Rightarrow> ChatRequest \<Rightarrow> redact_result \<Rightarrow> response_writer \<Rightarrow>
     call_outcome" where
  "call_chat env cl route req redaction w =
     (if cq_Stream req then handleStream else handleBuffered) env cl route req redaction w"

definition limit_headers :: "CheckResult \<Rightarrow> response_writer \<Rightarrow> response_writer" where
  "limit_headers rl w =
     set_header ''X-RateLimit-Reset'' (format_int (time_unix (cr_Reset rl)))
       (set_header ''X-RateLimit-Remaining'' (format_int (cr_Remaining rl))
         (set_header ''X-RateLimit-Limit'' (format_int (cr_Limit rl)) w))"

definition required_fields :: "(string \<times> json) list" where
  "required_fields = [(''required'', JArr [JStr ''model'', JStr ''messages''])]"

text \<open>The handler from the admitted request on.\<close>

definition serve_chat ::
    "'r chat_env \<Rightarrow> claims \<Rightarrow> string \<Rightarrow> 'r \<Rightarrow> client \<Rightarrow> log_entry list \<Rightarrow> response_writer \<Rightarrow>
     'r outcome" where
  "serve_chat env cl body r core lg w =
     (case decode_request body of
        None \<Rightarrow>
          stopped (WriteInvalidRequest ''Request body must be valid JSON.'' [] w) r core lg
      | Some req0 \<Rightarrow>
          if cq_Model req0 = [] \<or> cq_Messages req0 = []
          then stopped (WriteInvalidRequest ''Fields 'model' and 'messages' are required.''
                          required_fields w) r core lg
          else
            (case applyRedaction (ce_order env) (ce_redactor env) req0 of
               (req, redaction) \<Rightarrow>
                 (let w1 = (if 0 < rr_Count redaction
                            then set_header ''X-Redaction-Count''
                                   (format_int (int (rr_Count redaction))) w
                            else w)
                  in case ResolveRoute (ce_core env) (ce_core_je env) (ce_core_clk env)
                            (cq_Model req) core of
                       (Inl e, core') \<Rightarrow>
                         stopped
                           (if errors_is e ErrRoutingEmpty \<or> errors_is e ErrRoutingUnavailable
                            then WriteRoutingUnavailable w1
                            else WriteModelNotAvailable (cq_Model req) w1) r core' lg
                     | (Inr route, core') \<Rightarrow>
                         if \<not> TierAllows (cl_SubscriptionTier cl) (re_TierMin route)
                         then stopped
                                (WriteModelTierDenied (cq_Model req) (cl_SubscriptionTier cl)
                                   (re_TierMin route) w1) r core' lg
                         else
                           (case call_chat env cl route req redaction w1 of
                              (w2, lg2, evt, sent) \<Rightarrow>
                                \<lparr>oc_writer = w2, oc_redis = r, oc_core = core',
                                 oc_logs = lg @ routing_log req cl route redaction # lg2,
                                 oc_usage = Some evt, oc_sent = sent\<rparr>))))"

definition Handle ::
    "'r chat_env \<Rightarrow> claims option \<Rightarrow> string \<Rightarrow> 'r \<Rightarrow> client \<Rightarrow> response_writer \<Rightarrow>
     'r outcome" where
  "Handle env claims body r core w =
     (case claims of
        None \<Rightarrow> stopped (WriteUnauthorized w) r core []
      | Some cl \<Rightarrow>
          (case Check (ce_limiter env) (ce_redis env) (cl_Subject cl) (cl_RateLimitBucket cl)
                  (ce_now env) r of
             (Inl (LimitError d), r', lg) \<Rightarrow>
               stopped (WriteRateLimitExceeded (whole_seconds d) w) r' core lg
           | (Inl (CheckFailed e), r', lg) \<Rightarrow>
               stopped (WriteRateLimitUnavailable w) r' core (lg @ [limit_failed_log e cl])
           | (Inr rl, r', lg) \<Rightarrow> serve_chat env cl body r' core lg (limit_headers rl w)))"

section \<open>Redaction: lemmas\<close>

lemma mergeCategories_set: "set (mergeCategories xs ys) = set xs \<union> set ys"
proof -
  have "set (fold (\<lambda>c acc. if c \<in> set acc then acc else acc @ [c]) ys xs) = set xs \<union> set ys"
    by (induction ys arbitrary: xs) auto
  then show ?thesis by (simp add: mergeCategories_def)
qed

lemma mergeCategories_distinct: "distinct xs \<Longrightarrow> distinct (mergeCategories xs ys)"
proof -
  have "distinct xs \<Longrightarrow> distinct (fold (\<lambda>c acc. if c \<in> set acc then acc else acc @ [c]) ys xs)"
    by (induction ys arbitrary: xs) auto
  then show "distinct xs \<Longrightarrow> distinct (mergeCategories xs ys)" by (simp add: mergeCategories_def)
qed

definition redacted_message :: "(string \<Rightarrow> redact_result) \<Rightarrow> ChatMessage \<Rightarrow> ChatMessage" where
  "redacted_message redact m =
     (let got = redact (contentAsString (cm_Content m)) in
      if 0 < rr_Count got then m\<lparr>cm_Content := JStr (rr_Content got)\<rparr> else m)"

lemma redact_messages_spec:
  "redact_messages redact ms tot = (ms', tot') \<Longrightarrow>
   ms' = map (redacted_message redact) ms \<and>
   rr_Count tot' = rr_Count tot +
     sum_list (map (\<lambda>m. rr_Count (redact (contentAsString (cm_Content m)))) ms) \<and>
   set (rr_Categories tot') = set (rr_Categories tot) \<union>
     (\<Union>m \<in> {m \<in> set ms. 0 < rr_Count (redact (contentAsString (cm_Content m)))}.
        set (rr_Categories (redact (contentAsString (cm_Content m))))) \<and>
   (distinct (rr_Categories tot) \<longrightarrow> distinct (rr_Categories tot'))"
proof (induction redact ms tot arbitrary: ms' tot' rule: redact_messages.induct)
  case (1 redact tot)
  then show ?case by simp
next
  case (2 redact m ms tot)
  let ?got = "redact (contentAsString (cm_Content m))"
  let ?tot = "if 0 < rr_Count ?got
    then tot\<lparr>rr_Count := rr_Count tot + rr_Count ?got,
             rr_Categories := mergeCategories (rr_Categories tot) (rr_Categories ?got)\<rparr> else tot"
  obtain ms1 where r: "redact_messages redact ms ?tot = (ms1, tot')"
    "ms' = redacted_message redact m # ms1"
    using "2.prems"
    by (auto simp: redacted_message_def Let_def split: prod.splits if_splits)
  show ?case
  proof (cases "0 < rr_Count ?got")
    case True
    show ?thesis
      using "2.IH"(1) [OF refl True, of ms1 tot'] r True
      by (auto simp: mergeCategories_set mergeCategories_distinct)
  next
    case False
    show ?thesis using "2.IH"(2) [OF refl False, of ms1 tot'] r False by auto
  qed
qed

lemma applyRedaction_keeps:
  "applyRedaction order redactor req = (req', red) \<Longrightarrow>
   cq_Model req' = cq_Model req \<and> cq_Stream req' = cq_Stream req \<and>
   cq_Temperature req' = cq_Temperature req \<and> cq_MaxTokens req' = cq_MaxTokens req"
  by (auto simp: applyRedaction_def split: option.splits prod.splits if_splits)

lemma applyRedaction_no_rules:
  assumes "applyRedaction order (Some e) req = (req', red)" "en_rules e = []"
  shows "req' = req \<and> rr_Count red = 0"
proof (cases "en_enabled e")
  case True
  have r: "rr_Count (Redact order e s) = 0" for s using assms(2) by (simp add: Redact_def)
  obtain ms tot where m: "redact_messages (Redact order e) (cq_Messages req) empty_redaction = (ms, tot)"
    by fastforce
  have "redacted_message (Redact order e) = id" by (rule ext) (simp add: redacted_message_def r)
  then have "ms = cq_Messages req" "rr_Count tot = 0"
    using redact_messages_spec [OF m] by (simp_all add: r empty_redaction_def)
  then show ?thesis using assms(1) m True by (simp add: applyRedaction_def)
next
  case False
  then show ?thesis using assms(1) by (auto simp: applyRedaction_def empty_redaction_def)
qed

section \<open>The branches of the chat handler\<close>

text \<open>The one request that a chat makes to its provider, if it makes one.\<close>

definition provider_request :: "RouteEntry \<Rightarrow> ChatRequest \<Rightarrow> http_request" where
  "provider_request route req =
     (if re_ProviderType route = ''anthropic'' then anthropic_request route req (cq_Stream req)
      else if re_ProviderType route = ''gemini'' then gemini_request route req
      else openai_request route req (cq_Stream req))"

text \<open>What the handler has done to a writer before it answers, and its answers without a call.\<close>

definition counted_header :: "response_writer \<Rightarrow> response_writer \<Rightarrow> bool" where
  "counted_header w w1 \<longleftrightarrow> w1 = w \<or> (\<exists>v. w1 = set_header ''X-Redaction-Count'' v w)"

inductive refusal :: "response_writer \<Rightarrow> response_writer \<Rightarrow> bool" where
  bad_json: "counted_header w w1 \<Longrightarrow>
     refusal w (WriteInvalidRequest ''Request body must be valid JSON.'' [] w1)"
| missing: "counted_header w w1 \<Longrightarrow>
     refusal w (WriteInvalidRequest ''Fields 'model' and 'messages' are required.'' required_fields w1)"
| no_routing: "counted_header w w1 \<Longrightarrow> refusal w (WriteRoutingUnavailable w1)"
| no_model: "counted_header w w1 \<Longrightarrow> refusal w (WriteModelNotAvailable m w1)"
| tier_denied: "counted_header w w1 \<Longrightarrow> refusal w (WriteModelTierDenied m t n w1)"

inductive_cases refusalE: "refusal w w2"

lemma counted_header_refl: "counted_header w w"
  by (simp add: counted_header_def)

lemma serve_chat_cases:
  assumes "serve_chat env cl body r core lg w = oc"
  obtains (refused) w2 core' where "oc = stopped w2 r core' lg" "client_step\<^sup>*\<^sup>* core core'" "refusal w w2"
  | (called) req0 req red route core' w1 w2 lg2 evt sent where
      "decode_request body = Some req0"
      "applyRedaction (ce_order env) (ce_redactor env) req0 = (req, red)"
      "counted_header w w1"
      "ResolveRoute (ce_core env) (ce_core_je env) (ce_core_clk env) (cq_Model req) core =
         (Inr route, core')"
      "TierAllows (cl_SubscriptionTier cl) (re_TierMin route)"
      "call_chat env cl route req red w1 = (w2, lg2, evt, sent)"
      "oc = \<lparr>oc_writer = w2, oc_redis = r, oc_core = core',
             oc_logs = lg @ routing_log req cl route red # lg2, oc_usage = Some evt,
             oc_sent = sent\<rparr>"
proof (cases "decode_request body")
  case None
  then have "oc = stopped (WriteInvalidRequest ''Request body must be valid JSON.'' [] w) r core lg"
    using assms by (simp add: serve_chat_def)
  then show thesis by (rule refused) (auto intro: refusal.intros counted_header_refl)
next
  case (Some req0)
  show thesis
  proof (cases "cq_Model req0 = [] \<or> cq_Messages req0 = []")
    case True
    then have "oc = stopped (WriteInvalidRequest ''Fields 'model' and 'messages' are required.''
        required_fields w) r core lg"
      using assms Some by (simp add: serve_chat_def)
    then show thesis by (rule refused) (auto intro: refusal.intros counted_header_refl)
  next
    case valid: False
    obtain req red where a: "applyRedaction (ce_order env) (ce_redactor env) req0 = (req, red)"
      by fastforce
    define w1 where "w1 = (if 0 < rr_Count red
      then set_header ''X-Redaction-Count'' (format_int (int (rr_Count red))) w else w)"
    have w1: "counted_header w w1" by (auto simp: w1_def counted_header_def)
    obtain res core' where rr:
      "ResolveRoute (ce_core env) (ce_core_je env) (ce_core_clk env) (cq_Model req) core = (res, core')"
      by fastforce
    have steps: "client_step\<^sup>*\<^sup>* core core'"
      using ResolveRoute_steps [of core "ce_core env" "ce_core_je env" "ce_core_clk env" "cq_Model req"] rr
      by simp
    note unfolded = assms [unfolded serve_chat_def Some a Let_def option.case prod.case if_not_P [OF valid]
        w1_def [symmetric] rr]
    show thesis
    proof (cases res)
      case (Inl e)
      then have "oc = stopped (if errors_is e ErrRoutingEmpty \<or> errors_is e ErrRoutingUnavailable
          then WriteRoutingUnavailable w1 else WriteModelNotAvailable (cq_Model req) w1) r core' lg"
        using unfolded by simp
      then show thesis by (rule refused [OF _ steps]) (auto intro: refusal.intros w1)
    next
      case (Inr route)
      show thesis
      proof (cases "TierAllows (cl_SubscriptionTier cl) (re_TierMin route)")
        case False
        then have "oc = stopped (WriteModelTierDenied (cq_Model req) (cl_SubscriptionTier cl)
            (re_TierMin route) w1) r core' lg"
          using unfolded Inr by simp
        then show thesis by (rule refused [OF _ steps]) (auto intro: refusal.intros w1)
      next
        case True
        obtain w2 lg2 evt sent where c: "call_chat env cl route req red w1 = (w2, lg2, evt, sent)"
          using prod_cases4 by blast
        have "oc = \<lparr>oc_writer = w2, oc_redis = r, oc_core = core',
            oc_logs = lg @ routing_log req cl route red # lg2, oc_usage = Some evt, oc_sent = sent\<rparr>"
          using unfolded Inr True c by simp
        with Some a w1 rr [unfolded Inr] True c show thesis by (rule called)
      qed
    qed
  qed
qed

lemma counted_header_untouched: "counted_header w w1 \<Longrightarrow> untouched w \<Longrightarrow> untouched w1"
  by (auto simp: counted_header_def)

lemma refusal_reply:
  "refusal w w2 \<Longrightarrow> untouched w \<Longrightarrow>
   error_reply 400 ''invalid_request'' w2 \<or> error_reply 503 ''routing_unavailable'' w2 \<or>
   error_reply 404 ''model_not_available'' w2 \<or> error_reply 403 ''model_tier_denied'' w2"
  by (induction rule: refusal.induct)
     (auto simp: required_fields_def dest: counted_header_untouched intro: error_writers)

lemma call_error_reply:
  "untouched w \<Longrightarrow> error_reply 502 ''provider_unavailable'' (writeProviderError e w) \<and> \<not> is_timeout e \<or>
   error_reply 504 ''provider_timeout'' (writeProviderError e w) \<and> is_timeout e"
  by (auto simp: writeProviderError_def intro: error_writers)

text \<open>The outcomes of a call of the provider on an untouched writer without a \<open>Size\<close> method.\<close>

lemma openai_loop_sent:
  "rw_sent u \<noteq> None \<Longrightarrow> rw_sent (snd (openai_loop f ls k u)) = rw_sent u"
  by (induction f ls k u rule: openai_loop.induct) (auto simp: try_write_def)

lemma anthropic_loop_sent:
  "rw_sent u \<noteq> None \<Longrightarrow> rw_sent (snd (anthropic_loop f clk t m ls i k u)) = rw_sent u"
  by (induction f clk t m ls i k u rule: anthropic_loop.induct)
     (auto simp: try_write_def split: option.splits)

lemma try_write_sent: "rw_sent u \<noteq> None \<Longrightarrow> rw_sent (snd (try_write f bs u)) = rw_sent u"
  by (auto simp: try_write_def)

lemma openai_ok_sent:
  assumes "forwardOpenAIStream tr env route req w = (res, None, w', sent)"
  shows "rw_sent w' = rw_sent (start_stream w)"
proof -
  obtain body where "open_stream tr env (openai_request route req True) = (Inr body, sent)"
    using assms by (auto simp: forwardOpenAIStream_def Let_def split: prod.splits sum.splits)
  then have "w' = snd (openai_loop (se_fail env) (fst (scan_lines body)) 0 (start_stream w))"
    using assms by (auto simp: forwardOpenAIStream_def Let_def split: prod.splits)
  then show ?thesis using openai_loop_sent start_stream_fields(3) by metis
qed

lemma anthropic_ok_sent:
  assumes "forwardAnthropicStream tr env route req w = (res, None, w', sent)"
  shows "rw_sent w' = rw_sent (start_stream w)"
proof -
  obtain body where "open_stream tr env (anthropic_request route req True) = (Inr body, sent)"
    using assms by (auto simp: forwardAnthropicStream_def Let_def split: prod.splits sum.splits)
  then have "w' = snd (try_write (se_fail env) sse_done (snd (anthropic_loop (se_fail env)
      (se_chunk_clk env) (fst (se_ids env)) (re_ExternalID route) (fst (scan_lines body)) 0 0
      (start_stream w))))"
    using assms by (auto simp: forwardAnthropicStream_def Let_def split: prod.splits)
  then show ?thesis using anthropic_loop_sent try_write_sent start_stream_fields(3) by metis
qed

lemma ForwardStream_ok_sent:
  "ForwardStream tr env route req w = (res, None, w', sent) \<Longrightarrow> rw_sent w' = rw_sent (start_stream w)"
  by (auto simp: ForwardStream_def split: if_splits dest: openai_ok_sent anthropic_ok_sent)

lemma start_stream_sent:
  "untouched w \<Longrightarrow> rw_sent (start_stream w) = Some (200, header_set (header_set (header_set (rw_header w)
     ''Content-Type'' ''text/event-stream'') ''Cache-Control'' ''no-cache'') ''Connection'' ''keep-alive'')"
  by (simp add: start_stream_def untouched_def)

lemma ForwardStream_error_writer:
  "ForwardStream tr env route req w = (res, Some e, w', sent) \<Longrightarrow> w' = w"
  by (auto simp: ForwardStream_def forwardOpenAIStream_def forwardAnthropicStream_def Let_def
      split: if_splits sum.splits prod.splits)

text \<open>The outcomes of a provider call on an untouched writer that has no \<open>Size\<close> method.\<close>

lemma call_chat_reply:
  assumes "call_chat env cl route req red w = (w2, lg, evt, sent)" "untouched w" "ce_size env = None"
  shows "rw_status w2 = 200 \<and> ue_Status evt = ''ok'' \<and> ue_ErrorCode evt = [] \<or>
    ue_Status evt = ''error'' \<and>
      (error_reply 502 ''provider_unavailable'' w2 \<and> ue_ErrorCode evt = ''provider_unavailable'' \<or>
       error_reply 504 ''provider_timeout'' w2 \<and> ue_ErrorCode evt = ''provider_timeout'' \<or>
       error_reply 501 ''streaming_not_supported'' w2)"
proof (cases "cq_Stream req")
  case False
  obtain res err where f: "Forward (ce_tr env) (ce_je env) (ce_ids env) (ce_clk env) route req = (res, err, sent)"
    using assms(1) False by (auto simp: call_chat_def handleBuffered_def split: prod.splits option.splits)
  show ?thesis
  proof (cases err)
    case None
    then show ?thesis
      using assms False f
      by (auto simp: call_chat_def handleBuffered_def usage_event_def rw_status_def untouched_def)
  next
    case (Some e)
    then have "w2 = writeProviderError e w" "ue_Status evt = ''error''"
      "ue_ErrorCode evt = mapProviderError e"
      using assms False f by (auto simp: call_chat_def handleBuffered_def usage_event_def)
    then show ?thesis
      using call_error_reply [OF assms(2), of e] by (auto simp: mapProviderError_def code_defs)
  qed
next
  case True
  obtain res err w1 where f: "ForwardStream (ce_tr env) (ce_stream env) route req w = (res, err, w1, sent)"
    using assms(1) True by (auto simp: call_chat_def handleStream_def split: prod.splits option.splits)
  show ?thesis
  proof (cases err)
    case None
    then have "rw_status w1 = 200"
      using ForwardStream_ok_sent [of _ _ route req w res w1 sent] f start_stream_sent [OF assms(2)]
      by (auto simp: rw_status_def)
    then show ?thesis
      using assms True f None by (auto simp: call_chat_def handleStream_def usage_event_def)
  next
    case (Some e)
    then have w1: "w1 = w" using f ForwardStream_error_writer by blast
    have evt: "ue_Status evt = ''error''" "ue_ErrorCode evt = mapProviderError e"
      using assms True f Some by (auto simp: call_chat_def handleStream_def usage_event_def)
    have "w2 = (if contains (err_text e) ''not supported for gemini''
        then WriteStreamingNotSupported (re_ProviderType route) w else writeProviderError e w)"
      using assms True f Some w1 by (auto simp: call_chat_def handleStream_def headersSent_def)
    then show ?thesis
      using evt call_error_reply [OF assms(2), of e] error_writers(10) [OF assms(2)]
      by (auto simp: mapProviderError_def code_defs)
  qed
qed

text \<open>Headers that no branch of the handler sets again come through to the client.\<close>

definition plain_key :: "string \<Rightarrow> bool" where
  "plain_key k \<longleftrightarrow>
     list_all (\<lambda>h. canonical_key k \<noteq> canonical_key h)
       [''Content-Type'', ''X-Redaction-Count'', ''Cache-Control'', ''Connection'']"

lemma counted_header_kept:
  "counted_header w w1 \<Longrightarrow> plain_key k \<Longrightarrow> header_get (rw_header w1) k = header_get (rw_header w) k"
  by (auto simp: counted_header_def plain_key_def header_get_set)

lemma Write_plain:
  "untouched w \<Longrightarrow> plain_key k \<Longrightarrow>
   rw_sent_header (Write st code m d w) k = header_get (rw_header w) k"
  by (rule Write_header_kept) (auto simp: plain_key_def)

lemma refusal_header:
  "refusal w w2 \<Longrightarrow> untouched w \<Longrightarrow> plain_key k \<Longrightarrow> rw_sent_header w2 k = header_get (rw_header w) k"
  by (induction rule: refusal.induct)
     (auto simp: write_defs Write_plain counted_header_untouched counted_header_kept)

lemma call_header:
  assumes "call_chat env cl route req red w = (w2, lg, evt, sent)" "untouched w" "ce_size env = None"
    "plain_key k"
  shows "rw_sent_header w2 k = header_get (rw_header w) k"
proof -
  have err: "rw_sent_header (writeProviderError e w) k = header_get (rw_header w) k"
    "rw_sent_header (WriteStreamingNotSupported t w) k = header_get (rw_header w) k" for e t
    using assms(2,4) by (simp_all add: writeProviderError_def write_defs Write_plain)
  show ?thesis
  proof (cases "cq_Stream req")
    case False
    obtain res er where f: "Forward (ce_tr env) (ce_je env) (ce_ids env) (ce_clk env) route req = (res, er, sent)"
      using assms(1) False by (auto simp: call_chat_def handleBuffered_def split: prod.splits option.splits)
    show ?thesis
    proof (cases er)
      case None
      then show ?thesis
        using assms False f
        by (auto simp: call_chat_def handleBuffered_def rw_sent_header_def untouched_def
            header_get_set plain_key_def)
    next
      case (Some e)
      then show ?thesis
        using assms(1) False f err(1) by (auto simp: call_chat_def handleBuffered_def)
    qed
  next
    case True
    obtain res er w1 where f: "ForwardStream (ce_tr env) (ce_stream env) route req w = (res, er, w1, sent)"
      using assms(1) True by (auto simp: call_chat_def handleStream_def split: prod.splits option.splits)
    show ?thesis
    proof (cases er)
      case None
      then have "rw_sent w1 = rw_sent (start_stream w)" using f ForwardStream_ok_sent by blast
      then have "rw_sent_header w1 k = header_get (rw_header w) k"
        using assms(4) by (auto simp: rw_sent_header_def start_stream_sent [OF assms(2)]
            header_get_set plain_key_def)
      then show ?thesis
        using assms(1) True f None by (auto simp: call_chat_def handleStream_def)
    next
      case (Some e)
      then have "w1 = w" using f ForwardStream_error_writer by blast
      then show ?thesis
        using assms True f Some err
        by (auto simp: call_chat_def handleStream_def headersSent_def split: if_splits)
    qed
  qed
qed

lemma serve_chat_header:
  assumes "untouched w" "ce_size env = None" "plain_key k"
  shows "rw_sent_header (oc_writer (serve_chat env cl body r core lg w)) k = header_get (rw_header w) k"
proof (cases rule: serve_chat_cases [OF refl, of env cl body r core lg w])
  case (1 w2 core')
  then show ?thesis using refusal_header assms by (simp add: stopped_def)
next
  case (2 req0 req red route core' w1 w2 lg2 evt sent)
  then show ?thesis
    using call_header [OF 2(6) _ assms(2,3)] counted_header_untouched [OF 2(3) assms(1)]
      counted_header_kept [OF 2(3) assms(3)] by simp
qed

lemma limit_header_keys:
  "plain_key ''X-RateLimit-Limit''" "plain_key ''X-RateLimit-Remaining''" "plain_key ''X-RateLimit-Reset''"
  "canonical_key ''X-RateLimit-Limit'' \<noteq> canonical_key ''X-RateLimit-Remaining''"
  "canonical_key ''X-RateLimit-Limit'' \<noteq> canonical_key ''X-RateLimit-Reset''"
  "canonical_key ''X-RateLimit-Remaining'' \<noteq> canonical_key ''X-RateLimit-Reset''"
  by code_simp+

lemma limit_headers_get:
  "header_get (rw_header (limit_headers rl w)) ''X-RateLimit-Limit'' = format_int (cr_Limit rl)"
  "header_get (rw_header (limit_headers rl w)) ''X-RateLimit-Remaining'' = format_int (cr_Remaining rl)"
  "header_get (rw_header (limit_headers rl w)) ''X-RateLimit-Reset'' = format_int (time_unix (cr_Reset rl))"
  using limit_header_keys by (simp_all add: limit_headers_def header_get_set)

lemma limit_headers_untouched: "untouched (limit_headers rl w) = untouched w"
  by (simp add: limit_headers_def)

text \<open>A provider call depends on the transport at one request only.\<close>

lemma call_chat_transport:
  assumes "tr' (provider_request route req) = ce_tr env (provider_request route req)"
  shows "call_chat (env\<lparr>ce_tr := tr'\<rparr>) cl route req red w = call_chat env cl route req red w"
proof (cases "cq_Stream req")
  case False
  have "dispatch_provider tr' je ids clk route req = dispatch_provider (ce_tr env) je ids clk route req"
    for je ids clk
    using assms False
    by (cases "re_ProviderType route = ''anthropic''"; cases "re_ProviderType route = ''gemini''")
       (simp_all add: dispatch_provider_def forwardAnthropic_def forwardGemini_def
        forwardOpenAICompatible_def call_provider_def provider_request_def)
  then have "Forward tr' je ids clk route req = Forward (ce_tr env) je ids clk route req" for je ids clk
    by (simp add: Forward_def)
  then show ?thesis
    using False by (simp add: call_chat_def handleBuffered_def split: prod.split option.split)
next
  case True
  have "ForwardStream tr' se route req w = ForwardStream (ce_tr env) se route req w" for se
    using assms True
    by (cases "re_ProviderType route = ''anthropic''"; cases "re_ProviderType route = ''gemini''")
       (simp_all add: ForwardStream_def forwardOpenAIStream_def forwardAnthropicStream_def
        open_stream_def provider_request_def)
  then show ?thesis
    using True by (simp add: call_chat_def handleStream_def split: prod.split option.split)
qed

text \<open>
  What is sent to a provider: the one request, unless it cannot be built or asks Gemini for a stream.
\<close>

definition no_request :: "transport \<Rightarrow> RouteEntry \<Rightarrow> ChatRequest \<Rightarrow> bool" where
  "no_request tr route req \<longleftrightarrow>
     cq_Stream req \<and> re_ProviderType route = ''gemini'' \<or>
     (case tr (provider_request route req) of ReqInvalid e \<Rightarrow> True | _ \<Rightarrow> False)"

lemma call_provider_snd:
  "snd (call_provider tr rq) = (case tr rq of ReqInvalid e \<Rightarrow> [] | _ \<Rightarrow> [rq])"
  by (simp add: call_provider_def split: http_result.split)

lemma open_stream_snd:
  "snd (open_stream tr env rq) = (case tr rq of ReqInvalid e \<Rightarrow> [] | _ \<Rightarrow> [rq])"
  by (simp add: open_stream_def split: http_result.split)

lemma forward_snd:
  "snd (forwardOpenAICompatible tr je route req) = snd (call_provider tr (openai_request route req False))"
  "snd (forwardAnthropic tr je now route req) = snd (call_provider tr (anthropic_request route req False))"
  "snd (forwardGemini tr je rid now route req) = snd (call_provider tr (gemini_request route req))"
  by (simp_all add: forwardOpenAICompatible_def forwardAnthropic_def forwardGemini_def
      split: prod.split sum.split)

lemma Forward_snd: "snd (snd (Forward tr je ids clk route req)) = snd (dispatch_provider tr je ids clk route req)"
  by (simp add: Forward_def Let_def split: prod.split sum.split)

lemma Forward_sent:
  "\<not> cq_Stream req \<Longrightarrow>
   snd (snd (Forward tr je ids clk route req)) =
     (if no_request tr route req then [] else [provider_request route req])"
  by (simp add: Forward_snd dispatch_provider_def forward_snd call_provider_snd provider_request_def
      no_request_def split: http_result.split)

lemma stream_snd:
  "snd (snd (snd (forwardOpenAIStream tr se route req w))) =
     snd (open_stream tr se (openai_request route req True))"
  "snd (snd (snd (forwardAnthropicStream tr se route req w))) =
     snd (open_stream tr se (anthropic_request route req True))"
  by (simp_all add: forwardOpenAIStream_def forwardAnthropicStream_def Let_def
      split: prod.split sum.split)

lemma ForwardStream_sent:
  "cq_Stream req \<Longrightarrow>
   snd (snd (snd (ForwardStream tr se route req w))) =
     (if no_request tr route req then [] else [provider_request route req])"
  by (simp add: ForwardStream_def stream_snd open_stream_snd provider_request_def no_request_def
      split: http_result.split)

lemma call_chat_sent:
  assumes "call_chat env cl route req red w = (w2, lg, evt, sent)"
  shows "sent = (if no_request (ce_tr env) route req then [] else [provider_request route req])"
proof (cases "cq_Stream req")
  case False
  have "sent = snd (snd (Forward (ce_tr env) (ce_je env) (ce_ids env) (ce_clk env) route req))"
    using assms False by (auto simp: call_chat_def handleBuffered_def split: prod.splits option.splits)
  then show ?thesis using Forward_sent [OF False] by simp
next
  case True
  have "sent = snd (snd (snd (ForwardStream (ce_tr env) (ce_stream env) route req w)))"
    using assms True by (auto simp: call_chat_def handleStream_def split: prod.splits option.splits)
  then show ?thesis using ForwardStream_sent [OF True] by simp
qed

text \<open>A call that succeeds has sent its request.\<close>

lemma call_provider_Inr: "call_provider tr rq = (Inr raw, sent) \<Longrightarrow> sent = [rq]"
  by (auto simp: call_provider_def split: http_result.splits)

lemma open_stream_Inr: "open_stream tr env rq = (Inr body, sent) \<Longrightarrow> sent = [rq]"
  by (auto simp: open_stream_def split: http_result.splits)

lemma Forward_ok_sent:
  assumes "Forward tr je ids clk route req = (res, None, sent)" "\<not> cq_Stream req"
  shows "sent = [provider_request route req]"
proof -
  obtain resp where "dispatch_provider tr je ids clk route req = (Inr resp, sent)"
    using assms(1) by (auto simp: Forward_def Let_def split: prod.splits sum.splits)
  then show ?thesis
    using assms(2)
    by (auto simp: dispatch_provider_def forwardOpenAICompatible_def forwardAnthropic_def
        forwardGemini_def provider_request_def split: if_splits prod.splits sum.splits
        dest!: call_provider_Inr)
qed

lemma ForwardStream_ok_request:
  assumes "ForwardStream tr se route req w = (res, None, w', sent)" "cq_Stream req"
  shows "sent = [provider_request route req]"
  using assms
  by (auto simp: ForwardStream_def forwardOpenAIStream_def forwardAnthropicStream_def Let_def
      provider_request_def split: if_splits prod.splits sum.splits dest!: open_stream_Inr)

lemma call_chat_ok_sent:
  assumes "call_chat env cl route req red w = (w2, lg, evt, sent)" "ue_Status evt = ''ok''"
  shows "sent = [provider_request route req]"
proof (cases "cq_Stream req")
  case False
  obtain res err where f:
    "Forward (ce_tr env) (ce_je env) (ce_ids env) (ce_clk env) route req = (res, err, sent)"
    using assms(1) False by (auto simp: call_chat_def handleBuffered_def split: prod.splits option.splits)
  then have "err = None"
    using assms False by (cases err) (auto simp: call_chat_def handleBuffered_def usage_event_def)
  then show ?thesis using Forward_ok_sent f False by blast
next
  case True
  obtain res err w1 where f: "ForwardStream (ce_tr env) (ce_stream env) route req w = (res, err, w1, sent)"
    using assms(1) True by (auto simp: call_chat_def handleStream_def split: prod.splits option.splits)
  then have "err = None"
    using assms True by (cases err) (auto simp: call_chat_def handleStream_def usage_event_def)
  then show ?thesis using ForwardStream_ok_request f True by blast
qed

text \<open>What a provider call logs: its error, and nothing when there is none.\<close>

definition call_error :: "'r chat_env \<Rightarrow> RouteEntry \<Rightarrow> ChatRequest \<Rightarrow> response_writer \<Rightarrow> go_error option" where
  "call_error env route req w =
     (if cq_Stream req then fst (snd (ForwardStream (ce_tr env) (ce_stream env) route req w))
      else fst (snd (Forward (ce_tr env) (ce_je env) (ce_ids env) (ce_clk env) route req)))"

lemma call_chat_logs:
  assumes "call_chat env cl route req red w = (w2, lg, evt, sent)" "en \<in> set lg" "s \<in> entry_strings en"
  shows "s \<in> {cq_Model req, cl_Subject cl, ''provider error'', ''provider stream error''} \<or>
    (\<exists>e. call_error env route req w = Some e \<and> s = err_text e)"
  using assms
  by (auto simp: call_chat_def call_error_def handleBuffered_def handleStream_def entry_strings_def
      provider_error_log_def stream_error_log_def split: prod.splits option.splits if_splits)

lemma call_chat_usage:
  "call_chat env cl route req red w = (w2, lg, evt, sent) \<Longrightarrow>
   ue_UserID evt = cl_Subject cl \<and> ue_Tier evt = cl_SubscriptionTier cl \<and>
   ue_ModelExternalID evt = cq_Model req \<and> ue_ProviderID evt = re_ProviderID route \<and>
   ue_ModelID evt = re_ModelID route \<and> ue_RedactedCount evt = int (rr_Count red) \<and>
   ue_RedactionCategories evt = rr_Categories red"
  by (auto simp: call_chat_def handleBuffered_def handleStream_def usage_event_def
      split: prod.splits option.splits if_splits)

text \<open>What the event takes from the call, buffered or streamed.\<close>

lemma call_chat_accounted:
  assumes "call_chat env cl route req red w = (w2, lg, evt, sent)"
  obtains err where
    "if cq_Stream req
     then \<exists>res w'. ForwardStream (ce_tr env) (ce_stream env) route req w = (res, err, w', sent) \<and>
       ue_InputTokens evt = sf_InputTokens res \<and> ue_OutputTokens evt = sf_OutputTokens res \<and>
       ue_CostUSD evt = sf_CostUSD res \<and> ue_LatencyMs evt = sf_LatencyMs res
     else \<exists>res. Forward (ce_tr env) (ce_je env) (ce_ids env) (ce_clk env) route req = (res, err, sent) \<and>
       ue_InputTokens evt = fr_InputTokens res \<and> ue_OutputTokens evt = fr_OutputTokens res \<and>
       ue_CostUSD evt = fr_CostUSD res \<and> ue_LatencyMs evt = fr_LatencyMs res"
    "ue_Status evt = (if err = None then ''ok'' else ''error'')"
    "ue_ErrorCode evt = (case err of None \<Rightarrow> [] | Some e \<Rightarrow> mapProviderError e)"
proof (cases "cq_Stream req")
  case False
  obtain res err sent' where f:
    "Forward (ce_tr env) (ce_je env) (ce_ids env) (ce_clk env) route req = (res, err, sent')"
    using prod_cases3 by blast
  show thesis
    using assms f False by (intro that [of err]) (cases err; auto simp: call_chat_def handleBuffered_def usage_event_def)+
next
  case True
  obtain res err w' sent' where f:
    "ForwardStream (ce_tr env) (ce_stream env) route req w = (res, err, w', sent')"
    using prod_cases4 by blast
  show thesis
    using assms f True
    by (intro that [of err])
       (cases err; auto simp: call_chat_def handleStream_def usage_event_def stream_forward_def)+
qed

end
