(* ===== verification/Handler_Props.thy ===== *)
theory Handler_Props
  imports Accounting Handler Redact_Card
begin

text \<open>
  The properties of the chat handler: its answers, the redaction of what leaves for the provider,
  the usage events, the headers and what is written to the log.
\<close>

section \<open>An environment for the examples\<close>

text \<open>A working counter store and one complete route, with a provider transport to choose.\<close>

definition demo_chat :: "transport \<Rightarrow> engine option \<Rightarrow> string list chat_env" where
  "demo_chat tr engine =
     \<lparr>ce_limiter = \<lparr>failClosed = True\<rparr>, ce_redis = counting_ops, ce_now = 0, ce_order = id,
      ce_redactor = engine, ce_core = \<lambda>_. DoFailed [], ce_core_je = \<lambda>_. errorf [],
      ce_core_clk = \<lambda>_. 0, ce_tr = tr, ce_je = \<lambda>_. errorf [], ce_ids = (''t'', ''s'', ''r''),
      ce_clk = \<lambda>_. 0, ce_latency = 0, ce_stream = demo_env, ce_size = None\<rparr>"

definition demo_body :: string where
  "demo_body = marshal (JObj [(''model'', JStr ''gpt''), (''messages'', JArr
     [JObj [(''role'', JStr ''user''), (''content'', JStr ''4111111111111111'')]])])"

definition demo_message :: ChatMessage where
  "demo_message = \<lparr>cm_Role = ''user'', cm_Content = JStr ''4111111111111111''\<rparr>"

definition demo_chat_request :: ChatRequest where
  "demo_chat_request = \<lparr>cq_Model = ''gpt'', cq_Messages = [demo_message], cq_Temperature = None,
     cq_MaxTokens = None, cq_Stream = False\<rparr>"

definition demo_user :: claims where
  "demo_user = demo_claims ''sub''"

lemma demo_body_decodes: "decode_request demo_body = Some demo_chat_request"
  by code_simp

lemma demo_card: "Redact order card_engine ''4111111111111111'' =
    \<lparr>rr_Content = ''[CREDIT_CARD]'', rr_Count = 1, rr_Categories = order [CategoryCard]\<rparr>"
proof -
  have f: "find_all re_card ''4111111111111111'' = [(0, 16)]" by code_simp
  have l: "luhnValid (substr 0 16 ''4111111111111111'')" by code_simp
  show ?thesis
    using f l by (simp add: Redact_def card_engine_rules mk_rule_def apply_rule_def replace_all_def
        replace_one_def accepts_def) (simp add: card_engine_def)
qed

lemma demo_resolve:
  "ResolveRoute (\<lambda>_. DoFailed []) (\<lambda>_. errorf []) (\<lambda>_. 0) ''gpt'' demo_client = (Inr demo_route, demo_client)"
  by (simp add: ResolveRoute_def GetRouting_def routing_fresh_def demo_config_def find_route_def
      second_def)

lemma demo_route_more:
  "re_TierMin demo_route = ''free''" "re_ProviderType demo_route = ''openai''"
  by (simp_all add: demo_route_def)

lemma demo_tier: "TierAllows (cl_SubscriptionTier demo_user) (re_TierMin demo_route)"
  by (simp add: demo_route_more TierAllows_def tierRank_def demo_user_def demo_claims_def)

text \<open>A chat without an engine reaches its call.\<close>

lemma demo_serve:
  "serve_chat (demo_chat tr None) demo_user demo_body r demo_client lg w =
     (case handleBuffered (demo_chat tr None) demo_user demo_route demo_chat_request empty_redaction w of
        (w2, lg2, evt, sent) \<Rightarrow>
          \<lparr>oc_writer = w2, oc_redis = r, oc_core = demo_client,
           oc_logs = lg @ routing_log demo_chat_request demo_user demo_route empty_redaction # lg2,
           oc_usage = Some evt, oc_sent = sent\<rparr>)"
  by (simp add: serve_chat_def demo_body_decodes demo_chat_request_def demo_chat_def
      applyRedaction_def empty_redaction_def demo_resolve demo_tier call_chat_def)

section \<open>What a provider sees\<close>

lemma serve_chat_transport:
  assumes "decode_request body = Some req0"
    "applyRedaction (ce_order env) (ce_redactor env) req0 = (req, red)"
    "\<And>route. fst (ResolveRoute (ce_core env) (ce_core_je env) (ce_core_clk env) (cq_Model req) core) =
        Inr route \<Longrightarrow> tr' (provider_request route req) = ce_tr env (provider_request route req)"
  shows "serve_chat (env\<lparr>ce_tr := tr'\<rparr>) cl body r core lg w = serve_chat env cl body r core lg w"
proof (cases "ResolveRoute (ce_core env) (ce_core_je env) (ce_core_clk env) (cq_Model req) core")
  case rr: (Pair res core')
  show ?thesis
  proof (cases res)
    case (Inl e)
    then show ?thesis using assms(1,2) rr by (simp add: serve_chat_def)
  next
    case (Inr route)
    then have "call_chat (env\<lparr>ce_tr := tr'\<rparr>) cl route req red w1 = call_chat env cl route req red w1" for w1
      using assms(3) rr by (intro call_chat_transport) simp
    then show ?thesis using assms(1,2) rr Inr by (simp add: serve_chat_def)
  qed
qed

lemma serve_chat_sent:
  assumes "decode_request body = Some req0"
    "applyRedaction (ce_order env) (ce_redactor env) req0 = (req, red)"
    "rq \<in> set (oc_sent (serve_chat env cl body r core lg w))"
  shows "\<exists>route. fst (ResolveRoute (ce_core env) (ce_core_je env) (ce_core_clk env) (cq_Model req) core) =
      Inr route \<and> rq = provider_request route req"
proof (cases rule: serve_chat_cases [OF refl, of env cl body r core lg w])
  case (1 w2 core')
  then show ?thesis using assms(3) by (simp add: stopped_def)
next
  case (2 req1 req' red' route core' w1 w2 lg2 evt sent)
  then have "req' = req" using assms(1,2) by simp
  then show ?thesis using 2 assms(3) call_chat_sent [OF 2(6)] by (auto split: if_splits)
qed

section \<open>Properties\<close>

text \<open>
  C5. The answers of the chat endpoint. On a fresh response of net/http, every request ends in one of
  these ways. Nothing was sent to any provider, no usage event arises, and the answer is a unified
  error with one of the codes and statuses for claims, limits, request, routing, model or tier. Or
  one usage event arises, for the redacted request and the resolved route: with status ok, an answer
  of status 200 and exactly one request sent to the provider; or with status error and a unified
  error, where the request was sent, or was not because it could not be built or asked Gemini for a
  stream.
\<close>

theorem Handle_answers:
  assumes "untouched w" "ce_size env = None" "oc = Handle env claims body r core w"
  shows "oc_sent oc = [] \<and> oc_usage oc = None \<and>
      list_ex (\<lambda>(status, code). error_reply status code (oc_writer oc))
        [(401, ''unauthorized''), (429, ''rate_limit_exceeded''), (503, ''rate_limit_unavailable''),
         (400, ''invalid_request''), (503, ''routing_unavailable''), (404, ''model_not_available''),
         (403, ''model_tier_denied'')] \<or>
    (\<exists>evt req0 req red route. oc_usage oc = Some evt \<and>
      decode_request body = Some req0 \<and>
      applyRedaction (ce_order env) (ce_redactor env) req0 = (req, red) \<and>
      fst (ResolveRoute (ce_core env) (ce_core_je env) (ce_core_clk env) (cq_Model req) core) =
        Inr route \<and>
      (ue_Status evt = ''ok'' \<and> oc_sent oc = [provider_request route req] \<and>
         rw_status (oc_writer oc) = 200 \<or>
       ue_Status evt = ''error'' \<and>
         oc_sent oc = (if no_request (ce_tr env) route req then [] else [provider_request route req]) \<and>
         list_ex (\<lambda>(status, code). error_reply status code (oc_writer oc))
           [(502, ''provider_unavailable''), (504, ''provider_timeout''),
            (501, ''streaming_not_supported'')]))"
proof (cases claims)
  case None
  then show ?thesis using assms error_writers(1) by (simp add: Handle_def stopped_def)
next
  case (Some cl)
  obtain res r' lg where ch: "Check (ce_limiter env) (ce_redis env) (cl_Subject cl)
      (cl_RateLimitBucket cl) (ce_now env) r = (res, r', lg)" using prod_cases3 by blast
  show ?thesis
  proof (cases res)
    case (Inl e)
    then show ?thesis
      using assms Some ch error_writers(3,4) [OF assms(1)]
      by (cases e) (simp_all add: Handle_def stopped_def)
  next
    case (Inr rl)
    define w1 where "w1 = limit_headers rl w"
    have w1: "untouched w1" using assms(1) by (simp add: w1_def limit_headers_untouched)
    have oc: "serve_chat env cl body r' core lg w1 = oc"
      using assms(3) Some ch Inr by (simp add: Handle_def w1_def)
    from serve_chat_cases [OF oc] show ?thesis
    proof cases
      case (1 w2 core')
      then show ?thesis using refusal_reply [OF 1(3) w1] by (auto simp: stopped_def)
    next
      case (2 req0 req red route core' w1' w2 lg2 evt sent)
      have reply: "rw_status w2 = 200 \<and> ue_Status evt = ''ok'' \<and> sent = [provider_request route req] \<or>
          ue_Status evt = ''error'' \<and>
            list_ex (\<lambda>(status, code). error_reply status code w2)
              [(502, ''provider_unavailable''), (504, ''provider_timeout''),
               (501, ''streaming_not_supported'')]"
        using call_chat_reply [OF 2(6) counted_header_untouched [OF 2(3) w1] assms(2)]
          call_chat_ok_sent [OF 2(6)] by auto
      show ?thesis
        by (rule disjI2, intro exI [of _ evt] exI [of _ req0] exI [of _ req] exI [of _ red] exI [of _ route])
           (use 2 reply call_chat_sent [OF 2(6)] in auto)
    qed
  qed
qed

theorem Handle_answers_witness:
  "let oc = Handle (demo_chat (\<lambda>_. DoFailed []) None) None [] [] demo_client new_writer in
   error_reply 401 ''unauthorized'' (oc_writer oc) \<and> oc_sent oc = []"
proof -
  let ?oc = "Handle (demo_chat (\<lambda>_. DoFailed []) None) None [] [] demo_client new_writer"
  have "oc_usage ?oc = None" "oc_writer ?oc = WriteUnauthorized new_writer"
    by (simp_all add: Handle_def stopped_def)
  moreover have "rw_status (WriteUnauthorized new_writer) = 401"
    by (simp add: write_defs Write_status)
  ultimately show ?thesis
    using Handle_answers [of new_writer "demo_chat (\<lambda>_. DoFailed []) None" ?oc None "[]" "[]" demo_client]
    by (auto simp: demo_chat_def error_reply_def)
qed

text \<open>
  C16. Redaction of a request. With an enabled engine every message in which the engine redacts
  something is sent on with the redacted text as its content, every other message and everything
  else of the request as it was; the count is the sum over the messages and the categories are those
  of the messages, none twice.
\<close>

theorem applyRedaction_spec:
  assumes "en_enabled e" "applyRedaction order (Some e) req = (req', red)"
  shows "req' = req\<lparr>cq_Messages := map (redacted_message (Redact order e)) (cq_Messages req)\<rparr> \<and>
    rr_Count red = sum_list (map (\<lambda>m. rr_Count (Redact order e (contentAsString (cm_Content m))))
                               (cq_Messages req)) \<and>
    distinct (rr_Categories red) \<and>
    set (rr_Categories red) =
      (\<Union>m \<in> {m \<in> set (cq_Messages req). 0 < rr_Count (Redact order e (contentAsString (cm_Content m)))}.
         set (rr_Categories (Redact order e (contentAsString (cm_Content m)))))"
proof -
  obtain ms tot where m: "redact_messages (Redact order e) (cq_Messages req) empty_redaction = (ms, tot)"
    by fastforce
  have "req' = req\<lparr>cq_Messages := ms\<rparr>" "red = tot" using assms m by (simp_all add: applyRedaction_def)
  then show ?thesis using redact_messages_spec [OF m] by (simp add: empty_redaction_def)
qed

theorem applyRedaction_spec_witness:
  "fst (applyRedaction id (Some card_engine) demo_chat_request) =
     demo_chat_request\<lparr>cq_Messages := [demo_message\<lparr>cm_Content := JStr ''[CREDIT_CARD]''\<rparr>]\<rparr>"
  using applyRedaction_spec [of card_engine id demo_chat_request
      "fst (applyRedaction id (Some card_engine) demo_chat_request)"
      "snd (applyRedaction id (Some card_engine) demo_chat_request)"]
  by (simp add: demo_chat_request_def demo_message_def redacted_message_def contentAsString_def
      demo_card) (simp add: card_engine_def)

text \<open>
  C3. Only redacted messages leave for a provider. The whole handling of a chat depends on the
  provider at one request only, the one built from the redacted messages for the resolved route: two
  provider transports that answer it alike give the same outcome, whatever they would answer to any
  other request, one with the original messages included; and that request is the only one sent.
\<close>

theorem provider_sees_redacted:
  assumes "decode_request body = Some req0"
    "applyRedaction (ce_order env) (ce_redactor env) req0 = (req, red)"
    "\<And>route. fst (ResolveRoute (ce_core env) (ce_core_je env) (ce_core_clk env) (cq_Model req) core) =
        Inr route \<Longrightarrow> tr' (provider_request route req) = ce_tr env (provider_request route req)"
  shows "serve_chat (env\<lparr>ce_tr := tr'\<rparr>) cl body r core lg w = serve_chat env cl body r core lg w \<and>
    (\<forall>rq \<in> set (oc_sent (serve_chat env cl body r core lg w)). \<exists>route.
       fst (ResolveRoute (ce_core env) (ce_core_je env) (ce_core_clk env) (cq_Model req) core) =
         Inr route \<and> rq = provider_request route req)"
  using serve_chat_transport [OF assms] serve_chat_sent [OF assms(1,2)] by blast

theorem provider_sees_redacted_witness:
  "serve_chat ((demo_chat (\<lambda>_. DoFailed ''refused'') (Some card_engine))\<lparr>ce_tr :=
       \<lambda>rq. if rq_body rq = marshal (openai_payload demo_route demo_chat_request False)
            then Response 200 ''leak'' None else DoFailed ''refused''\<rparr>)
     demo_user demo_body [] demo_client [] new_writer =
   serve_chat (demo_chat (\<lambda>_. DoFailed ''refused'') (Some card_engine)) demo_user demo_body []
     demo_client [] new_writer"
proof (rule provider_sees_redacted [THEN conjunct1, OF demo_body_decodes])
  let ?req = "demo_chat_request\<lparr>cq_Messages := [demo_message\<lparr>cm_Content := JStr ''[CREDIT_CARD]''\<rparr>]\<rparr>"
  show "applyRedaction (ce_order (demo_chat (\<lambda>_. DoFailed ''refused'') (Some card_engine)))
      (ce_redactor (demo_chat (\<lambda>_. DoFailed ''refused'') (Some card_engine))) demo_chat_request =
    (?req, \<lparr>rr_Content = [], rr_Count = 1, rr_Categories = [CategoryCard]\<rparr>)"
    by (simp add: demo_chat_def applyRedaction_def demo_chat_request_def demo_message_def
        contentAsString_def demo_card empty_redaction_def mergeCategories_def)
       (simp add: card_engine_def)
  fix route
  assume "fst (ResolveRoute (ce_core (demo_chat (\<lambda>_. DoFailed ''refused'') (Some card_engine)))
    (ce_core_je (demo_chat (\<lambda>_. DoFailed ''refused'') (Some card_engine)))
    (ce_core_clk (demo_chat (\<lambda>_. DoFailed ''refused'') (Some card_engine))) (cq_Model ?req) demo_client) =
    Inr route"
  then have "route = demo_route"
    by (simp add: demo_chat_def demo_chat_request_def ResolveRoute_def GetRouting_def
        routing_fresh_def demo_config_def find_route_def second_def)
  moreover have "rq_body (provider_request demo_route ?req) \<noteq>
      marshal (openai_payload demo_route demo_chat_request False)" by code_simp
  ultimately show "(if rq_body (provider_request route ?req) =
        marshal (openai_payload demo_route demo_chat_request False)
      then Response 200 ''leak'' None else DoFailed ''refused'') =
    ce_tr (demo_chat (\<lambda>_. DoFailed ''refused'') (Some card_engine)) (provider_request route ?req)"
    by (simp add: demo_chat_def)
qed

text \<open>
  C35. What the log holds. Every text in an entry that the handling of a chat writes, from the
  admitted request on, is the requested model, the user's subject or tier, the type or id of the
  resolved route's provider, a fixed message, or the text of the provider call's error: no message
  content, no answer and no key appears, unless that error's text holds it.
\<close>

theorem chat_log_metadata:
  assumes "serve_chat env cl body r core [] w = oc" "en \<in> set (oc_logs oc)" "s \<in> entry_strings en"
  shows "\<exists>req0 req red route w1.
    decode_request body = Some req0 \<and>
    applyRedaction (ce_order env) (ce_redactor env) req0 = (req, red) \<and>
    fst (ResolveRoute (ce_core env) (ce_core_je env) (ce_core_clk env) (cq_Model req) core) = Inr route \<and>
    (s \<in> {cq_Model req0, cl_Subject cl, cl_SubscriptionTier cl, re_ProviderType route,
           re_ProviderID route, ''routing request'', ''provider error'', ''provider stream error''} \<or>
     (\<exists>e. call_error env route req w1 = Some e \<and> s = err_text e))"
  using assms(1)
proof (cases rule: serve_chat_cases)
  case (refused w2 core')
  then show ?thesis using assms(2) by (simp add: stopped_def)
next
  case (called req0 req red route core' w1 w2 lg2 evt sent)
  have m: "cq_Model req = cq_Model req0" using applyRedaction_keeps [OF called(2)] by simp
  have "en = routing_log req cl route red \<or> en \<in> set lg2" using assms(2) called(7) by auto
  then have "s \<in> {cq_Model req, cl_Subject cl, cl_SubscriptionTier cl, re_ProviderType route,
      re_ProviderID route, ''routing request'', ''provider error'', ''provider stream error''} \<or>
    (\<exists>e. call_error env route req w1 = Some e \<and> s = err_text e)"
  proof
    assume "en = routing_log req cl route red"
    then show ?thesis using assms(3) by (auto simp: entry_strings_def routing_log_def)
  next
    assume "en \<in> set lg2"
    then show ?thesis using call_chat_logs [OF called(6) _ assms(3)] by blast
  qed
  note held = this [unfolded m]
  have "fst (ResolveRoute (ce_core env) (ce_core_je env) (ce_core_clk env) (cq_Model req) core) =
      Inr route" using called(4) by simp
  with held called(1,2) show ?thesis by blast
qed

theorem chat_log_metadata_witness:
  "\<exists>req0. decode_request demo_body = Some req0 \<and> cq_Model req0 = ''gpt''"
proof -
  let ?env = "demo_chat (\<lambda>_. DoFailed ''refused'') None"
  let ?oc = "serve_chat ?env demo_user demo_body [] demo_client [] new_writer"
  let ?en = "routing_log demo_chat_request demo_user demo_route empty_redaction"
  have "?en \<in> set (oc_logs ?oc)" by (simp add: demo_serve split: prod.split)
  moreover have "''gpt'' \<in> entry_strings ?en"
    by (auto simp: entry_strings_def routing_log_def demo_chat_request_def)
  ultimately obtain req0 where "decode_request demo_body = Some req0"
    using chat_log_metadata [of ?env demo_user demo_body "[]" demo_client new_writer ?oc ?en "''gpt''"]
    by blast
  then show ?thesis by (auto simp: demo_body_decodes demo_chat_request_def)
qed

text \<open>
  C36. The Gemini key in the log. When a Gemini provider cannot be reached, the handler writes a log
  entry whose text contains the provider's API key, because the key is part of the URL that the
  error quotes: the key itself, when no quote or backslash in it needs an escape.
\<close>

theorem gemini_key_logged:
  assumes "re_ProviderType route = ''gemini''" "\<not> cq_Stream req"
    "ce_tr env (gemini_request route req) = DoFailed cause"
    "call_chat env cl route req red w = (w', lg, evt, sent)"
  shows "\<exists>en \<in> set lg. \<exists>s \<in> entry_strings en. contains s (quoted (re_APIKey route)) \<and>
    (CHR 0x22 \<notin> set (re_APIKey route) \<longrightarrow> CHR 0x5C \<notin> set (re_APIKey route) \<longrightarrow>
     contains s (re_APIKey route))"
proof -
  let ?e = "url_error (gemini_request route req) cause"
  obtain u where u: "rq_url (gemini_request route req) = u @ re_APIKey route"
    by (auto simp: gemini_request_def post_def Let_def)
  have "contains (err_text ?e) (quoted (re_APIKey route))"
    unfolding contains_iff url_error_def errorf_def go_error.sel u quoted_append
    by (metis append.assoc)
  moreover have "lg = [provider_error_log ?e (cq_Model req) cl (milliseconds (ce_latency env))]"
    using assms
    by (auto simp: call_chat_def handleBuffered_def Forward_def dispatch_provider_def
        forwardGemini_def call_provider_def Let_def)
  moreover have "err_text ?e \<in> entry_strings (provider_error_log ?e m cl n)" for m n
    by (auto simp: entry_strings_def provider_error_log_def)
  ultimately show ?thesis using quoted_plain [of "re_APIKey route"] by auto
qed

theorem gemini_key_logged_witness:
  "\<exists>en \<in> set (fst (snd (call_chat (demo_chat (\<lambda>_. DoFailed ''refused'') None) demo_user
      (demo_route\<lparr>re_ProviderType := ''gemini'', re_APIKey := ''secret''\<rparr>) demo_chat_request
      empty_redaction new_writer))).
     \<exists>s \<in> entry_strings en. contains s ''secret''"
proof -
  let ?env = "demo_chat (\<lambda>_. DoFailed ''refused'') None"
  let ?r = "demo_route\<lparr>re_ProviderType := ''gemini'', re_APIKey := ''secret''\<rparr>"
  obtain w' lg evt sent where c: "call_chat ?env demo_user ?r demo_chat_request empty_redaction new_writer =
      (w', lg, evt, sent)" using prod_cases4 by blast
  have "\<exists>en \<in> set lg. \<exists>s \<in> entry_strings en. contains s (quoted (re_APIKey ?r)) \<and>
      (CHR 0x22 \<notin> set (re_APIKey ?r) \<longrightarrow> CHR 0x5C \<notin> set (re_APIKey ?r) \<longrightarrow> contains s (re_APIKey ?r))"
    by (rule gemini_key_logged [OF _ _ _ c]) (simp_all add: demo_chat_def demo_chat_request_def)
  then show ?thesis by (auto simp: c)
qed

text \<open>
  The timeout of the HTTP client. An error whose text is the one of a client timeout is answered
  by 502 and reported as provider_unavailable, since the text has no lower-case timeout; a refused
  connection to a port that contains 504 is answered by 504 and reported as provider_timeout.
\<close>

lemma provider_timeout_misread:
  "let timed_out = url_error (post ''http://p/chat/completions'' [] JNull)
         ''context deadline exceeded (Client.Timeout exceeded while awaiting headers)'';
       refused = url_error (post ''http://p:5040/chat/completions'' [] JNull)
         ''dial tcp: connect: connection refused''
   in rw_status (writeProviderError timed_out new_writer) = 502 \<and>
      mapProviderError timed_out = CodeProviderUnavailable \<and>
      rw_status (writeProviderError refused new_writer) = 504 \<and>
      mapProviderError refused = CodeProviderTimeout"
proof -
  let ?t = "url_error (post ''http://p/chat/completions'' [] JNull)
    ''context deadline exceeded (Client.Timeout exceeded while awaiting headers)''"
  let ?r = "url_error (post ''http://p:5040/chat/completions'' [] JNull)
    ''dial tcp: connect: connection refused''"
  have "\<not> is_timeout ?t" "is_timeout ?r" by code_simp+
  then show ?thesis
    by (simp add: writeProviderError_def mapProviderError_def write_defs Write_status)
qed

text \<open>
  C37. The answer to a request over its limit. It is 429 with the whole seconds left in the details
  and, when at least a second is left, as Retry-After; in the last second of a window there is no
  such header.
\<close>

theorem rate_limited_answer:
  assumes "untouched w" "header_get (rw_header w) ''Retry-After'' = []"
    "Check (ce_limiter env) (ce_redis env) (cl_Subject cl) (cl_RateLimitBucket cl) (ce_now env) r =
       (Inl (LimitError d), r', lg)"
    "oc = Handle env (Some cl) body r core w"
  shows "error_reply 429 ''rate_limit_exceeded'' (oc_writer oc) \<and> oc_core oc = core \<and>
    oc_usage oc = None \<and>
    rw_sent_header (oc_writer oc) ''Retry-After'' = (if d < second then [] else dec (d div second))"
proof -
  have d: "0 < d" "d \<le> 24 * hour" using Check_limit_range [OF assms(3)] by auto
  then have s: "whole_seconds d = d div second" by (simp add: whole_seconds_def quot_trunc_def)
  have z: "0 < d div second \<longleftrightarrow> second \<le> d"
    using d(1) by (simp add: pos_imp_zdiv_pos_iff)
  have "d div second \<le> d" using d(1) zdiv_mono2 [of d 1 second] by (simp add: second_def)
  then have "d div second < 2 ^ 63" using d(2) day_small(1) by simp
  then have i: "itoa (d div second) = Some (if d div second \<le> 0 then ''0'' else dec (d div second))"
    by (rule itoa_int64)
  have k: "canonical_key ''Retry-After'' \<noteq> canonical_key ''Content-Type''" by code_simp
  have oc: "oc = stopped (WriteRateLimitExceeded (whole_seconds d) w) r' core lg"
    using assms(3,4) by (simp add: Handle_def)
  have "rw_sent_header (WriteRateLimitExceeded (whole_seconds d) w) ''Retry-After'' =
      (if d < second then [] else dec (d div second))"
    using z i assms(1,2) k
    by (auto simp: s WriteRateLimitExceeded_def Write_header_kept header_get_set not_less)
  then show ?thesis
    using error_writers(3) [OF assms(1)] by (simp add: oc stopped_def)
qed

theorem rate_limited_answer_witness:
  "rw_sent_header (oc_writer (Handle (demo_chat (\<lambda>_. DoFailed []) None) (Some demo_user) []
      (replicate 10 (min_key ''pro_standard'' ''sub'')) demo_client new_writer)) ''Retry-After'' = dec 60"
proof -
  let ?env = "demo_chat (\<lambda>_. DoFailed []) None" and ?k = "min_key ''pro_standard'' ''sub''"
  have "count_list (replicate n x) x = n" for n and x :: string by (induction n) auto
  then have "Check (ce_limiter ?env) (ce_redis ?env) (cl_Subject demo_user) (cl_RateLimitBucket demo_user)
      (ce_now ?env) (replicate 10 ?k) = (Inl (LimitError minute), ?k # replicate 10 ?k, [])"
    by (simp add: demo_chat_def demo_user_def demo_claims_def Check_def bucketLimits_def
        checkWindow_def counting_ops_def time_truncate_def time_sub_def minute_def second_def
        del: replicate.simps replicate_Suc)
  then show ?thesis
    using rate_limited_answer [OF untouched_new _ _ refl, of ?env demo_user "replicate 10 ?k" minute]
    by (simp add: new_writer_def header_get_def minute_def second_def)
qed

text \<open>
  The rate-limit headers. Whatever becomes of an admitted request, refused, failed, answered or
  streamed, the response that is sent carries the limit, the remainder and the reset time of the
  check.
\<close>

lemma rate_limit_headers_sent:
  assumes "untouched w" "ce_size env = None"
    "Check (ce_limiter env) (ce_redis env) (cl_Subject cl) (cl_RateLimitBucket cl) (ce_now env) r =
       (Inr rl, r', lg)"
    "w' = oc_writer (Handle env (Some cl) body r core w)"
  shows "rw_sent_header w' ''X-RateLimit-Limit'' = format_int (cr_Limit rl) \<and>
    rw_sent_header w' ''X-RateLimit-Remaining'' = format_int (cr_Remaining rl) \<and>
    rw_sent_header w' ''X-RateLimit-Reset'' = format_int (time_unix (cr_Reset rl))"
proof -
  have u: "untouched (limit_headers rl w)" using assms(1) by (simp add: limit_headers_untouched)
  have "w' = oc_writer (serve_chat env cl body r' core lg (limit_headers rl w))"
    using assms(3,4) by (simp add: Handle_def)
  then show ?thesis
    using serve_chat_header [OF u assms(2) limit_header_keys(1)]
      serve_chat_header [OF u assms(2) limit_header_keys(2)]
      serve_chat_header [OF u assms(2) limit_header_keys(3)] limit_headers_get [of rl w] by simp
qed

text \<open>
  C19. Usage events. A chat reports usage only when its request was decoded, resolved and allowed by
  the tier. The event names the user, the user's tier, the requested model, the route's provider and
  model ids, and the count and categories of what was redacted. Its tokens, cost and latency are
  those of the one call of \<open>Forward\<close> or \<open>ForwardStream\<close> that sent the chat's requests; its status is ok
  exactly when that call had no error, and its code is that of the error.
\<close>

theorem chat_usage_event:
  assumes "oc_usage (serve_chat env cl body r core lg w) = Some evt"
  shows "\<exists>req0 req red route err.
     decode_request body = Some req0 \<and>
     applyRedaction (ce_order env) (ce_redactor env) req0 = (req, red) \<and>
     fst (ResolveRoute (ce_core env) (ce_core_je env) (ce_core_clk env) (cq_Model req0) core) = Inr route \<and>
     TierAllows (cl_SubscriptionTier cl) (re_TierMin route) \<and>
     ue_UserID evt = cl_Subject cl \<and> ue_Tier evt = cl_SubscriptionTier cl \<and>
     ue_ModelExternalID evt = cq_Model req0 \<and> ue_ProviderID evt = re_ProviderID route \<and>
     ue_ModelID evt = re_ModelID route \<and> ue_RedactedCount evt = int (rr_Count red) \<and>
     ue_RedactionCategories evt = rr_Categories red \<and>
     (if cq_Stream req
      then \<exists>w1 res w2. ForwardStream (ce_tr env) (ce_stream env) route req w1 =
          (res, err, w2, oc_sent (serve_chat env cl body r core lg w)) \<and>
        ue_InputTokens evt = sf_InputTokens res \<and> ue_OutputTokens evt = sf_OutputTokens res \<and>
        ue_CostUSD evt = sf_CostUSD res \<and> ue_LatencyMs evt = sf_LatencyMs res
      else \<exists>res. Forward (ce_tr env) (ce_je env) (ce_ids env) (ce_clk env) route req =
          (res, err, oc_sent (serve_chat env cl body r core lg w)) \<and>
        ue_InputTokens evt = fr_InputTokens res \<and> ue_OutputTokens evt = fr_OutputTokens res \<and>
        ue_CostUSD evt = fr_CostUSD res \<and> ue_LatencyMs evt = fr_LatencyMs res) \<and>
     ue_Status evt = (if err = None then ''ok'' else ''error'') \<and>
     ue_ErrorCode evt = (case err of None \<Rightarrow> [] | Some e \<Rightarrow> mapProviderError e)"
proof (cases rule: serve_chat_cases [OF refl, of env cl body r core lg w])
  case (1 w2 core')
  then show ?thesis using assms by (simp add: stopped_def)
next
  case (2 req0 req red route core' w1 w2 lg2 evt' sent)
  have e: "evt' = evt" "oc_sent (serve_chat env cl body r core lg w) = sent"
    using 2(7) assms by simp_all
  obtain err where err:
    "if cq_Stream req
     then \<exists>res w'. ForwardStream (ce_tr env) (ce_stream env) route req w1 = (res, err, w', sent) \<and>
       ue_InputTokens evt = sf_InputTokens res \<and> ue_OutputTokens evt = sf_OutputTokens res \<and>
       ue_CostUSD evt = sf_CostUSD res \<and> ue_LatencyMs evt = sf_LatencyMs res
     else \<exists>res. Forward (ce_tr env) (ce_je env) (ce_ids env) (ce_clk env) route req = (res, err, sent) \<and>
       ue_InputTokens evt = fr_InputTokens res \<and> ue_OutputTokens evt = fr_OutputTokens res \<and>
       ue_CostUSD evt = fr_CostUSD res \<and> ue_LatencyMs evt = fr_LatencyMs res"
    "ue_Status evt = (if err = None then ''ok'' else ''error'')"
    "ue_ErrorCode evt = (case err of None \<Rightarrow> [] | Some e \<Rightarrow> mapProviderError e)"
    using call_chat_accounted [OF 2(6)] unfolding e(1) by metis
  have "cq_Model req = cq_Model req0" using applyRedaction_keeps [OF 2(2)] by simp
  then show ?thesis
    using 2(1,2,4,5) call_chat_usage [OF 2(6)] err unfolding e
    by (intro exI [of _ req0] exI [of _ req] exI [of _ red] exI [of _ route] exI [of _ err])
       (auto split: if_splits)
qed

theorem chat_usage_event_witness:
  "\<exists>evt. oc_usage (serve_chat (demo_chat (\<lambda>_. Response 200 demo_reply None) None) demo_user demo_body []
     demo_client [] new_writer) = Some evt \<and>
   ue_UserID evt = cl_Subject demo_user \<and> ue_Status evt = ''ok'' \<and>
   ue_InputTokens evt = 1000 \<and> ue_OutputTokens evt = 2"
proof -
  let ?env = "demo_chat (\<lambda>_. Response 200 demo_reply None) None"
  obtain w2 lg2 evt sent where h: "handleBuffered ?env demo_user demo_route demo_chat_request
      empty_redaction new_writer = (w2, lg2, evt, sent)"
    using prod_cases4 by blast
  have u: "oc_usage (serve_chat ?env demo_user demo_body [] demo_client [] new_writer) = Some evt"
    by (simp add: demo_serve h)
  obtain res sent' where f: "Forward (\<lambda>_. Response 200 demo_reply None) (\<lambda>_. errorf []) (''t'', ''s'', ''r'')
      (\<lambda>_. 0) demo_route demo_chat_request = (res, None, sent')"
    "fr_InputTokens res = 1000" "fr_OutputTokens res = 2"
    by (simp add: Forward_def Let_def dispatch_provider_def demo_route_def zero_route_def
        forwardOpenAICompatible_def call_provider_def demo_reply_decoded count_input_def
        count_output_def demo_choice_def)
  show ?thesis
    using chat_usage_event [OF u] u f demo_body_decodes demo_resolve
    by (auto simp: demo_chat_def applyRedaction_def demo_chat_request_def split: if_splits)
qed

text \<open>A text part of a structured content: its line break becomes the letters of a JSON escape.\<close>

definition structured_text :: "string \<Rightarrow> json" where
  "structured_text s = JArr [jmap [(''text'', JStr s), (''type'', JStr ''text'')]]"

text \<open>
  Card numbers that are missed. A card number that is redacted when it stands alone, and when it
  starts a line of a plain text, is not redacted after a digit token, with a space between, since
  the match takes the token in and its checksum fails; nor at the start of a line of a text part of
  structured content, since the rules then see the line break as the letters of its JSON escape.
\<close>

lemma cards_missed:
  "let line = ''a'' @ [newline] @ ''4111111111111111'';
       count = (\<lambda>content. rr_Count (Redact order card_engine (contentAsString content)))
   in count (JStr ''4111111111111111'') = 1 \<and> count (JStr line) = 1 \<and>
      count (JStr ''7 4111111111111111'') = 0 \<and> count (structured_text line) = 0"
proof -
  let ?line = "''a'' @ [newline] @ ''4111111111111111''"
  have "find_all re_card (contentAsString (structured_text ?line)) = []"
    "contentAsString (structured_text ?line) \<noteq> []" by code_simp+
  then have "rr_Count (Redact order card_engine (contentAsString (structured_text ?line))) = 0"
    by (simp add: Redact_def card_engine_rules mk_rule_def apply_rule_def)
  moreover have f: "find_all re_card ?line = [(2, 18)]" "luhnValid (substr 2 18 ?line)" by code_simp+
  then have "rr_Count (Redact order card_engine ?line) = 1"
    by (simp add: Redact_def card_engine_rules mk_rule_def apply_rule_def replace_all_def
        replace_one_def accepts_def) (simp add: card_engine_def)
  ultimately show ?thesis
    by (simp add: contentAsString_def demo_card card_after_digit_kept Let_def)
qed

end
