(* ===== verification/Response_Roundtrip.thy ===== *)
theory Response_Roundtrip
  imports Handler_Props Manifest_Roundtrip
begin

text \<open>
  A buffered answer between its provider and the client: what the handler prints decodes to the
  response that the adapter of the provider made, whatever the provider.
\<close>

section \<open>Integers\<close>

lemma atoi_format_int:
  assumes "int64 n"
  shows "atoi (format_int n) = (n, AtoiOk)"
proof (cases "n < 0")
  case False
  then show ?thesis using assms atoi_dec [of n] by (simp add: format_int_def int64_def)
next
  case True
  obtain c t where d: "dec (- n) = c # t" "is_digit c" using dec_first [of "- n"] True by auto
  have "list_all is_digit (dec (- n))" "undec (dec (- n)) = - n"
    using True dec_digits [of "- n"] by (simp_all add: list_all_iff)
  then show ?thesis
    using assms True d by (simp add: format_int_def atoi_def Let_def int64_def is_digit_def)
qed

lemma dec_int_jint: "int64 n \<Longrightarrow> dec_int (jint n) old = Some n"
  by (simp add: jint_def atoi_format_int)

lemma dec_int_range: "dec_int j old = Some n \<Longrightarrow> int64 old \<Longrightarrow> int64 n"
  by (cases j) (auto simp: atoi_def int64_def Let_def split: if_splits)

section \<open>Responses\<close>

text \<open>The integers of a response are 64-bit; its strings are UTF-8.\<close>

definition response_range :: "ChatResponse \<Rightarrow> bool" where
  "response_range r \<longleftrightarrow>
     int64 (cs_Created r) \<and> int64 (us_Prompt (cs_Usage r)) \<and> int64 (us_Completion (cs_Usage r)) \<and>
     int64 (us_Total (cs_Usage r)) \<and>
     (case cs_Choices r of None \<Rightarrow> True | Some cs \<Rightarrow> list_all (\<lambda>c. int64 (ch_Index c)) cs)"

definition choice_ok :: "Choice \<Rightarrow> bool" where
  "choice_ok c \<longleftrightarrow>
     int64 (ch_Index c) \<and> utf8_ok (ch_Role c) \<and> utf8_ok (ch_Content c) \<and> utf8_ok (ch_FinishReason c)"

definition response_ok :: "ChatResponse \<Rightarrow> bool" where
  "response_ok r \<longleftrightarrow>
     response_range r \<and> utf8_ok (cs_ID r) \<and> utf8_ok (cs_Object r) \<and> utf8_ok (cs_Model r) \<and>
     (case cs_Choices r of None \<Rightarrow> True | Some cs \<Rightarrow> list_all choice_ok cs)"

text \<open>A response as it is read after printing: every invalid byte of its strings is replaced.\<close>

definition clean_choice :: "Choice \<Rightarrow> Choice" where
  "clean_choice c = c\<lparr>ch_Role := clean (ch_Role c), ch_Content := clean (ch_Content c),
     ch_FinishReason := clean (ch_FinishReason c)\<rparr>"

definition clean_response :: "ChatResponse \<Rightarrow> ChatResponse" where
  "clean_response r = r\<lparr>cs_ID := clean (cs_ID r), cs_Object := clean (cs_Object r),
     cs_Model := clean (cs_Model r), cs_Choices := map_option (map clean_choice) (cs_Choices r)\<rparr>"

lemma clean_choice_id: "choice_ok c \<Longrightarrow> clean_choice c = c"
  by (simp add: clean_choice_def choice_ok_def clean_id)

lemma clean_response_id: "response_ok r \<Longrightarrow> clean_response r = r"
proof -
  assume r: "response_ok r"
  then have "map_option (map clean_choice) (cs_Choices r) = cs_Choices r"
    by (cases "cs_Choices r")
       (auto simp: response_ok_def list_all_iff clean_choice_id intro!: map_idI)
  then show ?thesis using r by (simp add: clean_response_def response_ok_def clean_id)
qed

section \<open>Printing and decoding\<close>

lemma response_keys:
  "clean ''id'' = ''id''" "clean ''object'' = ''object''" "clean ''created'' = ''created''"
  "clean ''model'' = ''model''" "clean ''choices'' = ''choices''" "clean ''usage'' = ''usage''"
  "clean ''prompt_tokens'' = ''prompt_tokens''" "clean ''completion_tokens'' = ''completion_tokens''"
  "clean ''total_tokens'' = ''total_tokens''" "clean ''index'' = ''index''"
  "clean ''message'' = ''message''" "clean ''finish_reason'' = ''finish_reason''"
  "clean ''role'' = ''role''" "clean ''content'' = ''content''"
  by code_simp+

lemma choice_json_ok: "nums_ok (choice_json c)" "depth (choice_json c) = 2"
  by (simp_all add: choice_json_def jint_def num_ok_int)

lemma response_json_ok: "nums_ok (response_json r)" "depth (response_json r) \<le> 10000"
proof -
  have d: "foldr max (map (depth \<circ> choice_json) cs) 0 \<le> 2" for cs
    by (rule foldr_max_bound) (simp add: choice_json_ok)
  show "nums_ok (response_json r)"
    by (auto simp: response_json_def jint_def num_ok_int list_all_iff choice_json_ok split: option.split)
  show "depth (response_json r) \<le> 10000"
  proof (cases "cs_Choices r")
    case (Some cs)
    then show ?thesis using d [of cs] by (simp add: response_json_def jint_def)
  qed (simp add: response_json_def jint_def)
qed

lemma clean_choice_json: "clean_json (choice_json c) = choice_json (clean_choice c)"
  by (simp add: choice_json_def clean_choice_def jint_def response_keys)

lemma clean_response_json: "clean_json (response_json r) = response_json (clean_response r)"
  by (cases "cs_Choices r")
     (simp_all add: response_json_def clean_response_def jint_def response_keys clean_choice_json)

abbreviation zero_choice :: Choice where
  "zero_choice \<equiv> \<lparr>ch_Index = 0, ch_Role = [], ch_Content = [], ch_FinishReason = []\<rparr>"

lemma find_choice_fields:
  "find_field choice_fields ''index'' =
     Some (''index'', \<lambda>j s. map_option (\<lambda>x. s\<lparr>ch_Index := x\<rparr>) (dec_int j (ch_Index s)))"
  "find_field choice_fields ''message'' =
     Some (''message'', \<lambda>j s. map_option (\<lambda>x. x) (dec_struct choice_message_fields j (id s)))"
  "find_field choice_fields ''finish_reason'' =
     Some (''finish_reason'', \<lambda>j s. map_option (\<lambda>x. s\<lparr>ch_FinishReason := x\<rparr>) (dec_string j (ch_FinishReason s)))"
  "find_field choice_message_fields ''role'' =
     Some (''role'', \<lambda>j s. map_option (\<lambda>x. s\<lparr>ch_Role := x\<rparr>) (dec_string j (ch_Role s)))"
  "find_field choice_message_fields ''content'' =
     Some (''content'', \<lambda>j s. map_option (\<lambda>x. s\<lparr>ch_Content := x\<rparr>) (dec_string j (ch_Content s)))"
  by (simp_all add: find_field_def choice_fields_def choice_message_fields_def field_def)

lemma find_usage_fields:
  "find_field usage_fields ''prompt_tokens'' =
     Some (''prompt_tokens'', \<lambda>j s. map_option (\<lambda>x. s\<lparr>us_Prompt := x\<rparr>) (dec_int j (us_Prompt s)))"
  "find_field usage_fields ''completion_tokens'' =
     Some (''completion_tokens'', \<lambda>j s. map_option (\<lambda>x. s\<lparr>us_Completion := x\<rparr>) (dec_int j (us_Completion s)))"
  "find_field usage_fields ''total_tokens'' =
     Some (''total_tokens'', \<lambda>j s. map_option (\<lambda>x. s\<lparr>us_Total := x\<rparr>) (dec_int j (us_Total s)))"
  by (simp_all add: find_field_def usage_fields_def field_def)

lemma decode_choice:
  "int64 (ch_Index c) \<Longrightarrow> dec_struct choice_fields (choice_json c) zero_choice = Some c"
  by (simp add: choice_json_def find_choice_fields dec_int_jint)

lemma decode_choices:
  "list_all (\<lambda>c. int64 (ch_Index c)) cs \<Longrightarrow>
   traverse (\<lambda>j. dec_struct choice_fields j zero_choice) (map choice_json cs) = Some cs"
  by (induction cs) (simp_all add: decode_choice)

lemma find_response_fields:
  "find_field response_fields ''id'' =
     Some (''id'', \<lambda>j s. map_option (\<lambda>x. s\<lparr>cs_ID := x\<rparr>) (dec_string j (cs_ID s)))"
  "find_field response_fields ''object'' =
     Some (''object'', \<lambda>j s. map_option (\<lambda>x. s\<lparr>cs_Object := x\<rparr>) (dec_string j (cs_Object s)))"
  "find_field response_fields ''created'' =
     Some (''created'', \<lambda>j s. map_option (\<lambda>x. s\<lparr>cs_Created := x\<rparr>) (dec_int j (cs_Created s)))"
  "find_field response_fields ''model'' =
     Some (''model'', \<lambda>j s. map_option (\<lambda>x. s\<lparr>cs_Model := x\<rparr>) (dec_string j (cs_Model s)))"
  "find_field response_fields ''choices'' =
     Some (''choices'', \<lambda>j s. map_option (\<lambda>x. s\<lparr>cs_Choices := x\<rparr>)
       (dec_ptr (dec_list (dec_struct choice_fields) zero_choice) [] j (cs_Choices s)))"
  "find_field response_fields ''usage'' =
     Some (''usage'', \<lambda>j s. map_option (\<lambda>x. s\<lparr>cs_Usage := x\<rparr>) (dec_struct usage_fields j (cs_Usage s)))"
  by (simp_all add: find_field_def response_fields_def field_def)

lemma decode_response:
  assumes "response_range r"
  shows "dec_struct response_fields (response_json r) zero_response = Some r"
proof -
  have "dec_ptr (dec_list (dec_struct choice_fields) zero_choice) []
      (case cs_Choices r of None \<Rightarrow> JNull | Some cs \<Rightarrow> JArr (map choice_json cs)) None =
    Some (cs_Choices r)"
    using assms decode_choices by (cases "cs_Choices r") (auto simp: response_range_def)
  then show ?thesis
    using assms
    by (simp add: response_range_def response_json_def find_response_fields dec_int_jint
        find_usage_fields zero_response_def zero_usage_def)
qed

lemma response_roundtrip:
  assumes "response_range r"
  shows "unmarshal_response (encode_line (response_json r)) = Some (clean_response r)"
proof -
  have "response_range (clean_response r)"
    using assms by (cases "cs_Choices r")
      (auto simp: response_range_def clean_response_def clean_choice_def list_all_iff)
  then show ?thesis
    using json_reads [OF response_json_ok] decode_response
    by (simp add: unmarshal_response_def clean_response_json)
qed

section \<open>What the adapters make\<close>

lemma int64_0 [simp]: "int64 0"
  by (simp add: int64_def)

lemma choice_fields_ok:
  "(n, f) \<in> set choice_message_fields \<Longrightarrow> strings_ok v \<Longrightarrow> choice_ok c \<Longrightarrow> f v c = Some c' \<Longrightarrow> choice_ok c'"
  by (auto simp: choice_message_fields_def field_def choice_ok_def dest: dec_string_ok)

lemma choice_decoded_ok:
  assumes "strings_ok j" "dec_struct choice_fields j zero_choice = Some c"
  shows "choice_ok c"
proof (rule dec_struct_strings [where P = choice_ok, OF _ _ assms])
  show "choice_ok zero_choice" by (simp add: choice_ok_def)
  fix n f v c c'
  assume a: "(n, f) \<in> set choice_fields" "strings_ok v" "choice_ok c" "f v c = Some c'"
  have "choice_ok c'" if "dec_struct choice_message_fields v c = Some c'"
    using dec_struct_strings [where P = choice_ok, OF choice_fields_ok a(3,2) that] .
  then show "choice_ok c'"
    using a by (auto simp: choice_fields_def field_def choice_ok_def dest: dec_string_ok dec_int_range)
qed

definition usage_range :: "Usage \<Rightarrow> bool" where
  "usage_range u \<longleftrightarrow> int64 (us_Prompt u) \<and> int64 (us_Completion u) \<and> int64 (us_Total u)"

lemma usage_decoded:
  assumes "usage_range u" "strings_ok j" "dec_struct usage_fields j u = Some u'"
  shows "usage_range u'"
  by (rule dec_struct_strings [where P = usage_range, OF _ assms])
     (auto simp: usage_fields_def field_def usage_range_def dest: dec_int_range)

lemma map_option_SomeE:
  assumes "map_option g y = Some z"
  obtains x where "y = Some x" "z = g x"
  using assms by auto

lemma unmarshal_response_ok:
  assumes "unmarshal_response raw = Some r"
  shows "response_ok r"
proof -
  obtain j where j: "json_unmarshal raw = Some j" "dec_struct response_fields j zero_response = Some r"
    using assms by (auto simp: unmarshal_response_def bind_eq_Some_conv)
  have P: "response_ok s \<longleftrightarrow> int64 (cs_Created s) \<and> usage_range (cs_Usage s) \<and> utf8_ok (cs_ID s) \<and>
      utf8_ok (cs_Object s) \<and> utf8_ok (cs_Model s) \<and>
      (case cs_Choices s of None \<Rightarrow> True | Some cs \<Rightarrow> list_all choice_ok cs)" for s
    by (cases "cs_Choices s")
       (auto simp: response_ok_def response_range_def usage_range_def list_all_iff choice_ok_def)
  have ch: "list_all choice_ok cs" if "strings_ok v" "dec_ptr (dec_list (dec_struct choice_fields) zero_choice) [] v old = Some (Some cs)"
    for v old cs
  proof -
    note v = that
    obtain old' where "dec_list (dec_struct choice_fields) zero_choice v old' = Some cs"
      using v(2) by (cases v) (auto simp del: dec_list.simps)
    with choice_decoded_ok v(1) show ?thesis by (rule dec_list_strings)
  qed
  have fields: "list_all (\<lambda>(n, f). \<forall>v s s'. strings_ok v \<longrightarrow> response_ok s \<longrightarrow> f v s = Some s' \<longrightarrow>
      response_ok s') response_fields"
    unfolding response_fields_def field_def list.pred_inject prod.case
  proof (intro conjI allI impI TrueI, goal_cases)
    case (1 v s s')
    then show ?case by (elim map_option_SomeE) (auto simp: P dest: dec_string_ok)
  next
    case (2 v s s')
    then show ?case by (elim map_option_SomeE) (auto simp: P dest: dec_string_ok)
  next
    case (3 v s s')
    then show ?case using dec_int_range by (elim map_option_SomeE) (simp add: P)
  next
    case (4 v s s')
    then show ?case by (elim map_option_SomeE) (auto simp: P dest: dec_string_ok)
  next
    case (5 v s s')
    then obtain x where "dec_ptr (dec_list (dec_struct choice_fields) zero_choice) [] v (cs_Choices s) = Some x"
      "s' = s\<lparr>cs_Choices := x\<rparr>" by (elim map_option_SomeE)
    then show ?case using 5(1,2) ch [of v "cs_Choices s"] by (cases x) (simp_all add: P)
  next
    case (6 v s s')
    then show ?case using usage_decoded [of "cs_Usage s" v] by (elim map_option_SomeE) (simp add: P)
  qed simp
  show ?thesis
  proof (rule dec_struct_strings [where P = response_ok, OF _ _ json_unmarshal_strings [OF j(1)] j(2)])
    show "response_ok zero_response"
      unfolding P by (simp add: zero_response_def zero_usage_def usage_range_def)
  qed (use fields in \<open>auto simp: list_all_iff\<close>)
qed

definition anthropic_range :: "anthropic_reply \<Rightarrow> bool" where
  "anthropic_range a \<longleftrightarrow> int64 (ar_Input a) \<and> int64 (ar_Output a)"

lemma unmarshal_anthropic_range: "unmarshal_anthropic raw = Some a \<Longrightarrow> anthropic_range a"
proof -
  assume "unmarshal_anthropic raw = Some a"
  then obtain j where j: "json_unmarshal raw = Some j" "dec_struct anthropic_fields j
      \<lparr>ar_ID = [], ar_Model = [], ar_Content = [], ar_Input = 0, ar_Output = 0\<rparr> = Some a"
    by (auto simp: unmarshal_anthropic_def bind_eq_Some_conv)
  let ?us = "[field ''input_tokens'' dec_int ar_Input (\<lambda>x s. s\<lparr>ar_Input := x\<rparr>),
    field ''output_tokens'' dec_int ar_Output (\<lambda>x s. s\<lparr>ar_Output := x\<rparr>)]"
  have us: "anthropic_range b'" if "strings_ok v" "anthropic_range b" "dec_struct ?us v b = Some b'" for v b b'
    by (rule dec_struct_strings [where P = anthropic_range, OF _ that(2,1,3)])
       (auto simp: field_def anthropic_range_def dest: dec_int_range)
  show ?thesis
    by (rule dec_struct_strings [where P = anthropic_range, OF _ _ json_unmarshal_strings [OF j(1)] j(2)])
       (auto simp: anthropic_fields_def field_def anthropic_range_def dest: us [unfolded anthropic_range_def field_def])
qed

definition gemini_range :: "gemini_reply \<Rightarrow> bool" where
  "gemini_range g \<longleftrightarrow> int64 (gr_Prompt g) \<and> int64 (gr_Output g)"

lemma unmarshal_gemini_range: "unmarshal_gemini raw = Some g \<Longrightarrow> gemini_range g"
proof -
  assume "unmarshal_gemini raw = Some g"
  then obtain j where j: "json_unmarshal raw = Some j" "dec_struct gemini_fields j
      \<lparr>gr_Candidates = [], gr_Prompt = 0, gr_Output = 0\<rparr> = Some g"
    by (auto simp: unmarshal_gemini_def bind_eq_Some_conv)
  let ?us = "[field ''promptTokenCount'' dec_int gr_Prompt (\<lambda>x s. s\<lparr>gr_Prompt := x\<rparr>),
    field ''candidatesTokenCount'' dec_int gr_Output (\<lambda>x s. s\<lparr>gr_Output := x\<rparr>)]"
  have us: "gemini_range b'" if "strings_ok v" "gemini_range b" "dec_struct ?us v b = Some b'" for v b b'
    by (rule dec_struct_strings [where P = gemini_range, OF _ that(2,1,3)])
       (auto simp: field_def gemini_range_def dest: dec_int_range)
  show ?thesis
    by (rule dec_struct_strings [where P = gemini_range, OF _ _ json_unmarshal_strings [OF j(1)] j(2)])
       (auto simp: gemini_fields_def field_def gemini_range_def dest: us [unfolded gemini_range_def field_def])
qed

lemma assistant_range:
  "int64 created \<Longrightarrow> int64 i \<Longrightarrow> int64 n \<Longrightarrow>
   response_range (assistant_response rid created model text i n)"
  by (simp add: response_range_def assistant_response_def)

lemma openai_out_range: "unmarshal_response raw = Some out \<Longrightarrow> response_range (out\<lparr>cs_Model := m\<rparr>)"
  using unmarshal_response_ok [of raw out] by (simp add: response_ok_def response_range_def)

lemma dispatch_range:
  assumes "dispatch_provider tr je ids clk route req = (Inr resp, sent)" "int64 (time_unix (clk 1))"
  shows "response_range resp"
  using assms
  by (auto simp: dispatch_provider_def forwardOpenAICompatible_def forwardAnthropic_def forwardGemini_def
      openai_out_range split: sum.splits option.splits if_splits prod.splits
      intro!: assistant_range dest!: unmarshal_anthropic_range unmarshal_gemini_range
      simp: anthropic_range_def gemini_range_def)

lemma clean_response_model:
  "response_ok out \<Longrightarrow> clean_response (out\<lparr>cs_Model := m\<rparr>) = out\<lparr>cs_Model := clean m\<rparr>"
proof -
  assume "response_ok out"
  then have "clean_response out = out" by (rule clean_response_id)
  moreover have "clean_response (out\<lparr>cs_Model := m\<rparr>) = (clean_response out)\<lparr>cs_Model := clean m\<rparr>"
    by (simp add: clean_response_def)
  ultimately show ?thesis by simp
qed

section \<open>Properties\<close>

text \<open>
  C8. A buffered answer as its client reads it. When a buffered call succeeds the client gets 200 with
  a JSON body that decodes to the response that the provider's adapter made, with U+FFFD for every
  byte of its strings that is not UTF-8. For an OpenAI-compatible provider that is the response the
  provider sent, under the name of the model that the route has.
\<close>

theorem buffered_roundtrip:
  assumes "handleBuffered env cl route req red w = (w', lg, evt, sent)" "ue_Status evt = ''ok''"
    "untouched w" "int64 (time_unix (ce_clk env 1))"
  shows "rw_status w' = 200 \<and> rw_sent_header w' ''Content-Type'' = ''application/json'' \<and>
    (\<exists>resp. dispatch_provider (ce_tr env) (ce_je env) (ce_ids env) (ce_clk env) route req =
         (Inr resp, sent) \<and>
       unmarshal_response (rw_body w') = Some (clean_response resp) \<and>
       (re_ProviderType route \<notin> {''anthropic'', ''gemini''} \<longrightarrow>
          (\<exists>code raw er out. ce_tr env (openai_request route req False) = Response code raw er \<and>
             unmarshal_response raw = Some out \<and>
             clean_response resp = out\<lparr>cs_Model := clean (re_ExternalID route)\<rparr>)))"
proof -
  obtain result err where f: "Forward (ce_tr env) (ce_je env) (ce_ids env) (ce_clk env) route req = (result, err, sent)"
    using assms(1) by (auto simp: handleBuffered_def split: prod.splits option.splits)
  have "err = None"
    using assms(1,2) f by (cases err) (auto simp: handleBuffered_def usage_event_def)
  then obtain resp where d:
    "dispatch_provider (ce_tr env) (ce_je env) (ce_ids env) (ce_clk env) route req = (Inr resp, sent)"
    "fr_Response result = resp"
    using f by (auto simp: Forward_def Let_def split: sum.splits prod.splits)
  have w: "w' = write_body (encode_line (response_json resp))
      (set_header ''Content-Type'' ''application/json'' w)"
    using assms(1) f d(2) \<open>err = None\<close> by (simp add: handleBuffered_def)
  have reply: "rw_status w' = 200" "rw_sent_header w' ''Content-Type'' = ''application/json''"
    "rw_body w' = encode_line (response_json resp)"
    using assms(3) by (simp_all add: w rw_status_def rw_sent_header_def untouched_def header_get_set)
  have view: "unmarshal_response (encode_line (response_json resp)) = Some (clean_response resp)"
    by (rule response_roundtrip) (rule dispatch_range [OF d(1) assms(4)])
  have relayed: "\<exists>code raw er out. ce_tr env (openai_request route req False) = Response code raw er \<and>
      unmarshal_response raw = Some out \<and> clean_response resp = out\<lparr>cs_Model := clean (re_ExternalID route)\<rparr>"
    if "re_ProviderType route \<notin> {''anthropic'', ''gemini''}"
  proof -
    have "forwardOpenAICompatible (ce_tr env) (ce_je env) route req = (Inr resp, sent)"
      using d(1) that by (simp add: dispatch_provider_def)
    then obtain raw out where o: "call_provider (ce_tr env) (openai_request route req False) = (Inr raw, sent)"
      "unmarshal_response raw = Some out" "resp = out\<lparr>cs_Model := re_ExternalID route\<rparr>"
      by (auto simp: forwardOpenAICompatible_def split: sum.splits option.splits prod.splits)
    obtain code er where "ce_tr env (openai_request route req False) = Response code raw er"
      using o(1) by (cases "ce_tr env (openai_request route req False)")
        (auto simp: call_provider_def split: if_splits)
    then show ?thesis
      using o(2) clean_response_model [OF unmarshal_response_ok [OF o(2)]] unfolding o(3) by blast
  qed
  show ?thesis
    by (intro conjI exI [of _ resp] impI d(1) reply(1,2) relayed) (simp_all add: reply(3) view)
qed

definition demo_raw :: string where
  "demo_raw =
     marshal (JObj [(''id'', JStr ''r1''),
       (''choices'', JArr [JObj [(''message'', JObj [(''content'', JStr ''hi'')])]])])"

lemma demo_raw_decoded:
  "unmarshal_response demo_raw =
     Some (zero_response\<lparr>cs_ID := ''r1'', cs_Choices := Some [zero_choice\<lparr>ch_Content := ''hi''\<rparr>]\<rparr>)"
  by code_simp

theorem buffered_roundtrip_witness:
  "\<exists>w' lg evt sent resp. handleBuffered (demo_chat (\<lambda>_. Response 200 demo_raw None) None) demo_user
     demo_route demo_chat_request empty_redaction new_writer = (w', lg, evt, sent) \<and>
     rw_status w' = 200 \<and> unmarshal_response (rw_body w') = Some (clean_response resp)"
proof -
  let ?env = "demo_chat (\<lambda>_. Response 200 demo_raw None) None"
  obtain w' lg evt sent where h: "handleBuffered ?env demo_user demo_route demo_chat_request empty_redaction
      new_writer = (w', lg, evt, sent)" using prod_cases4 by blast
  have "ue_Status evt = ''ok''"
    using h demo_raw_decoded
    by (auto simp: handleBuffered_def Forward_def Let_def dispatch_provider_def demo_route_def zero_route_def
        forwardOpenAICompatible_def call_provider_def usage_event_def demo_chat_def)
  from buffered_roundtrip [OF h this untouched_new] show ?thesis
    using h by (auto simp: demo_chat_def int64_def time_unix_def)
qed

end
