(* ===== verification/App.thy ===== *)
theory App
  imports Handler Config
begin

text \<open>
  The other endpoints (internal/handler/health.go and yad_manifest.go, internal/version) and the
  program put together as cmd/proxy/main.go does it: the components built from the configuration,
  and the route table with the token check in front of the chat handler. Matching a path and a
  method to the table is package chi, taken as exact equality; what it answers to any other request
  is the argument \<open>unrouted\<close>.
\<close>

section \<open>Version and log level\<close>

definition Version :: string where "Version = ''0.1.0''"

definition version_string :: "string \<Rightarrow> string" where
  "version_string v = (if v = [] then ''dev'' else v)"

text \<open>The logger writes the entries of its level and above; every entry carries the service name.\<close>

definition logger_level :: log_level where "logger_level = InfoLevel"

definition logged :: "log_entry list \<Rightarrow> log_entry list" where
  "logged es =
     map (\<lambda>e. e\<lparr>le_fields := (''service'', LStr ''proxy'') # le_fields e\<rparr>)
       (filter (\<lambda>e. logger_level \<le> le_level e) es)"

section \<open>Health and readiness\<close>

definition write_json :: "json \<Rightarrow> response_writer \<Rightarrow> response_writer" where
  "write_json j w = write_body (encode_line j) (set_header ''Content-Type'' ''application/json'' w)"

definition Health :: "response_writer \<Rightarrow> response_writer" where
  "Health =
     write_json (JObj [(''status'', JStr ''ok''), (''version'', JStr (version_string Version))])"

definition ready_json :: "bool \<Rightarrow> string \<Rightarrow> bool \<Rightarrow> string \<Rightarrow> json" where
  "ready_json configured updatedAt manifestConfigured manifestUpdatedAt =
     JObj ([(''status'', JStr (if configured then ''ready'' else ''routing_not_configured''))] @
           omit_empty ''routing_updated_at'' updatedAt @
           [(''routing_configured'', JBool configured),
            (''manifest_configured'', JBool manifestConfigured)] @
           omit_empty ''manifest_updated_at'' manifestUpdatedAt)"

definition unready :: "string \<Rightarrow> response_writer \<Rightarrow> response_writer" where
  "unready status w =
     write_body (encode_line (JObj [(''status'', JStr status)])) (write_header 503 w)"

text \<open>
  The dependencies may be nil (None): the answer of Redis to PING, the keys, and the client; the
  manifest service, when there is one, holds a client of its own.
\<close>

definition Ready ::
    "go_error option option \<Rightarrow> jwks_cache option \<Rightarrow> transport \<Rightarrow> json_errors \<Rightarrow> clock \<Rightarrow>
     client option \<Rightarrow> (client option \<Rightarrow> bool) \<Rightarrow> response_writer \<Rightarrow>
     response_writer \<times> client option" where
  "Ready ping jwks tr je clk core manifest_configured w =
     (if (case ping of Some (Some e) \<Rightarrow> True | _ \<Rightarrow> False)
      then (unready ''redis_unavailable'' w, core)
      else if (case jwks of None \<Rightarrow> False | Some j \<Rightarrow> \<not> HasKeys j)
      then (unready ''jwks_unavailable'' w, core)
      else
        (let (configured, updated, mconf, mupdated, core') =
           (case core of
              None \<Rightarrow> (False, [], False, [], None)
            | Some c \<Rightarrow>
                (case GetRouting tr je clk c of
                   (res, c') \<Rightarrow>
                     (case res of Inl _ \<Rightarrow> False | Inr cfg \<Rightarrow> rc_Models cfg \<noteq> [],
                      RoutingUpdatedAt c', ManifestConfigured c', PlatformConfigUpdatedAt c',
                      Some c')));
           mconf' = (manifest_configured core' \<or> mconf);
           w1 = set_header ''Content-Type'' ''application/json'' w;
           w2 = (if configured then w1 else write_header 503 w1)
         in (write_body (encode_line (ready_json configured updated mconf' mupdated)) w2, core')))"

definition ManifestHandle :: "go_error + Manifest \<Rightarrow> response_writer \<Rightarrow> response_writer" where
  "ManifestHandle res w =
     (case res of
        Inl e \<Rightarrow>
          if errors_is e ErrManifestInvalid then WriteManifestInvalid w
          else WriteManifestUnavailable w
      | Inr m \<Rightarrow>
          write_body (encode_line (manifest_json m))
            (set_header ''Cache-Control'' ''public, max-age=60''
              (set_header ''Content-Type'' ''application/json'' w)))"

section \<open>The program\<close>

text \<open>The parts that stay as they are and the state that requests change.\<close>

record app =
  ap_validator :: validator
  ap_limiter :: limiter
  ap_router :: router
  ap_redactor :: engine
  ap_addr :: string
  ap_jwks :: jwks_cache
  ap_core :: client
  ap_manifest :: Service

text \<open>\<open>main\<close> up to the listener; its two panics are errors.\<close>

definition startup ::
    "environment \<Rightarrow> compiler \<Rightarrow> json_errors \<Rightarrow> (string \<Rightarrow> go_error + string) \<Rightarrow> go_error + app" where
  "startup env compile je read_file =
     (case Load env of
        Inl e \<Rightarrow> Inl e
      | Inr cfg \<Rightarrow>
          (case Redact.New compile je read_file (cf_RedactionEnabled cfg)
                  (cf_RedactionCategories cfg) (cf_RedactionRulesFile cfg) of
             Inl e \<Rightarrow> Inl e
           | Inr engine \<Rightarrow>
               (let ttl = seconds (cf_RoutingCacheSec cfg) in
                Inr \<lparr>ap_validator = \<lparr>va_issuer = cf_JWTIssuer cfg, va_audience = cf_JWTAudience cfg\<rparr>,
                     ap_limiter = \<lparr>failClosed = cf_RateLimitFailClosed cfg\<rparr>,
                     ap_router = NewWithOptions (cf_ConnectTimeout cfg) (cf_ReadTimeout cfg),
                     ap_redactor = engine, ap_addr = ListenAddr cfg,
                     ap_jwks = NewJWKSCache (cf_CorePlatformURL cfg),
                     ap_core = Coreclient.New (cf_CorePlatformURL cfg) (cf_InternalAPIKey cfg) ttl,
                     ap_manifest = Manifest.New ttl\<rparr>)))"

record incoming =
  in_method :: string
  in_path :: string
  in_authorization :: string
  in_body :: string

text \<open>
  The circumstances of one request: those of the chat handler, the JWT library, and the transport,
  JSON errors and clock of the manifest fetch (the platform configuration is read through
  \<open>ce_core\<close>, under the clock \<open>ce_core_clk\<close>).
\<close>

record 'r request_env = "'r chat_env" +
  ev_parse :: jwt_parser
  ev_manifest :: transport
  ev_manifest_je :: json_errors
  ev_manifest_clk :: clock
  ev_unrouted :: "incoming \<Rightarrow> response_writer"

text \<open>The chat environment of a request has the limiter and the engine of the program.\<close>

definition chat_env_of :: "app \<Rightarrow> 'r request_env \<Rightarrow> 'r chat_env" where
  "chat_env_of a env =
     \<lparr>ce_limiter = ap_limiter a, ce_redis = ce_redis env, ce_now = ce_now env,
      ce_order = ce_order env, ce_redactor = Some (ap_redactor a), ce_core = ce_core env,
      ce_core_je = ce_core_je env, ce_core_clk = ce_core_clk env, ce_tr = ce_tr env,
      ce_je = ce_je env, ce_ids = ce_ids env, ce_clk = ce_clk env, ce_latency = ce_latency env,
      ce_stream = ce_stream env, ce_size = ce_size env\<rparr>"

record 'r reply =
  rp_writer :: response_writer
  rp_redis :: 'r
  rp_app :: app
  rp_logs :: "log_entry list"
  rp_usage :: "UsageIngestEvent option"

definition chat_reply :: "app \<Rightarrow> 'r outcome \<Rightarrow> 'r reply" where
  "chat_reply a oc =
     \<lparr>rp_writer = oc_writer oc, rp_redis = oc_redis oc, rp_app = a\<lparr>ap_core := oc_core oc\<rparr>,
      rp_logs = oc_logs oc, rp_usage = oc_usage oc\<rparr>"

definition plain_reply :: "app \<Rightarrow> 'r \<Rightarrow> log_entry list \<Rightarrow> response_writer \<Rightarrow> 'r reply" where
  "plain_reply a r lg w =
     \<lparr>rp_writer = w, rp_redis = r, rp_app = a, rp_logs = lg, rp_usage = None\<rparr>"

definition serve :: "'r request_env \<Rightarrow> incoming \<Rightarrow> 'r \<Rightarrow> app \<Rightarrow> 'r reply" where
  "serve env rq r a =
     (if in_method rq = ''GET'' \<and> in_path rq = ''/health''
      then plain_reply a r [] (Health new_writer)
      else if in_method rq = ''GET'' \<and> in_path rq = ''/ready''
      then (case Ready (Some (Ping (ce_redis env) r)) (Some (ap_jwks a)) (ce_core env)
                   (ce_core_je env) (ce_core_clk env) (Some (ap_core a)) Configured new_writer of
              (w, core) \<Rightarrow>
                plain_reply (case core of None \<Rightarrow> a | Some c \<Rightarrow> a\<lparr>ap_core := c\<rparr>) r [] w)
      else if in_method rq = ''GET'' \<and> in_path rq = ''/v1/yad/manifest''
      then (case Get (ce_core env) (ev_manifest env) (ev_manifest_je env) (ce_core_clk env)
                   (ev_manifest_clk env) (Some (ap_core a)) (ap_manifest a) of
              (res, core, svc, lg) \<Rightarrow>
                plain_reply
                  (case core of None \<Rightarrow> a\<lparr>ap_manifest := svc\<rparr>
                   | Some c \<Rightarrow> a\<lparr>ap_core := c, ap_manifest := svc\<rparr>) r lg
                  (ManifestHandle res new_writer))
      else if in_method rq = ''POST'' \<and> in_path rq = ''/v1/chat''
      then JWTMiddleware (ev_parse env) (ap_validator a) (ap_jwks a) (in_authorization rq)
             (plain_reply a r [])
             (\<lambda>cl w. chat_reply a (Handle (chat_env_of a env) cl (in_body rq) r (ap_core a) w))
             new_writer
      else plain_reply a r [] (ev_unrouted env rq))"

end
