(* ===== verification/App_Steps.thy ===== *)
theory App_Steps
  imports App Handler_Props Manifest_Roundtrip
begin

text \<open>
  The program under concurrency. Requests, the refresh of the keys and the background refresh of the
  client share the state of \<open>app\<close>; each access that changes it is one section under the lock of its
  component, so any interleaving is a sequence of those sections, the steps of \<open>app_step\<close>. Serving a
  request and the two background ticks are sequences of steps, and the reachable states satisfy
  \<open>app_inv\<close>.
\<close>

section \<open>Steps\<close>

inductive app_step :: "app \<Rightarrow> app \<Rightarrow> bool" where
  core: "client_step (ap_core a) c \<Longrightarrow> app_step a (a\<lparr>ap_core := c\<rparr>)"
| manifest: "fetched m \<Longrightarrow>
     app_step a (a\<lparr>ap_manifest := store_manifest m cfg t1 t2 (ap_manifest a)\<rparr>)"
| keys: "ks \<noteq> [] \<Longrightarrow> (\<And>kid key. (kid, key) \<in> set ks \<Longrightarrow> kid \<noteq> [] \<and> rsa_E key \<noteq> 0) \<Longrightarrow>
     app_step a (a\<lparr>ap_jwks := (ap_jwks a)\<lparr>jc_keys := ks, jc_fetchedAt := t\<rparr>\<rparr>)"

inductive app_reachable :: "app \<Rightarrow> bool" where
  start: "startup env compile je read_file = Inr a \<Longrightarrow> app_reachable a"
| step: "app_reachable a \<Longrightarrow> app_step a a' \<Longrightarrow> app_reachable a'"

inductive_cases app_stepE: "app_step a a'"

definition app_inv :: "app \<Rightarrow> bool" where
  "app_inv a \<longleftrightarrow>
     client_inv (ap_core a) \<and>
     (mf_Models (sv_manifest (ap_manifest a)) = [] \<or> fetched (sv_manifest (ap_manifest a))) \<and>
     keys_inv (ap_jwks a)"

text \<open>What the configuration fixed.\<close>

definition app_fixed :: "app \<Rightarrow> validator \<times> limiter \<times> router \<times> engine \<times> string" where
  "app_fixed a = (ap_validator a, ap_limiter a, ap_router a, ap_redactor a, ap_addr a)"

text \<open>A tick of the key refresh and one of the client's background refresh.\<close>

definition jwks_tick :: "transport \<Rightarrow> json_errors \<Rightarrow> go_time \<Rightarrow> app \<Rightarrow> app" where
  "jwks_tick tr je now a = a\<lparr>ap_jwks := snd (jwks_refresh tr je now (ap_jwks a))\<rparr>"

definition core_tick :: "transport \<Rightarrow> json_errors \<Rightarrow> clock \<Rightarrow> clock \<Rightarrow> app \<Rightarrow> app" where
  "core_tick tr je clk clk' a = a\<lparr>ap_core := background_tick tr je clk clk' (ap_core a)\<rparr>"

section \<open>Invariant\<close>

lemma startup_parts:
  assumes "startup env compile je read_file = Inr a"
  obtains cfg engine where "Load env = Inr cfg"
    "Redact.New compile je read_file (cf_RedactionEnabled cfg) (cf_RedactionCategories cfg)
       (cf_RedactionRulesFile cfg) = Inr engine"
    "ap_redactor a = engine" "ap_jwks a = NewJWKSCache (cf_CorePlatformURL cfg)"
    "ap_core a = Coreclient.New (cf_CorePlatformURL cfg) (cf_InternalAPIKey cfg)
       (seconds (cf_RoutingCacheSec cfg))"
    "ap_manifest a = Manifest.New (seconds (cf_RoutingCacheSec cfg))"
    "ap_limiter a = \<lparr>failClosed = cf_RateLimitFailClosed cfg\<rparr>"
    "ap_validator a = \<lparr>va_issuer = cf_JWTIssuer cfg, va_audience = cf_JWTAudience cfg\<rparr>"
    "ap_addr a = ListenAddr cfg"
  using assms by (auto simp: startup_def Let_def split: sum.splits)

lemma startup_inv: "startup env compile je read_file = Inr a \<Longrightarrow> app_inv a"
  by (erule startup_parts) (simp add: app_inv_def client_inv_New keys_inv_New Manifest.New_def empty_manifest_def)

lemma app_step_inv: "app_step a a' \<Longrightarrow> app_inv a \<Longrightarrow> app_inv a'"
  by (induction rule: app_step.induct)
     (auto simp: app_inv_def store_manifest_def keys_inv_def client_step_inv)

lemma app_reachable_inv: "app_reachable a \<Longrightarrow> app_inv a"
  by (induction rule: app_reachable.induct) (auto intro: startup_inv app_step_inv)

lemma app_step_fixed: "app_step a a' \<Longrightarrow> app_fixed a' = app_fixed a"
  by (induction rule: app_step.induct) (simp_all add: app_fixed_def)

lemma app_steps_fixed: "app_step\<^sup>*\<^sup>* a a' \<Longrightarrow> app_fixed a' = app_fixed a"
  by (induction rule: rtranclp_induct) (auto dest: app_step_fixed)

lemma app_steps_reachable: "app_step\<^sup>*\<^sup>* a a' \<Longrightarrow> app_reachable a \<Longrightarrow> app_reachable a'"
  by (induction rule: rtranclp_induct) (auto intro: app_reachable.step)

section \<open>The operations refine the steps\<close>

lemma core_steps: "client_step\<^sup>*\<^sup>* (ap_core a) c \<Longrightarrow> app_step\<^sup>*\<^sup>* a (a\<lparr>ap_core := c\<rparr>)"
proof (induction rule: rtranclp_induct)
  case base
  then show ?case by simp
next
  case (step c d)
  have "app_step (a\<lparr>ap_core := c\<rparr>) (a\<lparr>ap_core := c\<rparr>\<lparr>ap_core := d\<rparr>)"
    using step.hyps by (intro app_step.core) simp
  then show ?case using step.IH by (simp add: rtranclp.rtrancl_into_rtrancl)
qed

lemma jwks_tick_steps: "app_step\<^sup>*\<^sup>* a (jwks_tick tr je now a)"
proof (cases rule: jwks_refresh_cases [of tr je now "ap_jwks a"])
  case (failed e)
  then show ?thesis by (simp add: jwks_tick_def)
next
  case (stored ks body err)
  have "app_step a (a\<lparr>ap_jwks := (ap_jwks a)\<lparr>jc_keys := fold add_jwk ks [], jc_fetchedAt := now\<rparr>\<rparr>)"
    using stored(3) by (rule app_step.keys) (rule fold_add_jwk_inv)
  then show ?thesis using stored(4) by (simp add: jwks_tick_def)
qed

lemma core_tick_steps: "app_step\<^sup>*\<^sup>* a (core_tick tr je clk clk' a)"
  unfolding core_tick_def by (intro core_steps background_tick_steps)

lemma get_manifest_step:
  "fst (snd (get_manifest mtr je clk pcfg s)) = s \<or>
   (\<exists>m cfg t1 t2. fetched m \<and> fst (snd (get_manifest mtr je clk pcfg s)) = store_manifest m cfg t1 t2 s)"
proof (cases pcfg)
  case None
  then show ?thesis by (simp add: get_manifest_def)
next
  case (Some cfg)
  show ?thesis
  proof (cases "fetchAndValidate mtr je (pc_ModelsManifestURL cfg)")
    case (Inl e)
    with Some show ?thesis by (simp add: get_manifest_def refresh_manifest_def)
  next
    case (Inr m)
    then have "fetched m" by (auto simp: fetched_def)
    with Inr Some show ?thesis
      by (cases "manifest_fresh (clk 0) cfg s") (auto simp: get_manifest_def refresh_manifest_def)
  qed
qed

lemma Get_steps:
  assumes "Get ctr mtr je pclk clk (Some (ap_core a)) (ap_manifest a) = (res, core, svc, lg)"
  shows "\<exists>c. core = Some c \<and> app_step\<^sup>*\<^sup>* a (a\<lparr>ap_core := c, ap_manifest := svc\<rparr>)"
proof -
  obtain pres c where p: "GetPlatformConfig ctr je pclk (ap_core a) = (pres, c)" by fastforce
  define pcfg where "pcfg = (case pres of Inl _ \<Rightarrow> None | Inr cfg \<Rightarrow> Some cfg)"
  have c: "core = Some c" "svc = fst (snd (get_manifest mtr je clk pcfg (ap_manifest a)))"
    using assms p by (auto simp: Get_def pcfg_def split: prod.splits)
  have "client_step\<^sup>*\<^sup>* (ap_core a) c" using GetPlatformConfig_steps [of "ap_core a" ctr je pclk] p by simp
  then have s: "app_step\<^sup>*\<^sup>* a (a\<lparr>ap_core := c\<rparr>)" by (rule core_steps)
  have "app_step\<^sup>*\<^sup>* (a\<lparr>ap_core := c\<rparr>) (a\<lparr>ap_core := c, ap_manifest := svc\<rparr>)"
    using get_manifest_step [of mtr je clk pcfg "ap_manifest a"] unfolding c(2) [symmetric]
  proof
    assume "svc = ap_manifest a"
    then show ?thesis by simp
  next
    assume "\<exists>m cfg t1 t2. fetched m \<and> svc = store_manifest m cfg t1 t2 (ap_manifest a)"
    then obtain m cfg t1 t2 where "fetched m" "svc = store_manifest m cfg t1 t2 (ap_manifest a)"
      by blast
    then have "app_step (a\<lparr>ap_core := c\<rparr>) (a\<lparr>ap_core := c\<rparr>\<lparr>ap_manifest := svc\<rparr>)"
      using app_step.manifest [of m "a\<lparr>ap_core := c\<rparr>" cfg t1 t2] by simp
    then show ?thesis by simp
  qed
  with s have "app_step\<^sup>*\<^sup>* a (a\<lparr>ap_core := c, ap_manifest := svc\<rparr>)" by (rule rtranclp_trans)
  with c(1) show ?thesis by blast
qed

lemma serve_chat_steps: "client_step\<^sup>*\<^sup>* core (oc_core (serve_chat env cl body r core lg w))"
proof (cases rule: serve_chat_cases [OF refl, of env cl body r core lg w])
  case (1 w2 core')
  then show ?thesis by (simp add: stopped_def)
next
  case (2 req0 req red route core' w1 w2 lg2 evt sent)
  then show ?thesis
    using ResolveRoute_steps [of core "ce_core env" "ce_core_je env" "ce_core_clk env" "cq_Model req"]
    by simp
qed

lemma Handle_steps: "client_step\<^sup>*\<^sup>* core (oc_core (Handle env claims body r core w))"
  by (auto simp: Handle_def stopped_def serve_chat_steps
      split: option.splits prod.splits sum.splits check_error.splits)

lemma Ready_steps:
  assumes "Ready ping jwks tr je clk (Some (ap_core a)) mc w = (w', core)"
  shows "\<exists>c. core = Some c \<and> client_step\<^sup>*\<^sup>* (ap_core a) c"
proof -
  obtain res c where g: "GetRouting tr je clk (ap_core a) = (res, c)" by fastforce
  then have "client_step\<^sup>*\<^sup>* (ap_core a) c" using GetRouting_steps [of "ap_core a" tr je clk] by simp
  with assms g show ?thesis by (auto simp: Ready_def Let_def split: if_splits)
qed

lemma serve_steps: "app_step\<^sup>*\<^sup>* a (rp_app (serve env rq r a))"
proof -
  consider (health) "in_method rq = ''GET'' \<and> in_path rq = ''/health''"
    | (ready) "in_method rq = ''GET'' \<and> in_path rq = ''/ready''"
    | (manifest) "in_method rq = ''GET'' \<and> in_path rq = ''/v1/yad/manifest''"
    | (chat) "in_method rq = ''POST'' \<and> in_path rq = ''/v1/chat''"
    | (other) "serve env rq r a = plain_reply a r [] (ev_unrouted env rq)"
    by (cases "in_method rq = ''GET'' \<and> in_path rq \<in> {''/health'', ''/ready'', ''/v1/yad/manifest''} \<or>
        in_method rq = ''POST'' \<and> in_path rq = ''/v1/chat''") (auto simp: serve_def)
  then show ?thesis
  proof cases
    case health
    then show ?thesis by (simp add: serve_def plain_reply_def)
  next
    case ready
    obtain w' core where rd: "Ready (Some (Ping (ce_redis env) r)) (Some (ap_jwks a)) (ce_core env)
        (ce_core_je env) (ce_core_clk env) (Some (ap_core a)) Configured new_writer = (w', core)"
      by fastforce
    from Ready_steps [OF rd] ready rd show ?thesis
      by (auto simp: serve_def plain_reply_def intro: core_steps)
  next
    case manifest
    obtain res core svc lg where g: "Get (ce_core env) (ev_manifest env) (ev_manifest_je env)
        (ce_core_clk env) (ev_manifest_clk env) (Some (ap_core a)) (ap_manifest a) = (res, core, svc, lg)"
      using prod_cases4 by blast
    from Get_steps [OF g] manifest g show ?thesis by (auto simp: serve_def plain_reply_def)
  next
    case chat
    then show ?thesis
      by (auto simp: serve_def JWTMiddleware_def plain_reply_def chat_reply_def
          intro!: core_steps Handle_steps split: option.splits)
  next
    case other
    then show ?thesis by (simp add: plain_reply_def)
  qed
qed

section \<open>Which requests make a usage event\<close>

lemma bearer_claims_Some:
  assumes "bearer_claims parse v c authz = Some cl"
  obtains tok where "authz = ''Bearer '' @ tok" "Validate parse v c tok = Inr cl"
proof -
  obtain tok where t: "authz = ''Bearer '' @ tok"
    using assms by (auto simp: bearer_claims_def has_prefix_iff split: if_splits)
  then have "Validate parse v c tok = Inr cl"
    using assms by (simp only: bearer_claims_def has_prefix_append trim_prefix_append)
      (auto split: sum.splits)
  with t show thesis by (rule that)
qed

lemma Handle_usage:
  assumes "oc_usage (Handle env (Some cl) body r core w) = Some evt"
  obtains rl req0 req red route where
    "fst (Check (ce_limiter env) (ce_redis env) (cl_Subject cl) (cl_RateLimitBucket cl) (ce_now env) r) =
       Inr rl"
    "decode_request body = Some req0"
    "applyRedaction (ce_order env) (ce_redactor env) req0 = (req, red)"
    "fst (ResolveRoute (ce_core env) (ce_core_je env) (ce_core_clk env) (cq_Model req0) core) = Inr route"
    "TierAllows (cl_SubscriptionTier cl) (re_TierMin route)"
    "ue_UserID evt = cl_Subject cl" "ue_ModelExternalID evt = cq_Model req0"
    "ue_ProviderID evt = re_ProviderID route"
proof -
  obtain res r' lg where ch: "Check (ce_limiter env) (ce_redis env) (cl_Subject cl)
      (cl_RateLimitBucket cl) (ce_now env) r = (res, r', lg)" using prod_cases3 by blast
  obtain rl where rl: "res = Inr rl"
    using assms ch by (cases res) (auto simp: Handle_def stopped_def split: check_error.splits)
  then have u: "oc_usage (serve_chat env cl body r' core lg (limit_headers rl w)) = Some evt"
    using assms ch by (simp add: Handle_def)
  show thesis
  proof (cases rule: serve_chat_cases [OF refl, of env cl body r' core lg "limit_headers rl w"])
    case (1 w2 core')
    then show ?thesis using u by (simp add: stopped_def)
  next
    case (2 req0 req red route core' w1 w2 lg2 evt' sent)
    moreover have "evt' = evt" using 2(7) u by simp
    moreover have "cq_Model req = cq_Model req0" using applyRedaction_keeps [OF 2(2)] by simp
    ultimately show ?thesis
      using that [of rl req0 req red route] ch rl call_chat_usage [OF 2(6)] by simp
  qed
qed

lemma serve_usage:
  assumes "rp_usage (serve env rq r a) = Some evt"
  obtains cl where "in_method rq = ''POST''" "in_path rq = ''/v1/chat''"
    "bearer_claims (ev_parse env) (ap_validator a) (ap_jwks a) (in_authorization rq) = Some cl"
    "oc_usage (Handle (chat_env_of a env) (Some cl) (in_body rq) r (ap_core a) new_writer) = Some evt"
  using assms
  by (auto simp: serve_def JWTMiddleware_def plain_reply_def chat_reply_def
      split: if_splits option.splits prod.splits)

lemma ResolveRoute_complete:
  "fst (ResolveRoute tr je clk model c) = Inr route \<Longrightarrow> complete_route route"
  by (erule ResolveRoute_Inr) (simp add: find_route_Inr)

end
