(* ===== verification/Demo.thy ===== *)
theory Demo
  imports App_Steps
begin

text \<open>
  The concrete inputs that the witnesses of the properties of the whole program share: an environment
  and the program that starts in it, a program with a stored key and route, and a chat that it serves.
\<close>

section \<open>Examples\<close>

definition demo_os :: environment where
  "demo_os v = (if v = ''INTERNAL_API_KEY'' then ''key''
                else if v = ''JWT_ISSUER'' then ''i''
                else if v = ''JWT_AUDIENCE'' then ''a''
                else if v = ''REDACTION_CATEGORIES'' then ''emial'' else [])"

definition no_rules_file :: "string \<Rightarrow> go_error + string" where
  "no_rules_file f = Inl (errorf ''open'')"

lemma demo_categories: "parseCategories ''emial'' = [''emial'']"
  by (simp add: parseCategories_def trim_space_visible visible_def)

lemma New_no_file:
  "Redact.New compile je read_file enabled cs [] = Inr \<lparr>en_enabled = enabled, en_rules = filter_rules cs\<rparr>"
  by (simp add: Redact.New_def)

lemma demo_filter_rules: "filter_rules [''emial''] = []"
  by (rule filter_rules_unknown) (simp_all add: defaultRules_def mk_rule_def category_defs)

lemma demo_Load:
  "Load demo_os = Inr \<lparr>cf_Addr = ''8090'', cf_CorePlatformURL = ''http://localhost:8080'',
     cf_InternalAPIKey = ''key'', cf_JWTIssuer = ''i'', cf_JWTAudience = ''a'',
     cf_RedisAddr = ''localhost:6379'', cf_RoutingCacheSec = 5, cf_TLSCert = [], cf_TLSKey = [],
     cf_RateLimitFailClosed = False, cf_ConnectTimeout = seconds 10, cf_ReadTimeout = seconds 120,
     cf_RedactionEnabled = True, cf_RedactionCategories = [''emial''], cf_RedactionRulesFile = []\<rparr>"
  by (simp add: Load_def Let_def demo_os_def getenv_def getenvInt_def getenvBool_def demo_categories)

text \<open>The program that starts in it, and one with a stored key and a stored route.\<close>

definition demo_start :: app where
  "demo_start =
     \<lparr>ap_validator = demo_validator, ap_limiter = \<lparr>failClosed = False\<rparr>,
      ap_router = NewWithOptions (seconds 10) (seconds 120),
      ap_redactor = \<lparr>en_enabled = True, en_rules = []\<rparr>, ap_addr = '':8090'',
      ap_jwks = NewJWKSCache ''http://localhost:8080'',
      ap_core = Coreclient.New ''http://localhost:8080'' ''key'' (seconds 5),
      ap_manifest = Manifest.New (seconds 5)\<rparr>"

definition demo_app :: app where
  "demo_app = demo_start\<lparr>ap_core := store_routing demo_config 0 0 (ap_core demo_start),
     ap_jwks := (ap_jwks demo_start)\<lparr>jc_keys := [(''k1'', \<lparr>rsa_N = 3, rsa_E = 3\<rparr>)], jc_fetchedAt := 0\<rparr>\<rparr>"

lemma demo_addr: "ListenAddr \<lparr>cf_Addr = ''8090'', cf_CorePlatformURL = u,
     cf_InternalAPIKey = k, cf_JWTIssuer = i, cf_JWTAudience = a,
     cf_RedisAddr = r, cf_RoutingCacheSec = s, cf_TLSCert = tc, cf_TLSKey = tk,
     cf_RateLimitFailClosed = fc, cf_ConnectTimeout = t1, cf_ReadTimeout = t2,
     cf_RedactionEnabled = e, cf_RedactionCategories = cs, cf_RedactionRulesFile = f\<rparr> = '':8090''"
proof -
  have "atoi ''8090'' = (8090, AtoiOk)" "format_int 8090 = ''8090''" by code_simp+
  then show ?thesis by (simp add: ListenAddr_def)
qed

lemma demo_startup: "startup demo_os compile je no_rules_file = Inr demo_start"
  by (simp add: startup_def demo_Load New_no_file demo_filter_rules demo_start_def demo_validator_def
      demo_addr Let_def)

lemma demo_start_reachable: "app_reachable demo_start"
  by (rule app_reachable.start [OF demo_startup])

lemma demo_app_reachable: "app_reachable demo_app"
proof -
  let ?a1 = "demo_start\<lparr>ap_core := store_routing demo_config 0 0 (ap_core demo_start)\<rparr>"
  have "app_step demo_start ?a1"
    by (intro app_step.core client_step.routing_stored)
       (simp_all add: demo_config_def demo_route_complete)
  moreover have "app_step ?a1 (?a1\<lparr>ap_jwks := (ap_jwks ?a1)\<lparr>jc_keys := [(''k1'', \<lparr>rsa_N = 3, rsa_E = 3\<rparr>)],
      jc_fetchedAt := 0\<rparr>\<rparr>)"
    by (rule app_step.keys) auto
  ultimately show ?thesis
    using demo_start_reachable by (auto simp: demo_app_def intro: app_reachable.step)
qed

definition demo_request_env :: "string list request_env" where
  "demo_request_env =
     \<lparr>ce_limiter = \<lparr>failClosed = True\<rparr>, ce_redis = counting_ops, ce_now = 0, ce_order = id,
      ce_redactor = None, ce_core = \<lambda>_. DoFailed [], ce_core_je = \<lambda>_. errorf [],
      ce_core_clk = \<lambda>_. 0, ce_tr = \<lambda>_. DoFailed ''refused'', ce_je = \<lambda>_. errorf [],
      ce_ids = (''t'', ''s'', ''r''), ce_clk = \<lambda>_. 0, ce_latency = 0, ce_stream = demo_env,
      ce_size = None, ev_parse = demo_parse, ev_manifest = \<lambda>_. DoFailed [],
      ev_manifest_je = \<lambda>_. errorf [], ev_manifest_clk = \<lambda>_. 0, ev_unrouted = \<lambda>_. new_writer\<rparr>"

definition demo_post :: incoming where
  "demo_post = \<lparr>in_method = ''POST'', in_path = ''/v1/chat'', in_authorization = ''Bearer sub'',
     in_body = demo_body\<rparr>"

definition demo_manifest_get :: incoming where
  "demo_manifest_get =
     \<lparr>in_method = ''GET'', in_path = ''/v1/yad/manifest'', in_authorization = [], in_body = []\<rparr>"

text \<open>The chat that it serves.\<close>

lemma demo_app_parts:
  "ap_validator demo_app = demo_validator" "ap_limiter demo_app = \<lparr>failClosed = False\<rparr>"
  "ap_redactor demo_app = \<lparr>en_enabled = True, en_rules = []\<rparr>"
  "jc_keys (ap_jwks demo_app) = [(''k1'', \<lparr>rsa_N = 3, rsa_E = 3\<rparr>)]"
  "ap_core demo_app = store_routing demo_config 0 0 (Coreclient.New ''http://localhost:8080'' ''key'' (5 * second))"
  by (simp_all add: demo_app_def demo_start_def seconds_id)

text \<open>Core's answers that bring the stored key and the stored route.\<close>

definition demo_keys_body :: string where
  "demo_keys_body =
     marshal (JObj [(''keys'', JArr [JObj [(''kty'', JStr ''RSA''), (''kid'', JStr ''k1''),
       (''n'', JStr ''Aw''), (''e'', JStr ''Aw'')]])])"

definition demo_routing_body :: string where
  "demo_routing_body =
     marshal (JObj [(''models'', JArr [JObj [(''modelId'', JStr ''m1''), (''externalId'', JStr ''gpt''),
       (''providerId'', JStr ''p1''), (''providerType'', JStr ''openai''), (''baseUrl'', JStr ''http://p''),
       (''apiKey'', JStr ''k''), (''tierMin'', JStr ''free'')]]), (''updatedAt'', JStr ''t1'')])"

definition demo_jwk :: jwk where
  "demo_jwk = \<lparr>jwk_Kty = ''RSA'', jwk_Kid = ''k1'', jwk_N = ''Aw'', jwk_E = ''Aw''\<rparr>"

lemma demo_keys_decoded:
  "decode_jwks demo_keys_body = Some [demo_jwk]"
  "fold add_jwk [demo_jwk] [] = [(''k1'', \<lparr>rsa_N = 3, rsa_E = 3\<rparr>)]"
  by code_simp+

lemma demo_routing_decoded: "unmarshal_routing demo_routing_body = Some demo_config"
  by code_simp

text \<open>Any program with the key and the route serves the chat.\<close>

lemma demo_post_served:
  assumes "ap_validator a = demo_validator" "ap_limiter a = \<lparr>failClosed = False\<rparr>"
    "ap_redactor a = \<lparr>en_enabled = True, en_rules = []\<rparr>"
    "jc_keys (ap_jwks a) = [(''k1'', \<lparr>rsa_N = 3, rsa_E = 3\<rparr>)]"
    "fst (ResolveRoute (\<lambda>_. DoFailed []) (\<lambda>_. errorf []) (\<lambda>_. 0) ''gpt'' (ap_core a)) = Inr demo_route"
  shows "\<exists>evt. rp_usage (serve demo_request_env demo_post [] a) = Some evt"
proof -
  let ?env = "chat_env_of a demo_request_env"
  have v: "bearer_claims demo_parse (ap_validator a) (ap_jwks a) ''Bearer sub'' =
      Some (demo_claims ''sub'')"
  proof -
    have "has_prefix ''Bearer sub'' ''Bearer ''" "trim_prefix ''Bearer sub'' ''Bearer '' = ''sub''"
      by code_simp+
    moreover have "Validate demo_parse (ap_validator a) (ap_jwks a) ''sub'' =
        Inr (demo_claims ''sub'')"
      by (simp add: Validate_def demo_parse_def key_for_def GetKey_def assms demo_verify_def
          demo_claims_def demo_validator_def)
    ultimately show ?thesis by (simp add: bearer_claims_def)
  qed
  have r: "Redact order \<lparr>en_enabled = True, en_rules = []\<rparr> s = \<lparr>rr_Content = s, rr_Count = 0, rr_Categories = order []\<rparr>"
    if "order [] = []" for order s using that by (simp add: Redact_def)
  obtain core' where rr: "ResolveRoute (\<lambda>_. DoFailed []) (\<lambda>_. errorf []) (\<lambda>_. 0) ''gpt'' (ap_core a) =
      (Inr demo_route, core')" using assms(5) by (metis prod.collapse)
  have c: "\<exists>rl. fst (Check \<lparr>failClosed = False\<rparr> counting_ops ''sub'' ''pro_standard'' 0 []) = Inr rl"
    by (simp add: Check_def bucketLimits_def checkWindow_def counting_ops_def time_truncate_def
        min_key_def day_key_def wrap64_def)
  then obtain rl r' lg where ch: "Check \<lparr>failClosed = False\<rparr> counting_ops ''sub'' ''pro_standard'' 0 [] = (Inr rl, r', lg)"
    by (metis prod_cases3 fst_conv)
  have cl: "cl_Subject (demo_claims ''sub'') = ''sub''" "cl_RateLimitBucket (demo_claims ''sub'') = ''pro_standard''"
    by (simp_all add: demo_claims_def)
  have sc: "oc_usage (serve_chat ?env (demo_claims ''sub'') demo_body r' (ap_core a) lg w) \<noteq> None" for w
    using rr demo_tier
    by (simp add: serve_chat_def demo_body_decodes demo_chat_request_def applyRedaction_def r chat_env_of_def
        demo_request_env_def assms demo_user_def Let_def empty_redaction_def split: prod.split)
  have "oc_usage (Handle ?env (Some (demo_claims ''sub'')) demo_body [] (ap_core a) new_writer) \<noteq> None"
    using sc by (simp add: Handle_def chat_env_of_def demo_request_env_def assms cl ch)
  then show ?thesis
    using v by (simp add: serve_def demo_post_def JWTMiddleware_def demo_request_env_def chat_reply_def)
qed

lemma demo_served:
  "\<exists>evt. rp_usage (serve demo_request_env demo_post [] demo_app) = Some evt"
  by (rule demo_post_served)
     (simp_all add: demo_app_parts ResolveRoute_def GetRouting_def routing_fresh_def demo_config_def
       find_route_def second_def store_routing_eq Coreclient.New_def)

end
