(* ===== verification/Answers.thy ===== *)
theory Answers
  imports Demo Response_Roundtrip
begin

text \<open>
  The shape of every answer: the endpoints answer with a stream, with a JSON object, or with one of
  the documented errors in the unified shape, as a client reads them.
\<close>

section \<open>Typed answers\<close>

definition api_errors :: "(nat \<times> string) list" where
  "api_errors =
     [(400, ''invalid_request''), (401, ''unauthorized''), (403, ''model_tier_denied''),
      (404, ''model_not_available''), (429, ''rate_limit_exceeded''), (501, ''streaming_not_supported''),
      (502, ''provider_unavailable''), (502, ''manifest_invalid''), (503, ''rate_limit_unavailable''),
      (503, ''routing_unavailable''), (503, ''manifest_unavailable''), (504, ''provider_timeout'')]"

definition json_object :: "response_writer \<Rightarrow> bool" where
  "json_object w \<longleftrightarrow> (\<exists>kvs. json_unmarshal (rw_body w) = Some (JObj kvs))"

definition typed_reply :: "response_writer \<Rightarrow> bool" where
  "typed_reply w \<longleftrightarrow>
     rw_status w = 200 \<and>
       (rw_sent_header w ''Content-Type'' = ''text/event-stream'' \<or>
        rw_sent_header w ''Content-Type'' = ''application/json'' \<and> json_object w) \<or>
     list_ex (\<lambda>(status, code). error_reply status code w) api_errors"

lemma json_object_line:
  "rw_body w = encode_line (JObj kvs) \<Longrightarrow> nums_ok (JObj kvs) \<Longrightarrow> depth (JObj kvs) \<le> 10000 \<Longrightarrow> json_object w"
  by (simp add: json_object_def json_reads del: nums_ok.simps depth.simps)

lemma typed_ok:
  assumes "untouched w" "nums_ok (JObj kvs)" "depth (JObj kvs) \<le> 10000"
  shows "typed_reply (write_body (encode_line (JObj kvs)) (set_header ''Content-Type'' ''application/json'' w))"
    (is "typed_reply ?w")
proof -
  have "rw_body ?w = encode_line (JObj kvs)" "rw_status ?w = 200"
    "rw_sent_header ?w ''Content-Type'' = ''application/json''"
    using assms(1) by (simp_all add: untouched_def rw_status_def rw_sent_header_def header_get_set)
  then show ?thesis using json_object_line assms(2,3) by (simp add: typed_reply_def)
qed

lemma typed_error: "error_reply status code w \<Longrightarrow> (status, code) \<in> set api_errors \<Longrightarrow> typed_reply w"
  by (auto simp: typed_reply_def list_ex_iff)

section \<open>The chat endpoint\<close>

lemma response_json_typed:
  "untouched w \<Longrightarrow>
   typed_reply (write_body (encode_line (response_json r)) (set_header ''Content-Type'' ''application/json'' w))"
  using typed_ok response_json_ok [of r] by (simp add: response_json_def del: nums_ok.simps depth.simps)

lemma call_chat_typed:
  assumes "call_chat env cl route req red w = (w2, lg, evt, sent)" "untouched w" "ce_size env = None"
  shows "typed_reply w2"
proof (cases "ue_Status evt = ''ok''")
  case False
  then show ?thesis
    using call_chat_reply [OF assms] by (auto simp: api_errors_def intro: typed_error)
next
  case ok: True
  show ?thesis
  proof (cases "cq_Stream req")
    case False
    then show ?thesis
      using assms(1,2) ok
      by (auto simp: call_chat_def handleBuffered_def usage_event_def response_json_typed
          split: prod.splits option.splits)
  next
    case True
    obtain res err w1 where f: "ForwardStream (ce_tr env) (ce_stream env) route req w = (res, err, w1, sent)"
      using assms(1) True by (auto simp: call_chat_def handleStream_def split: prod.splits option.splits)
    then have "err = None" "w2 = w1"
      using assms(1) ok True
      by (cases err; auto simp: call_chat_def handleStream_def usage_event_def)+
    then have "rw_sent w2 = rw_sent (start_stream w)" using ForwardStream_ok_sent f by blast
    then show ?thesis
      by (simp add: start_stream_sent [OF assms(2)] typed_reply_def rw_status_def rw_sent_header_def
          header_get_set canonical_key_def)
  qed
qed

lemma Handle_typed:
  assumes "untouched w" "ce_size env = None"
  shows "typed_reply (oc_writer (Handle env claims body r core w))"
proof (cases claims)
  case None
  then show ?thesis
    using error_writers(1) [OF assms(1)]
    by (auto simp: Handle_def stopped_def api_errors_def intro: typed_error)
next
  case (Some cl)
  obtain res r' lg where ch: "Check (ce_limiter env) (ce_redis env) (cl_Subject cl)
      (cl_RateLimitBucket cl) (ce_now env) r = (res, r', lg)" using prod_cases3 by blast
  show ?thesis
  proof (cases res)
    case (Inl e)
    then show ?thesis
      using Some ch typed_error [OF error_writers(3) [OF assms(1)]]
        typed_error [OF error_writers(4) [OF assms(1)]]
      by (cases e) (simp_all add: Handle_def stopped_def api_errors_def)
  next
    case (Inr rl)
    let ?w = "limit_headers rl w"
    have w: "untouched ?w" using assms(1) by (simp add: limit_headers_untouched)
    have "typed_reply (oc_writer (serve_chat env cl body r' core lg ?w))"
    proof (cases rule: serve_chat_cases [OF refl, of env cl body r' core lg ?w])
      case (1 w2 core')
      then show ?thesis
        using refusal_reply [OF 1(3) w] by (auto simp: stopped_def api_errors_def intro: typed_error)
    next
      case (2 req0 req red route core' w1 w2 lg2 evt sent)
      then show ?thesis
        using call_chat_typed [OF 2(6) counted_header_untouched [OF 2(3) w] assms(2)] by simp
    qed
    then show ?thesis using Some ch Inr by (simp add: Handle_def)
  qed
qed

section \<open>The other endpoints\<close>

lemma Health_typed: "typed_reply (Health new_writer)"
  unfolding Health_def write_json_def by (rule typed_ok) simp_all

lemma manifest_line_ok: "nums_ok (manifest_json m)" "depth (manifest_json m) \<le> 10000"
proof -
  have n: "nums_ok (entry_json e)" "depth (entry_json e) \<le> 1" for e
    by (auto simp: entry_json_def jint_def num_ok_int split: option.splits)
  have d: "foldr max (map (depth \<circ> entry_json) es) 0 \<le> 1" for es
    using n(2) by (intro foldr_max_bound) (simp del: One_nat_def)
  show "nums_ok (manifest_json m)" using n(1) by (simp add: manifest_json_def list_all_iff)
  show "depth (manifest_json m) \<le> 10000" using d [of "mf_Models m"] by (simp add: manifest_json_def)
qed

lemma ManifestHandle_typed: "typed_reply (ManifestHandle res new_writer)"
proof (cases res)
  case (Inl e)
  then show ?thesis
    using error_writers(11,12) [OF untouched_new]
    by (auto simp: ManifestHandle_def api_errors_def intro: typed_error)
next
  case (Inr m)
  let ?w = "set_header ''Cache-Control'' ''public, max-age=60''
    (set_header ''Content-Type'' ''application/json'' new_writer)"
  have "rw_sent_header (write_body b ?w) ''Content-Type'' = ''application/json''" for b
    by (simp add: rw_sent_header_def header_get_set canonical_key_def new_writer_def)
  then show ?thesis
    using Inr manifest_line_ok [of m] json_object_line
    by (simp add: ManifestHandle_def typed_reply_def rw_status_def new_writer_def manifest_json_def
        del: nums_ok.simps depth.simps)
qed

text \<open>A readiness answer: a JSON object that starts with its status.\<close>

definition ready_reply :: "response_writer \<Rightarrow> bool" where
  "ready_reply w \<longleftrightarrow> rw_status w \<in> {200, 503} \<and>
     (\<exists>status kvs. json_unmarshal (rw_body w) = Some (JObj ((''status'', JStr status) # kvs)))"

lemma clean_status: "clean ''status'' = ''status''"
  by code_simp

lemma unready_reply: "ready_reply (unready status new_writer)"
  by (simp add: ready_reply_def unready_def rw_status_def new_writer_def json_reads clean_status)

lemma ready_json_ok:
  "nums_ok (ready_json c u mc mu)" "depth (ready_json c u mc mu) \<le> 10000"
  "\<exists>status kvs. clean_json (ready_json c u mc mu) = JObj ((''status'', JStr status) # kvs)"
  by (auto simp: ready_json_def omit_empty_def clean_status)

lemma Ready_reply:
  assumes "Ready ping jwks tr je clk core mc new_writer = (w, core')"
  shows "ready_reply w"
proof -
  have "ready_reply (write_body (encode_line (ready_json True u m mu))
      (set_header ''Content-Type'' ''application/json'' new_writer))"
    "ready_reply (write_body (encode_line (ready_json False u m mu))
      (write_header 503 (set_header ''Content-Type'' ''application/json'' new_writer)))" for u m mu
    using ready_json_ok by (auto simp: ready_reply_def rw_status_def new_writer_def json_reads)
  then show ?thesis
    using assms unready_reply
    by (auto simp: Ready_def Let_def split: if_splits option.splits prod.splits sum.splits)
qed

section \<open>Properties\<close>

text \<open>
  C7. The type of every answer. Whatever the state, the environment and the bytes of the request, an
  endpoint other than readiness answers 200 with a JSON object or an event stream, or with one of
  twelve documented pairs of status and code, in a JSON object with that code and a message; and
  readiness answers 200 or 503 with a JSON object that starts with its status.
\<close>

theorem answers_typed:
  assumes "ce_size env = None" "w = rp_writer (serve env rq r a)"
    "(in_method rq, in_path rq) \<in> {(''GET'', ''/health''), (''GET'', ''/ready''),
       (''GET'', ''/v1/yad/manifest''), (''POST'', ''/v1/chat'')}"
  shows "if in_path rq = ''/ready'' then ready_reply w else typed_reply w"
proof -
  consider (health) "in_method rq = ''GET''" "in_path rq = ''/health''"
    | (ready) "in_method rq = ''GET''" "in_path rq = ''/ready''"
    | (manifest) "in_method rq = ''GET''" "in_path rq = ''/v1/yad/manifest''"
    | (chat) "in_method rq = ''POST''" "in_path rq = ''/v1/chat''"
    using assms(3) by auto
  then show ?thesis
  proof cases
    case health
    then show ?thesis using Health_typed assms(2) by (simp add: serve_def plain_reply_def)
  next
    case ready
    then show ?thesis
      using assms(2) Ready_reply by (auto simp: serve_def plain_reply_def split: prod.splits)
  next
    case manifest
    then show ?thesis
      using assms(2) ManifestHandle_typed by (auto simp: serve_def plain_reply_def split: prod.splits)
  next
    case chat
    have "typed_reply (WriteUnauthorized new_writer)"
      by (rule typed_error [OF error_writers(1) [OF untouched_new]]) (simp add: api_errors_def)
    moreover have "ce_size (chat_env_of a env) = None" using assms(1) by (simp add: chat_env_of_def)
    ultimately show ?thesis
      using chat assms(2) Handle_typed [OF untouched_new, of "chat_env_of a env"]
      by (cases "bearer_claims (ev_parse env) (ap_validator a) (ap_jwks a) (in_authorization rq)")
         (simp_all add: serve_def plain_reply_def chat_reply_def JWTMiddleware_def)
  qed
qed

theorem answers_typed_witness: "typed_reply (rp_writer (serve demo_request_env demo_post [] demo_app))"
  using answers_typed [OF _ refl, of demo_request_env demo_post "[]" demo_app]
  by (simp add: demo_request_env_def demo_post_def)

end
