(* ===== verification/Process.thy ===== *)
theory Process
  imports App_Steps "HOL-Library.Multiset"
begin

text \<open>
  The process of cmd/proxy/main.go over the program of App: the two background loops, the listener's
  goroutine, the main goroutine that waits for a signal and shuts the server down, the requests in
  flight and the goroutines that report usage. What happens is a sequence of events, each of which
  the scheduler, the operating system or a client decides; \<open>proc_next\<close> is None where an event
  cannot happen. A request takes effect in one event here; the finer interleavings of its locked
  sections are those of App_Steps.
\<close>

section \<open>The background loops\<close>

text \<open>
  What a \<open>select\<close> over a ticker and the context receives. The loop returns at \<open>Done\<close>; the flag
  says whether it has. \<open>time.NewTicker\<close> panics on a period that is not positive: None.
\<close>

datatype 'a wakeup = Tick 'a | Done

fun ticker_loop :: "('a \<Rightarrow> 's \<Rightarrow> 's) \<Rightarrow> 'a wakeup list \<Rightarrow> 's \<Rightarrow> 's \<times> bool" where
  "ticker_loop body [] s = (s, False)"
| "ticker_loop body (Done # ws) s = (s, True)"
| "ticker_loop body (Tick x # ws) s = ticker_loop body ws (body x s)"

definition new_ticker :: "duration \<Rightarrow> unit option" where
  "new_ticker d = (if d \<le> 0 then None else Some ())"

type_synonym keys_wakeup = "transport \<times> json_errors \<times> go_time"
type_synonym core_wakeup = "transport \<times> json_errors \<times> clock \<times> clock"

definition keys_body :: "keys_wakeup \<Rightarrow> jwks_cache \<Rightarrow> jwks_cache" where
  "keys_body x c = (case x of (tr, je, now) \<Rightarrow> snd (jwks_refresh tr je now c))"

definition core_body :: "core_wakeup \<Rightarrow> client \<Rightarrow> client" where
  "core_body x c = (case x of (tr, je, clk, clk') \<Rightarrow> background_tick tr je clk clk' c)"

definition StartRefresh ::
    "keys_wakeup \<Rightarrow> keys_wakeup wakeup list \<Rightarrow> jwks_cache \<Rightarrow> (jwks_cache \<times> bool) option" where
  "StartRefresh first ws c =
     (let c1 = keys_body first c
      in map_option (\<lambda>_. ticker_loop keys_body ws c1) (new_ticker (jc_ttl c1)))"

definition StartBackgroundRefresh ::
    "core_wakeup wakeup list \<Rightarrow> client \<Rightarrow> (client \<times> bool) option" where
  "StartBackgroundRefresh ws c =
     map_option (\<lambda>_. ticker_loop core_body ws c) (new_ticker (c_cacheTTL c))"

section \<open>The process\<close>

text \<open>
  The listener's goroutine has not run, is within \<open>ListenAndServe\<close>, is about to exit the process after
  its fatal log entry, or has returned. The main goroutine waits for the signal, is within \<open>Shutdown\<close>
  since a time, is about to log that the proxy stopped, to run the deferred \<open>cancel\<close> (after
  \<open>shutdownCancel\<close>, which releases a timer), or to return; or the process has ended.
\<close>

datatype listener = Unstarted | Listening | Failing | Returned
datatype main_phase = Awaiting | ShuttingDown go_time | Stopping | Cancelling | Leaving | Exited nat

text \<open>What \<open>ListenAndServe\<close> returns: \<open>http.ErrServerClosed\<close> or another error.\<close>

datatype listen_result = ServerClosed | ListenError go_error

type_synonym answered = "incoming \<times> response_writer \<times> UsageIngestEvent option"

text \<open>
  \<open>ps_tls\<close> are the certificate and the key when the server speaks TLS; \<open>ps_pending\<close> the usage
  goroutines that have not ended, \<open>ps_ingested\<close> those that have. \<open>ps_cancelled\<close> says that the context
  of the background loops is cancelled, \<open>ps_keys_loop\<close> and \<open>ps_core_loop\<close> that they still run.
\<close>

record 'r process =
  ps_app :: app
  ps_redis :: 'r
  ps_tls :: "(string \<times> string) option"
  ps_listener :: listener
  ps_main :: main_phase
  ps_cancelled :: bool
  ps_keys_loop :: bool
  ps_core_loop :: bool
  ps_active :: "incoming multiset"
  ps_answered :: "answered list"
  ps_pending :: "UsageIngestEvent multiset"
  ps_ingested :: "UsageIngestEvent list"
  ps_logs :: "log_entry list"

text \<open>
  \<open>main\<close> up to the wait for a signal; a panic is an error. The refresh of the keys with which
  \<open>StartRefresh\<close> begins is done here, its ticks and those of the client's loop are events.
\<close>

definition tls_of :: "Config \<Rightarrow> (string \<times> string) option" where
  "tls_of cfg =
     (if cf_TLSCert cfg \<noteq> [] \<and> cf_TLSKey cfg \<noteq> [] then Some (cf_TLSCert cfg, cf_TLSKey cfg)
      else None)"

definition boot ::
    "environment \<Rightarrow> compiler \<Rightarrow> json_errors \<Rightarrow> (string \<Rightarrow> go_error + string) \<Rightarrow> keys_wakeup \<Rightarrow>
     'r \<Rightarrow> go_error + 'r process" where
  "boot env compile je read_file first r =
     (case Load env of
        Inl e \<Rightarrow> Inl e
      | Inr cfg \<Rightarrow>
          (case startup env compile je read_file of
             Inl e \<Rightarrow> Inl e
           | Inr a \<Rightarrow>
               Inr \<lparr>ps_app = a\<lparr>ap_jwks := keys_body first (ap_jwks a)\<rparr>, ps_redis = r,
                    ps_tls = tls_of cfg, ps_listener = Unstarted, ps_main = Awaiting,
                    ps_cancelled = False, ps_keys_loop = True, ps_core_loop = True,
                    ps_active = {#}, ps_answered = [], ps_pending = {#}, ps_ingested = [],
                    ps_logs = []\<rparr>))"

definition starting_log :: "string \<Rightarrow> log_entry" where
  "starting_log addr =
     \<lparr>le_level = InfoLevel, le_fields = [(''addr'', LStr addr)], le_msg = ''proxy starting''\<rparr>"

definition failed_log :: "go_error \<Rightarrow> log_entry" where
  "failed_log e =
     \<lparr>le_level = FatalLevel, le_fields = [(''error'', LErr e)], le_msg = ''server failed''\<rparr>"

definition stopped_log :: log_entry where
  "stopped_log = \<lparr>le_level = InfoLevel, le_fields = [], le_msg = ''proxy stopped''\<rparr>"

datatype 'r proc_event =
    ListenerStarts
  | ListenerReturns listen_result
  | ListenerExits
  | Accepted incoming
  | Answered "'r request_env" incoming
  | UsageIngested transport go_error claims UsageIngestEvent
  | KeysTick keys_wakeup
  | KeysDone
  | CoreTick core_wakeup
  | CoreDone
  | Signal go_time
  | ShutdownReturns go_time
  | LogsStopped
  | Cancels
  | MainReturns

definition exited :: "'r process \<Rightarrow> bool" where
  "exited p \<longleftrightarrow> (case ps_main p of Exited _ \<Rightarrow> True | _ \<Rightarrow> False)"

definition shutdown_timeout :: duration where "shutdown_timeout = 10 * second"

text \<open>
  \<open>Shutdown\<close> closes the listener and returns when no request is in flight or its context has run
  out. A further signal stays in the channel.
\<close>

definition shutdown_may_return :: "go_time \<Rightarrow> 'r process \<Rightarrow> bool" where
  "shutdown_may_return now p \<longleftrightarrow>
     (case ps_main p of
        ShuttingDown t0 \<Rightarrow> ps_active p = {#} \<or> shutdown_timeout \<le> time_sub now t0
      | _ \<Rightarrow> False)"

definition listener_returns :: "listen_result \<Rightarrow> 'r process \<Rightarrow> 'r process option" where
  "listener_returns res p =
     (if ps_listener p \<noteq> Listening then None
      else case res of
             ServerClosed \<Rightarrow>
               if ps_main p = Awaiting then None else Some (p\<lparr>ps_listener := Returned\<rparr>)
           | ListenError e \<Rightarrow>
               Some (p\<lparr>ps_listener := Failing, ps_logs := ps_logs p @ [failed_log e]\<rparr>))"

text \<open>
  A loop whose context is cancelled may still take a tick that is there: \<open>select\<close> chooses. The fatal
  exit runs no deferred call.
\<close>

definition answer :: "'r request_env \<Rightarrow> incoming \<Rightarrow> 'r process \<Rightarrow> 'r process" where
  "answer env rq p =
     (let rp = serve env rq (ps_redis p) (ps_app p) in
      p\<lparr>ps_app := rp_app rp, ps_redis := rp_redis rp, ps_active := ps_active p - {#rq#},
        ps_answered := ps_answered p @ [(rq, rp_writer rp, rp_usage rp)],
        ps_pending := ps_pending p + (case rp_usage rp of None \<Rightarrow> {#} | Some evt \<Rightarrow> {#evt#}),
        ps_logs := ps_logs p @ rp_logs rp\<rparr>)"

text \<open>The claims of a usage goroutine are those of the request that started it.\<close>

definition ingested ::
    "transport \<Rightarrow> go_error \<Rightarrow> claims \<Rightarrow> UsageIngestEvent \<Rightarrow> 'r process \<Rightarrow> 'r process" where
  "ingested tr marshal_err cl evt p =
     p\<lparr>ps_pending := ps_pending p - {#evt#}, ps_ingested := ps_ingested p @ [evt],
       ps_logs := ps_logs p @ ingestUsage tr (ap_core (ps_app p)) marshal_err cl evt\<rparr>"

definition proc_next :: "'r proc_event \<Rightarrow> 'r process \<Rightarrow> 'r process option" where
  "proc_next ev p =
     (if exited p then None
      else case ev of
        ListenerStarts \<Rightarrow>
          if ps_listener p = Unstarted
          then Some (p\<lparr>ps_listener := Listening,
                       ps_logs := ps_logs p @ [starting_log (ap_addr (ps_app p))]\<rparr>)
          else None
      | ListenerReturns res \<Rightarrow> listener_returns res p
      | ListenerExits \<Rightarrow> if ps_listener p = Failing then Some (p\<lparr>ps_main := Exited 1\<rparr>) else None
      | Accepted rq \<Rightarrow>
          if ps_listener p = Listening \<and> ps_main p = Awaiting
          then Some (p\<lparr>ps_active := ps_active p + {#rq#}\<rparr>)
          else None
      | Answered env rq \<Rightarrow> if rq \<in># ps_active p then Some (answer env rq p) else None
      | UsageIngested tr marshal_err cl evt \<Rightarrow>
          if evt \<in># ps_pending p \<and> cl_Subject cl = ue_UserID evt
          then Some (ingested tr marshal_err cl evt p) else None
      | KeysTick x \<Rightarrow>
          if ps_keys_loop p
          then Some (p\<lparr>ps_app := (ps_app p)\<lparr>ap_jwks := keys_body x (ap_jwks (ps_app p))\<rparr>\<rparr>)
          else None
      | KeysDone \<Rightarrow>
          if ps_cancelled p \<and> ps_keys_loop p then Some (p\<lparr>ps_keys_loop := False\<rparr>) else None
      | CoreTick x \<Rightarrow>
          if ps_core_loop p
          then Some (p\<lparr>ps_app := (ps_app p)\<lparr>ap_core := core_body x (ap_core (ps_app p))\<rparr>\<rparr>)
          else None
      | CoreDone \<Rightarrow>
          if ps_cancelled p \<and> ps_core_loop p then Some (p\<lparr>ps_core_loop := False\<rparr>) else None
      | Signal now \<Rightarrow>
          Some (if ps_main p = Awaiting then p\<lparr>ps_main := ShuttingDown now\<rparr> else p)
      | ShutdownReturns now \<Rightarrow>
          if shutdown_may_return now p then Some (p\<lparr>ps_main := Stopping\<rparr>) else None
      | LogsStopped \<Rightarrow>
          if ps_main p = Stopping
          then Some (p\<lparr>ps_main := Cancelling, ps_logs := ps_logs p @ [stopped_log]\<rparr>)
          else None
      | Cancels \<Rightarrow>
          if ps_main p = Cancelling then Some (p\<lparr>ps_main := Leaving, ps_cancelled := True\<rparr>)
          else None
      | MainReturns \<Rightarrow> if ps_main p = Leaving then Some (p\<lparr>ps_main := Exited 0\<rparr>) else None)"

fun proc_run :: "'r proc_event list \<Rightarrow> 'r process \<Rightarrow> 'r process option" where
  "proc_run [] p = Some p"
| "proc_run (ev # evs) p = Option.bind (proc_next ev p) (proc_run evs)"

inductive proc_reachable :: "'r process \<Rightarrow> bool" where
  boot: "boot env compile je read_file first r = Inr p \<Longrightarrow> proc_reachable p"
| step: "proc_reachable p \<Longrightarrow> proc_next ev p = Some p' \<Longrightarrow> proc_reachable p'"

section \<open>Lemmas\<close>

lemma exited_simps [simp]:
  "ps_main p = Awaiting \<Longrightarrow> \<not> exited p" "ps_main p = ShuttingDown t \<Longrightarrow> \<not> exited p"
  "ps_main p = Stopping \<Longrightarrow> \<not> exited p" "ps_main p = Cancelling \<Longrightarrow> \<not> exited p"
  "ps_main p = Leaving \<Longrightarrow> \<not> exited p"
  "ps_main p = Exited n \<Longrightarrow> exited p"
  by (simp_all add: exited_def)

lemma serve_jwks: "ap_jwks (rp_app (serve env rq r a)) = ap_jwks a"
  by (auto simp: serve_def plain_reply_def chat_reply_def JWTMiddleware_def
      split: prod.splits option.splits)

lemmas proc_next_defs = proc_next_def listener_returns_def answer_def ingested_def Let_def

text \<open>A step by the kind of its event.\<close>

lemma proc_next_cases:
  assumes "proc_next ev p = Some p'"
  obtains (starts) "ev = ListenerStarts" "ps_listener p = Unstarted"
      "p' = p\<lparr>ps_listener := Listening, ps_logs := ps_logs p @ [starting_log (ap_addr (ps_app p))]\<rparr>"
  | (closed) "ev = ListenerReturns ServerClosed" "ps_listener p = Listening" "ps_main p \<noteq> Awaiting"
      "p' = p\<lparr>ps_listener := Returned\<rparr>"
  | (failed) e where "ev = ListenerReturns (ListenError e)" "ps_listener p = Listening"
      "p' = p\<lparr>ps_listener := Failing, ps_logs := ps_logs p @ [failed_log e]\<rparr>"
  | (fatal) "ev = ListenerExits" "ps_listener p = Failing" "p' = p\<lparr>ps_main := Exited 1\<rparr>"
  | (accepted) rq where "ev = Accepted rq" "ps_listener p = Listening" "ps_main p = Awaiting"
      "p' = p\<lparr>ps_active := ps_active p + {#rq#}\<rparr>"
  | (answered) env rq where "ev = Answered env rq" "rq \<in># ps_active p" "p' = answer env rq p"
  | (ingest) tr merr cl evt where "ev = UsageIngested tr merr cl evt" "evt \<in># ps_pending p"
      "p' = ingested tr merr cl evt p"
  | (keys) x where "ev = KeysTick x" "ps_keys_loop p"
      "p' = p\<lparr>ps_app := (ps_app p)\<lparr>ap_jwks := keys_body x (ap_jwks (ps_app p))\<rparr>\<rparr>"
  | (keys_end) "ev = KeysDone" "ps_cancelled p" "ps_keys_loop p" "p' = p\<lparr>ps_keys_loop := False\<rparr>"
  | (core) x where "ev = CoreTick x" "ps_core_loop p"
      "p' = p\<lparr>ps_app := (ps_app p)\<lparr>ap_core := core_body x (ap_core (ps_app p))\<rparr>\<rparr>"
  | (core_end) "ev = CoreDone" "ps_cancelled p" "ps_core_loop p" "p' = p\<lparr>ps_core_loop := False\<rparr>"
  | (signal) now where "ev = Signal now" "ps_main p = Awaiting" "p' = p\<lparr>ps_main := ShuttingDown now\<rparr>"
  | (again) now where "ev = Signal now" "ps_main p \<noteq> Awaiting" "p' = p"
  | (returns) now where "ev = ShutdownReturns now" "shutdown_may_return now p"
      "p' = p\<lparr>ps_main := Stopping\<rparr>"
  | (logs) "ev = LogsStopped" "ps_main p = Stopping"
      "p' = p\<lparr>ps_main := Cancelling, ps_logs := ps_logs p @ [stopped_log]\<rparr>"
  | (cancels) "ev = Cancels" "ps_main p = Cancelling"
      "p' = p\<lparr>ps_main := Leaving, ps_cancelled := True\<rparr>"
  | (leaves) "ev = MainReturns" "ps_main p = Leaving" "p' = p\<lparr>ps_main := Exited 0\<rparr>"
proof (cases ev)
  case ListenerStarts
  with assms show ?thesis by (intro starts) (auto simp: proc_next_def split: if_splits)
next
  case (ListenerReturns res)
  with assms show ?thesis
    by (cases res)
       (auto simp: proc_next_def listener_returns_def split: if_splits intro: closed failed)
next
  case ListenerExits
  with assms show ?thesis by (intro fatal) (auto simp: proc_next_def split: if_splits)
next
  case (Accepted rq)
  with assms show ?thesis by (intro accepted) (auto simp: proc_next_def split: if_splits)
next
  case (Answered env rq)
  with assms show ?thesis by (intro answered) (auto simp: proc_next_def split: if_splits)
next
  case (UsageIngested tr merr cl evt)
  with assms show ?thesis by (intro ingest) (auto simp: proc_next_def split: if_splits)
next
  case (KeysTick x)
  with assms show ?thesis by (intro keys) (auto simp: proc_next_def split: if_splits)
next
  case KeysDone
  with assms show ?thesis by (intro keys_end) (auto simp: proc_next_def split: if_splits)
next
  case (CoreTick x)
  with assms show ?thesis by (intro core) (auto simp: proc_next_def split: if_splits)
next
  case CoreDone
  with assms show ?thesis by (intro core_end) (auto simp: proc_next_def split: if_splits)
next
  case (Signal now)
  with assms show ?thesis
    by (cases "ps_main p = Awaiting") (auto simp: proc_next_def split: if_splits intro: signal again)
next
  case (ShutdownReturns now)
  with assms show ?thesis by (intro returns) (auto simp: proc_next_def split: if_splits)
next
  case LogsStopped
  with assms show ?thesis by (intro logs) (auto simp: proc_next_def split: if_splits)
next
  case Cancels
  with assms show ?thesis by (intro cancels) (auto simp: proc_next_def split: if_splits)
next
  case MainReturns
  with assms show ?thesis by (intro leaves) (auto simp: proc_next_def split: if_splits)
qed

lemma proc_next_alive: "proc_next ev p = Some p' \<Longrightarrow> \<not> exited p"
  by (auto simp: proc_next_def)

end
