(* ===== verification/Process_Props.thy ===== *)
theory Process_Props
  imports Process Demo
begin

text \<open>
  What holds of the process: its invariant, that a signal ends it, that a shutdown drains the requests
  in flight, what becomes of the usage goroutines, and what the two background loops keep up.
\<close>

section \<open>The invariant\<close>

definition usage_made :: "'r process \<Rightarrow> UsageIngestEvent list" where
  "usage_made p = List.map_filter (\<lambda>(rq, w, u). u) (ps_answered p)"

text \<open>What the log holds when the process is ending, and when the loops' context is cancelled.\<close>

definition end_inv :: "'r process \<Rightarrow> bool" where
  "end_inv p \<longleftrightarrow>
     (ps_main p \<in> {Cancelling, Leaving, Exited 0} \<longrightarrow> stopped_log \<in> set (ps_logs p)) \<and>
     (ps_listener p = Failing \<longrightarrow> (\<exists>e. failed_log e \<in> set (ps_logs p))) \<and>
     (\<forall>n. ps_main p = Exited n \<longrightarrow> n = 0 \<or> n = 1 \<and> (\<exists>e. failed_log e \<in> set (ps_logs p))) \<and>
     (ps_main p \<in> {Leaving, Exited 0} \<longrightarrow> ps_cancelled p) \<and>
     (ps_cancelled p \<longrightarrow> (ps_main p = Leaving \<or> exited p) \<and> stopped_log \<in> set (ps_logs p)) \<and>
     (\<not> ps_keys_loop p \<or> \<not> ps_core_loop p \<longrightarrow> ps_cancelled p)"

definition proc_inv :: "'r process \<Rightarrow> bool" where
  "proc_inv p \<longleftrightarrow>
     app_reachable (ps_app p) \<and>
     mset (usage_made p) = ps_pending p + mset (ps_ingested p) \<and>
     end_inv p \<and>
     (ps_listener p = Unstarted \<longrightarrow> ps_active p = {#} \<and> ps_answered p = []) \<and>
     (\<forall>cert key. ps_tls p = Some (cert, key) \<longrightarrow> cert \<noteq> [] \<and> key \<noteq> [])"

lemma keys_body_reachable:
  "app_reachable a \<Longrightarrow> app_reachable (a\<lparr>ap_jwks := keys_body x (ap_jwks a)\<rparr>)"
  using app_steps_reachable [OF jwks_tick_steps, of a]
  by (cases x) (auto simp: keys_body_def jwks_tick_def)

lemma core_body_reachable:
  "app_reachable a \<Longrightarrow> app_reachable (a\<lparr>ap_core := core_body x (ap_core a)\<rparr>)"
  using app_steps_reachable [OF core_tick_steps, of a]
  by (cases x) (auto simp: core_body_def core_tick_def)

lemma usage_made_snoc:
  "usage_made (answer env rq p) =
     usage_made p @ (case rp_usage (serve env rq (ps_redis p) (ps_app p)) of None \<Rightarrow> [] | Some evt \<Rightarrow> [evt])"
  by (simp add: usage_made_def answer_def Let_def map_filter_def split: option.split)

lemma boot_inv: "boot env compile je read_file first r = Inr p \<Longrightarrow> proc_inv p"
  by (auto simp: boot_def proc_inv_def usage_made_def map_filter_def end_inv_def tls_of_def
      intro: keys_body_reachable [OF app_reachable.start] split: sum.splits if_splits)

lemma end_inv_mono:
  assumes "end_inv p" "ps_main p' = ps_main p" "ps_listener p' = ps_listener p"
    "ps_cancelled p' = ps_cancelled p" "ps_keys_loop p' = ps_keys_loop p"
    "ps_core_loop p' = ps_core_loop p" "set (ps_logs p) \<subseteq> set (ps_logs p')"
  shows "end_inv p'"
  using assms(1) subsetD [OF assms(7)] unfolding end_inv_def exited_def assms(2-6) by blast

lemma end_inv_next:
  assumes "proc_next ev p = Some p'" "end_inv p"
  shows "end_inv p'"
proof -
  have alive: "\<not> exited p" by (rule proc_next_alive [OF assms(1)])
  note inv = assms(2) [unfolded end_inv_def]
  have running: "ps_main p \<noteq> Exited n" for n using alive by auto
  from assms(1) show ?thesis
  proof (cases rule: proc_next_cases)
    case (answered env rq)
    show ?thesis by (rule end_inv_mono [OF assms(2)]) (auto simp: answered(3) answer_def Let_def)
  next
    case (ingest tr merr cl evt)
    show ?thesis by (rule end_inv_mono [OF assms(2)]) (auto simp: ingest(3) ingested_def)
  next
    case (failed e)
    then show ?thesis using inv running by (auto simp: end_inv_def exited_def)
  next
    case fatal
    then show ?thesis using inv running by (auto simp: end_inv_def exited_def)
  next
    case (returns now)
    then obtain t0 where "ps_main p = ShuttingDown t0"
      by (auto simp: shutdown_may_return_def split: main_phase.splits)
    then show ?thesis using inv by (auto simp: returns(3) end_inv_def exited_def)
  qed (use inv running alive in \<open>auto simp: end_inv_def exited_def\<close>)
qed

lemma proc_next_inv: "proc_next ev p = Some p' \<Longrightarrow> proc_inv p \<Longrightarrow> proc_inv p'"
  subgoal premises prems
    using prems(1)
  proof (cases rule: proc_next_cases)
    case (answered env rq)
    have "app_reachable (rp_app (serve env rq (ps_redis p) (ps_app p)))"
      using prems(2) app_steps_reachable [OF serve_steps] by (auto simp: proc_inv_def)
    then show ?thesis
      using prems(2) answered(2) usage_made_snoc [of env rq p] end_inv_next [OF prems(1)]
      unfolding answered(3)
      by (auto simp: proc_inv_def answer_def Let_def split: option.splits)
  qed (use prems(2) end_inv_next [OF prems(1)] in
        \<open>auto simp: proc_inv_def usage_made_def ingested_def keys_body_reachable core_body_reachable\<close>)
  done

lemma proc_run_inv: "proc_run evs p = Some p' \<Longrightarrow> proc_inv p \<Longrightarrow> proc_inv p'"
  by (induction evs arbitrary: p) (auto split: bind_splits dest: proc_next_inv)


section \<open>Shutdown\<close>

definition in_shutdown :: "'r process \<Rightarrow> bool" where
  "in_shutdown p \<longleftrightarrow> (\<exists>t0. ps_main p = ShuttingDown t0)"

lemma answer_simps [simp]:
  "ps_main (answer env rq p) = ps_main p" "ps_keys_loop (answer env rq p) = ps_keys_loop p"
  "ps_active (answer env rq p) = ps_active p - {#rq#}"
  "ps_listener (answer env rq p) = ps_listener p" "ps_ingested (answer env rq p) = ps_ingested p"
  "map fst (ps_answered (answer env rq p)) = map fst (ps_answered p) @ [rq]"
  "ap_jwks (ps_app (answer env rq p)) = ap_jwks (ps_app p)"
  by (simp_all add: answer_def Let_def serve_jwks)

lemma ingested_simps [simp]:
  "ps_main (ingested tr merr cl evt p) = ps_main p"
  "ps_keys_loop (ingested tr merr cl evt p) = ps_keys_loop p" "ps_active (ingested tr merr cl evt p) = ps_active p"
  "ps_listener (ingested tr merr cl evt p) = ps_listener p"
  "ps_answered (ingested tr merr cl evt p) = ps_answered p" "ps_app (ingested tr merr cl evt p) = ps_app p"
  by (simp_all add: ingested_def)

text \<open>
  The stages of the main goroutine. Its own events lead from one to the next; the others leave it
  where it is, but for the first signal and the fatal exit.
\<close>

definition main_event :: "'r proc_event \<Rightarrow> bool" where
  "main_event ev \<longleftrightarrow>
     (case ev of ShutdownReturns now \<Rightarrow> True | LogsStopped \<Rightarrow> True | Cancels \<Rightarrow> True
      | MainReturns \<Rightarrow> True | _ \<Rightarrow> False)"

definition stage :: "'r process \<Rightarrow> nat" where
  "stage p =
     (case ps_main p of Awaiting \<Rightarrow> 0 | ShuttingDown t0 \<Rightarrow> 1 | Stopping \<Rightarrow> 2 | Cancelling \<Rightarrow> 3
      | Leaving \<Rightarrow> 4 | Exited n \<Rightarrow> 5)"

lemma stage_simps [simp]:
  "ps_main p = Awaiting \<Longrightarrow> stage p = 0" "ps_main p = ShuttingDown t0 \<Longrightarrow> stage p = 1"
  "ps_main p = Stopping \<Longrightarrow> stage p = 2" "ps_main p = Cancelling \<Longrightarrow> stage p = 3"
  "ps_main p = Leaving \<Longrightarrow> stage p = 4" "ps_main p = Exited n \<Longrightarrow> stage p = 5"
  by (simp_all add: stage_def)

lemma stage_exited: "stage p = 5 \<longleftrightarrow> exited p" "stage p \<le> 5"
  by (simp_all add: stage_def exited_def split: main_phase.split)

lemma main_step:
  assumes "proc_next ev p = Some p'" "0 < stage p"
  shows "\<not> main_event ev \<and> ps_main p' = ps_main p \<or> main_event ev \<and> stage p' = Suc (stage p) \<or>
    ps_main p' = Exited 1"
  using assms(1)
  by (cases rule: proc_next_cases;
      use assms(2) in \<open>auto simp: main_event_def shutdown_may_return_def split: main_phase.splits\<close>)

text \<open>Once the signal has come no request is accepted: those in flight are answered or still there.\<close>

lemma shutdown_requests:
  assumes "proc_next ev p = Some p'" "0 < stage p"
  shows "mset (map fst (ps_answered p')) + ps_active p' = mset (map fst (ps_answered p)) + ps_active p"
  using assms(1)
  by (cases rule: proc_next_cases; use assms(2) in simp)

lemma exited_stuck: "exited p \<Longrightarrow> proc_next ev p = None"
  by (simp add: proc_next_def)

lemma proc_run_append: "proc_run (es @ fs) p = Option.bind (proc_run es p) (proc_run fs)"
  by (induction es arbitrary: p) (auto split: bind_split)

lemma exited_run: "exited p \<Longrightarrow> proc_run evs p = Some p' \<Longrightarrow> evs = [] \<and> p' = p"
  by (cases evs) (simp_all add: exited_stuck)

text \<open>While the process shuts down in time: within \<open>Shutdown\<close>, or after it with nothing in flight.\<close>

definition draining :: "go_time \<Rightarrow> 'r process \<Rightarrow> bool" where
  "draining t0 p \<longleftrightarrow>
     ps_main p = ShuttingDown t0 \<or> 2 \<le> stage p \<and> (ps_main p = Exited 1 \<or> ps_active p = {#})"

lemma draining_step:
  assumes "proc_next ev p = Some p'" "draining t0 p"
    "\<And>now. ev = ShutdownReturns now \<Longrightarrow> time_sub now t0 < shutdown_timeout"
  shows "draining t0 p'"
  using assms(1)
  by (cases rule: proc_next_cases;
      use assms(2,3) proc_next_alive [OF assms(1)] in
        \<open>auto simp: draining_def shutdown_may_return_def stage_def split: main_phase.splits\<close>)

lemma shutdown_run:
  assumes "proc_run evs p = Some p'" "draining t0 p"
    "\<And>now. ShutdownReturns now \<in> set evs \<Longrightarrow> time_sub now t0 < shutdown_timeout"
  shows "draining t0 p' \<and>
    mset (map fst (ps_answered p')) + ps_active p' = mset (map fst (ps_answered p)) + ps_active p"
  using assms
proof (induction evs arbitrary: p)
  case Nil
  then show ?case by simp
next
  case (Cons ev evs)
  then obtain q where q: "proc_next ev p = Some q" "proc_run evs q = Some p'"
    by (auto split: bind_splits)
  have "draining t0 q" using Cons.prems(3) by (intro draining_step [OF q(1) Cons.prems(2)]) simp
  moreover have "0 < stage p" using Cons.prems(2) by (auto simp: draining_def)
  ultimately show ?case
    using Cons.IH [OF q(2)] Cons.prems(3) shutdown_requests [OF q(1)] by simp
qed

text \<open>Infinite runs; a process that has exited stays as it is.\<close>

definition proc_path :: "(nat \<Rightarrow> 'r proc_event) \<Rightarrow> (nat \<Rightarrow> 'r process) \<Rightarrow> bool" where
  "proc_path ev s \<longleftrightarrow>
     (\<forall>i. proc_next (ev i) (s i) = Some (s (Suc i)) \<or> exited (s i) \<and> s (Suc i) = s i)"

text \<open>
  The main goroutine is scheduled: when it can go on at all times from some moment on (\<open>t j\<close> is the
  time of the j-th event), it does.
\<close>

definition main_ready :: "go_time \<Rightarrow> 'r process \<Rightarrow> bool" where
  "main_ready now p \<longleftrightarrow>
     (case ps_main p of ShuttingDown t0 \<Rightarrow> shutdown_may_return now p | Stopping \<Rightarrow> True
      | Cancelling \<Rightarrow> True | Leaving \<Rightarrow> True | _ \<Rightarrow> False)"

definition main_fair :: "(nat \<Rightarrow> go_time) \<Rightarrow> (nat \<Rightarrow> 'r proc_event) \<Rightarrow> (nat \<Rightarrow> 'r process) \<Rightarrow> bool" where
  "main_fair t ev s \<longleftrightarrow>
     (\<forall>i. (\<forall>j \<ge> i. main_ready (t j) (s j)) \<longrightarrow> (\<exists>j \<ge> i. main_event (ev j)))"

definition time_passes :: "(nat \<Rightarrow> go_time) \<Rightarrow> bool" where
  "time_passes t \<longleftrightarrow> (\<forall>b. \<exists>i. \<forall>j \<ge> i. b \<le> t j)"

lemma proc_path_next: "proc_path ev s \<Longrightarrow> \<not> exited (s i) \<Longrightarrow> proc_next (ev i) (s i) = Some (s (Suc i))"
  by (auto simp: proc_path_def)

lemma signal_phase:
  assumes "proc_path ev s" "ev i = Signal now" "\<not> exited (s i)"
  shows "0 < stage (s (Suc i))"
  using proc_path_next [OF assms(1,3)]
  by (cases rule: proc_next_cases) (use assms(2) in \<open>auto simp: stage_def split: main_phase.splits\<close>)

lemma time_sub_reaches: "t0 + d \<le> t \<Longrightarrow> d \<le> 2 ^ 63 - 1 \<Longrightarrow> d \<le> time_sub t t0"
  by (simp add: time_sub_def)

text \<open>A run that does not end goes on to the next stage, and so comes to the end.\<close>

lemma stage_advances:
  assumes path: "proc_path ev s" and fair: "main_fair t ev s" and time: "time_passes t"
    and alive: "\<And>j. \<not> exited (s j)" and i: "0 < stage (s i)"
  shows "\<exists>j. stage (s j) = Suc (stage (s i))"
proof (rule ccontr)
  assume no: "\<not> ?thesis"
  have stays: "ps_main (s j) = ps_main (s i)" if "i \<le> j" for j
    using that
  proof (induction rule: dec_induct)
    case base
    show ?case by (rule refl)
  next
    case (step j)
    then have "stage (s j) = stage (s i)" by (simp add: stage_def)
    then show ?case
      using main_step [OF proc_path_next [OF path alive, of j]] i no step.IH alive [of "Suc j"] by auto
  qed
  obtain k where k: "\<And>j. k \<le> j \<Longrightarrow> (case ps_main (s i) of ShuttingDown b \<Rightarrow> b | _ \<Rightarrow> 0) + shutdown_timeout \<le> t j"
    using time unfolding time_passes_def by blast
  have "main_ready (t j) (s j)" if "max k i \<le> j" for j
  proof -
    have same: "ps_main (s j) = ps_main (s i)"
      by (rule stays) (use that in simp)
    show ?thesis
    proof (cases "\<exists>b. ps_main (s i) = ShuttingDown b")
      case True
      then obtain b where b: "ps_main (s i) = ShuttingDown b" by blast
      have "b + shutdown_timeout \<le> t j" using k [of j] that by (simp add: b)
      then have "shutdown_timeout \<le> time_sub (t j) b"
        by (rule time_sub_reaches) (simp add: shutdown_timeout_def second_def)
      then show ?thesis by (simp add: main_ready_def shutdown_may_return_def same b)
    next
      case False
      then show ?thesis
        using i alive [of i]
        by (cases "ps_main (s i)") (simp_all add: main_ready_def same)
    qed
  qed
  then obtain j where j: "max k i \<le> j" "main_event (ev j)" using fair unfolding main_fair_def by blast
  then have "stage (s j) = stage (s i)" using stays [of j] by (simp add: stage_def)
  then show False
    using main_step [OF proc_path_next [OF path alive, of j]] i j(2) no alive [of "Suc j"] by auto
qed

lemma stages_end:
  assumes "proc_path ev s" "main_fair t ev s" "time_passes t" "0 < stage (s i)"
  shows "\<exists>j. exited (s j)"
proof (rule ccontr)
  assume "\<not> ?thesis"
  then have alive: "\<not> exited (s j)" for j by blast
  have "\<exists>j. stage (s j) = stage (s i) + n" for n
  proof (induction n)
    case 0
    show ?case by auto
  next
    case (Suc n)
    then obtain j where "stage (s j) = stage (s i) + n" by blast
    then show ?case using stage_advances [OF assms(1-3) alive, of j] assms(4) by auto
  qed
  then obtain j where "stage (s j) = stage (s i) + (5 - stage (s i))" by blast
  then show False using stage_exited [of "s i"] stage_exited(1) [of "s j"] alive by simp
qed

section \<open>Loops over a ticker\<close>

text \<open>What every tick keeps, the loop keeps.\<close>

locale ticker =
  fixes body :: "'a \<Rightarrow> 's \<Rightarrow> 's"
    and inv :: "'s \<Rightarrow> bool"
  assumes tick_keeps: "inv s \<Longrightarrow> inv (body x s)"
begin

lemma loop_keeps: "inv s \<Longrightarrow> inv (fst (ticker_loop body ws s))"
proof (induction ws arbitrary: s)
  case (Cons w ws)
  then show ?case by (cases w) (simp_all add: tick_keeps)
qed simp

end

lemma keys_body_inv: "keys_inv c \<Longrightarrow> keys_inv (keys_body x c)"
  by (simp add: keys_body_def jwks_refresh_inv split: prod.split)

lemma keys_body_HasKeys: "HasKeys c \<Longrightarrow> HasKeys (keys_body x c)"
  by (cases x; rule jwks_refresh_cases [of "fst x" "fst (snd x)" "snd (snd x)" c])
     (simp_all add: keys_body_def HasKeys_def)

lemma core_body_steps: "client_step\<^sup>*\<^sup>* c (core_body x c)"
  by (cases x) (simp add: core_body_def background_tick_steps)

interpretation kt: ticker keys_body keys_inv
  by unfold_locales (rule keys_body_inv)

interpretation kh: ticker keys_body HasKeys
  by unfold_locales (rule keys_body_HasKeys)

interpretation ct: ticker core_body "client_step\<^sup>*\<^sup>* c" for c
  by unfold_locales (erule rtranclp_trans, rule core_body_steps)

section \<open>The keys\<close>

text \<open>What the key loop receives among the events.\<close>

definition key_wakeups :: "'r proc_event list \<Rightarrow> keys_wakeup wakeup list" where
  "key_wakeups evs =
     List.map_filter
       (\<lambda>ev. case ev of KeysTick x \<Rightarrow> Some (Tick x) | KeysDone \<Rightarrow> Some Done | _ \<Rightarrow> None) evs"

lemma key_wakeups_simps [simp]:
  "key_wakeups [] = []"
  "key_wakeups (ev # evs) =
     (case ev of KeysTick x \<Rightarrow> [Tick x] | KeysDone \<Rightarrow> [Done] | _ \<Rightarrow> []) @ key_wakeups evs"
  by (simp_all add: key_wakeups_def map_filter_def split: proc_event.split)

lemma ticker_loop_append:
  "Done \<notin> set ws \<Longrightarrow> ticker_loop body (ws @ vs) s = ticker_loop body vs (fst (ticker_loop body ws s))"
  by (induction body ws s rule: ticker_loop.induct) simp_all

text \<open>The cache changes only by the loop, and not at all once the loop has returned.\<close>

lemma proc_run_keys:
  "proc_run evs p = Some p' \<Longrightarrow>
   (if ps_keys_loop p
    then (ap_jwks (ps_app p'), \<not> ps_keys_loop p') =
           ticker_loop keys_body (key_wakeups evs) (ap_jwks (ps_app p))
    else ap_jwks (ps_app p') = ap_jwks (ps_app p) \<and> \<not> ps_keys_loop p')"
proof (induction evs arbitrary: p)
  case Nil
  then show ?case by auto
next
  case (Cons ev evs)
  then obtain q where q: "proc_next ev p = Some q" "proc_run evs q = Some p'"
    by (auto split: bind_splits)
  from q(1) show ?case
    by (cases rule: proc_next_cases) (use Cons.IH [OF q(2)] in auto)
qed

lemma proc_run_ticks:
  assumes "proc_run evs p = Some p'" "ps_keys_loop p"
  shows "ticker_loop keys_body (key_wakeups evs) (ap_jwks (ps_app p)) =
    (ap_jwks (ps_app p'), \<not> ps_keys_loop p')"
  using proc_run_keys [OF assms(1)] assms(2) by simp

lemma keys_body_ttl: "jc_ttl (keys_body x c) = jc_ttl c"
  by (cases x; rule jwks_refresh_cases [of "fst x" "fst (snd x)" "snd (snd x)" c])
     (simp_all add: keys_body_def)

section \<open>The client's loop\<close>

lemma client_steps_frame:
  "client_step\<^sup>*\<^sup>* c c' \<Longrightarrow>
   c_baseURL c' = c_baseURL c \<and> c_apiKey c' = c_apiKey c \<and> c_cacheTTL c' = c_cacheTTL c"
  by (induction rule: rtranclp_induct) (auto dest: client_step_frame)

lemma core_loop_steps: "client_step\<^sup>*\<^sup>* c (fst (ticker_loop core_body ws c))"
  by (rule ct.loop_keeps) simp

lemma platform_keeps_routing:
  "c_routing (snd (refreshPlatformConfig tr je clk c)) = c_routing c \<and>
   c_expiresAt (snd (refreshPlatformConfig tr je clk c)) = c_expiresAt c"
  by (simp add: refreshPlatformConfig_def Let_def setPlatformFetchError_def store_platform_def
      split: http_result.split option.split)

section \<open>Examples\<close>

text \<open>The process that starts in \<open>demo_os\<close> while Core does not answer, and a run of it.\<close>

definition no_core :: keys_wakeup where
  "no_core = (\<lambda>_. DoFailed [], \<lambda>_. errorf [], 0)"

definition demo_process :: "string list process" where
  "demo_process =
     \<lparr>ps_app = demo_start, ps_redis = [], ps_tls = None, ps_listener = Unstarted,
      ps_main = Awaiting, ps_cancelled = False, ps_keys_loop = True, ps_core_loop = True,
      ps_active = {#}, ps_answered = [], ps_pending = {#}, ps_ingested = [],
      ps_logs = []\<rparr>"

lemma demo_boot: "boot demo_os compile je no_rules_file no_core [] = Inr demo_process"
  by (simp add: boot_def demo_Load demo_startup tls_of_def demo_process_def no_core_def keys_body_def
      jwks_refresh_def)

definition demo_core :: transport where
  "demo_core rq =
     (if rq_url rq = ''http://localhost:8080/v1/internal/ai/routing''
      then Response 200 demo_routing_body None else DoFailed [])"

definition demo_events :: "string list proc_event list" where
  "demo_events =
     [KeysTick (\<lambda>_. Response 200 demo_keys_body None, \<lambda>_. errorf [], 0),
      CoreTick (demo_core, \<lambda>_. errorf [], \<lambda>_. 0, \<lambda>_. 0), ListenerStarts, Accepted demo_post]"

lemma demo_core_body:
  "core_body (demo_core, \<lambda>_. errorf [], \<lambda>_. 0, \<lambda>_. 0) (ap_core demo_start) =
   setPlatformFetchError (errorf_w ErrPlatformUnavailable
      (err_text (url_error (core_get (ap_core demo_start) ''/v1/internal/platform/config'') [])))
     (store_routing demo_config 0 0 (ap_core demo_start))"
proof -
  have "valid_models (rc_Models demo_config) = rc_Models demo_config"
    by (simp add: valid_models_def demo_config_def)
  moreover have "demo_config\<lparr>rc_Models := rc_Models demo_config\<rparr> = demo_config" by simp
  ultimately show ?thesis
    by (simp add: core_body_def background_tick_def refreshRouting_def refreshPlatformConfig_def Let_def
        demo_core_def core_get_def demo_start_def Coreclient.New_def demo_routing_decoded store_routing_eq
        demo_config_def)
qed

lemma demo_run:
  obtains p evt where "proc_run demo_events demo_process = Some p" "ps_main p = Awaiting"
    "ps_active p = {#demo_post#}" "ps_ingested p = []" "ps_answered p = []" "ps_keys_loop p"
    "rp_usage (serve demo_request_env demo_post (ps_redis p) (ps_app p)) = Some evt"
proof -
  let ?c = "core_body (demo_core, \<lambda>_. errorf [], \<lambda>_. 0, \<lambda>_. 0) (ap_core demo_start)"
  let ?a = "demo_start\<lparr>ap_jwks := keys_body (\<lambda>_. Response 200 demo_keys_body None, \<lambda>_. errorf [], 0)
    (ap_jwks demo_start), ap_core := ?c\<rparr>"
  let ?p = "demo_process\<lparr>ps_app := ?a, ps_listener := Listening,
    ps_active := {#demo_post#}, ps_logs := [starting_log (ap_addr demo_start)]\<rparr>"
  have keys: "jc_keys (keys_body (\<lambda>_. Response 200 demo_keys_body None, \<lambda>_. errorf [], 0)
      (ap_jwks demo_start)) = [(''k1'', \<lparr>rsa_N = 3, rsa_E = 3\<rparr>)]"
    by (simp add: keys_body_def jwks_refresh_def demo_keys_decoded [simplified] Let_def)
  have "fst (ResolveRoute (\<lambda>_. DoFailed []) (\<lambda>_. errorf []) (\<lambda>_. 0) ''gpt'' ?c) = Inr demo_route"
    unfolding demo_core_body
    by (simp add: ResolveRoute_def GetRouting_def routing_fresh_def setPlatformFetchError_def
        store_routing_eq demo_config_def find_route_def demo_start_def Coreclient.New_def seconds_id
        second_def)
  then obtain evt where "rp_usage (serve demo_request_env demo_post [] ?a) = Some evt"
    using demo_post_served [of ?a] keys by (auto simp: demo_start_def)
  moreover have "proc_run demo_events demo_process = Some ?p"
    by (simp add: demo_events_def proc_next_def demo_process_def)
  ultimately show thesis by (intro that [of ?p evt]) (simp_all add: demo_process_def)
qed

section \<open>Properties\<close>



text \<open>
  C10. A signal ends the process. In every infinite run in which time passes and the main goroutine is
  scheduled when it can go on, a signal is followed by the exit of the process, whatever requests
  hang, whatever the listener does and however many more signals come.
\<close>

theorem shutdown_ends:
  assumes "proc_path ev s" "main_fair t ev s" "time_passes t" "ev i = Signal now"
  shows "\<exists>j. exited (s j)"
  using signal_phase [OF assms(1,4)] stages_end [OF assms(1-3), of "Suc i"] by blast

definition demo_exit :: "string list proc_event list" where
  "demo_exit = [Signal 0, ShutdownReturns 0, LogsStopped, Cancels, MainReturns]"

definition demo_event_at :: "nat \<Rightarrow> string list proc_event" where
  "demo_event_at i = (if i < 5 then demo_exit ! i else MainReturns)"

definition demo_path :: "nat \<Rightarrow> string list process" where
  "demo_path i =
     demo_process
       \<lparr>ps_main := [Awaiting, ShuttingDown 0, Stopping, Cancelling, Leaving, Exited 0] ! min i 5,
        ps_cancelled := 4 \<le> i, ps_logs := (if 3 \<le> i then [stopped_log] else [])\<rparr>"

lemma demo_proc_path: "proc_path demo_event_at demo_path"
  unfolding proc_path_def
proof
  fix i :: nat
  consider "i = 0" | "i = 1" | "i = 2" | "i = 3" | "i = 4" | "5 \<le> i" by linarith
  then show "proc_next (demo_event_at i) (demo_path i) = Some (demo_path (Suc i)) \<or>
      exited (demo_path i) \<and> demo_path (Suc i) = demo_path i"
    by cases
       (simp_all add: demo_path_def demo_event_at_def demo_exit_def proc_next_def
         shutdown_may_return_def demo_process_def nth_Cons' min_def)
qed

theorem shutdown_ends_witness: "\<exists>j. exited (demo_path j)"
proof -
  have "\<exists>j \<ge> i. main_event (demo_event_at j)" for i
    by (rule exI [of _ "max i 5"]) (simp add: demo_event_at_def main_event_def)
  then have "main_fair int demo_event_at demo_path" unfolding main_fair_def by blast
  moreover have "time_passes int"
  proof -
    have "\<forall>j \<ge> nat b. b \<le> int j" for b by (simp add: nat_le_iff)
    then show ?thesis unfolding time_passes_def by blast
  qed
  moreover have "demo_event_at 0 = Signal 0" by (simp add: demo_event_at_def demo_exit_def)
  ultimately show ?thesis by (rule shutdown_ends [OF demo_proc_path])
qed

text \<open>
  C11. A shutdown drains. When a signal has come and the process exits with status 0 before the ten
  seconds of the shutdown are over, every request that was in flight has been answered, no other has
  been, and none is left.
\<close>

theorem shutdown_drains:
  assumes "ps_main p = ShuttingDown t0" "proc_run evs p = Some p'" "ps_main p' = Exited 0"
    "\<And>now. ShutdownReturns now \<in> set evs \<Longrightarrow> time_sub now t0 < 10 * second"
  shows "ps_active p' = {#} \<and>
    mset (map fst (ps_answered p')) = mset (map fst (ps_answered p)) + ps_active p"
proof -
  have "draining t0 p' \<and>
      mset (map fst (ps_answered p')) + ps_active p' = mset (map fst (ps_answered p)) + ps_active p"
    by (rule shutdown_run [OF assms(2)]) (use assms(1,4) in \<open>simp_all add: draining_def shutdown_timeout_def\<close>)
  then show ?thesis using assms(3) by (auto simp: draining_def)
qed

theorem shutdown_drains_witness:
  "\<exists>p. proc_run (demo_events @ [Signal 0, Answered demo_request_env demo_post] @ tl demo_exit)
     demo_process = Some p \<and> mset (map fst (ps_answered p)) = {#demo_post#}"
proof -
  obtain p evt where p: "proc_run demo_events demo_process = Some p" "ps_main p = Awaiting"
    "ps_active p = {#demo_post#}" "ps_answered p = []"
    by (rule demo_run)
  let ?q = "p\<lparr>ps_main := ShuttingDown 0\<rparr>"
  let ?evs = "Answered demo_request_env demo_post # tl demo_exit"
  obtain p' where r: "proc_run ?evs ?q = Some p'" "ps_main p' = Exited 0"
    using p by (simp add: proc_next_def shutdown_may_return_def demo_exit_def)
  have "mset (map fst (ps_answered p')) = {#demo_post#}"
    using shutdown_drains [OF _ r, of 0] p by (simp add: time_sub_def second_def demo_exit_def)
  moreover have "proc_run (demo_events @ Signal 0 # ?evs) demo_process = Some p'"
    using p r by (simp add: proc_run_append proc_next_def)
  ultimately show ?thesis by auto
qed

text \<open>
  C12. Usage can be lost. Nothing waits for the goroutines that report usage: when a request that makes
  a usage event is answered and a signal follows, the process may exit with status 0, its client
  answered and all its requests drained, while the event has not been reported; it never will be.
\<close>

theorem usage_lost_at_exit:
  assumes "ps_main p = Awaiting" "ps_active p = {#rq#}"
    "rp_usage (serve env rq (ps_redis p) (ps_app p)) = Some evt"
  shows "\<exists>p'. proc_run [Answered env rq, Signal now, ShutdownReturns now, LogsStopped, Cancels,
      MainReturns] p = Some p' \<and>
    ps_main p' = Exited 0 \<and> ps_active p' = {#} \<and> evt \<in># ps_pending p' \<and>
    ps_ingested p' = ps_ingested p \<and>
    (rq, rp_writer (serve env rq (ps_redis p) (ps_app p)), Some evt) \<in> set (ps_answered p') \<and>
    (\<forall>ev. proc_next ev p' = None)"
  using assms
  by (simp add: proc_next_def answer_def Let_def shutdown_may_return_def exited_def)

theorem usage_lost_at_exit_witness:
  "\<exists>p evt. proc_run (demo_events @ Answered demo_request_env demo_post # demo_exit) demo_process = Some p \<and> ps_main p = Exited 0 \<and> ps_pending p \<noteq> {#} \<and> ps_ingested p = []"
proof -
  obtain p evt where p: "proc_run demo_events demo_process = Some p" "ps_main p = Awaiting"
    "ps_active p = {#demo_post#}" "ps_ingested p = []"
    "rp_usage (serve demo_request_env demo_post (ps_redis p) (ps_app p)) = Some evt"
    by (rule demo_run)
  from usage_lost_at_exit [OF p(2,3,5), of 0] show ?thesis
    using p(1,4) by (auto simp: proc_run_append demo_exit_def)
qed

text \<open>A run to the end: the request is answered, a signal comes, the key loop sees the cancellation.\<close>

definition demo_ending :: "string list proc_event list" where
  "demo_ending =
     [Answered demo_request_env demo_post, Signal 0, ShutdownReturns 0, LogsStopped, Cancels, KeysDone,
      MainReturns]"

text \<open>
  C15. The keys of the process. After any run the key cache is what the loop of \<open>StartRefresh\<close> makes
  of what it received, in its order: requests, usage, the client's refreshes and the shutdown do not
  touch it, and the loop never panics. It has returned when, and only when, it received the
  cancellation, which \<open>main\<close> gives after the shutdown and before it returns: no process exits with
  status 0 without it, and none cancels before its shutdown is over and logged. Every stored key is
  usable, and a process that has keys keeps some.
\<close>

theorem keys_refresh_loop:
  assumes "boot env compile je read_file first r = Inr p" "proc_run evs p = Some p'"
    "Load env = Inr cfg"
  shows "StartRefresh first (key_wakeups evs) (NewJWKSCache (cf_CorePlatformURL cfg)) =
      Some (ap_jwks (ps_app p'), \<not> ps_keys_loop p') \<and>
    (\<not> ps_keys_loop p' \<longrightarrow> ps_cancelled p') \<and> (ps_main p' = Exited 0 \<longrightarrow> ps_cancelled p') \<and>
    (ps_cancelled p' \<longrightarrow> stopped_log \<in> set (ps_logs p')) \<and>
    list_all (\<lambda>(kid, key). kid \<noteq> [] \<and> rsa_E key \<noteq> 0) (jc_keys (ap_jwks (ps_app p'))) \<and>
    (HasKeys (ap_jwks (ps_app p)) \<longrightarrow> HasKeys (ap_jwks (ps_app p')))"
proof -
  obtain a where a: "startup env compile je read_file = Inr a"
    "ap_jwks (ps_app p) = keys_body first (ap_jwks a)" "ps_keys_loop p"
    using assms(1,3) by (auto simp: boot_def split: sum.splits)
  note ticks = proc_run_ticks [OF assms(2) a(3)]
  have new: "ap_jwks a = NewJWKSCache (cf_CorePlatformURL cfg)"
    using startup_parts [OF a(1)] assms(3) by (metis sum.inject(2))
  have "keys_inv (fst (ticker_loop keys_body (key_wakeups evs) (ap_jwks (ps_app p))))"
    unfolding a(2) by (intro kt.loop_keeps keys_body_inv) (simp add: new keys_inv_New)
  then have usable: "list_all (\<lambda>(kid, key). kid \<noteq> [] \<and> rsa_E key \<noteq> 0) (jc_keys (ap_jwks (ps_app p')))"
    by (simp add: ticks keys_inv_def list_all_iff)
  have has: "HasKeys (ap_jwks (ps_app p'))" if "HasKeys (ap_jwks (ps_app p))"
    using kh.loop_keeps [OF that, of "key_wakeups evs"] by (simp add: ticks)
  have "jc_ttl (NewJWKSCache (cf_CorePlatformURL cfg)) = 60 * minute"
    by (simp add: NewJWKSCache_def)
  then have loop: "StartRefresh first (key_wakeups evs) (NewJWKSCache (cf_CorePlatformURL cfg)) =
      Some (ap_jwks (ps_app p'), \<not> ps_keys_loop p')"
    using ticks unfolding a(2) new
    by (simp add: StartRefresh_def Let_def keys_body_ttl new_ticker_def minute_def second_def)
  have "proc_inv p'" by (rule proc_run_inv [OF assms(2) boot_inv [OF assms(1)]])
  then have "end_inv p'" unfolding proc_inv_def by blast
  then have "(\<not> ps_keys_loop p' \<longrightarrow> ps_cancelled p') \<and> (ps_main p' = Exited 0 \<longrightarrow> ps_cancelled p') \<and>
      (ps_cancelled p' \<longrightarrow> stopped_log \<in> set (ps_logs p'))"
    unfolding end_inv_def by blast
  with loop usable has show ?thesis by blast
qed

theorem keys_refresh_loop_witness:
  "\<exists>p. proc_run (demo_events @ demo_ending) demo_process = Some p \<and> ps_main p = Exited 0 \<and>
     StartRefresh no_core (key_wakeups (demo_events @ demo_ending)) (NewJWKSCache ''http://localhost:8080'') =
       Some (ap_jwks (ps_app p), True)"
proof -
  obtain p evt where p: "proc_run demo_events demo_process = Some p" "ps_main p = Awaiting"
    "ps_active p = {#demo_post#}" "ps_keys_loop p"
    by (rule demo_run)
  obtain p' where e: "proc_run demo_ending p = Some p'" "ps_main p' = Exited 0" "\<not> ps_keys_loop p'"
    using p(2-4) by (simp add: demo_ending_def proc_next_def shutdown_may_return_def)
  then have "proc_run (demo_events @ demo_ending) demo_process = Some p'"
    using p(1) by (simp add: proc_run_append)
  then show ?thesis using keys_refresh_loop [OF demo_boot _ demo_Load] e by auto
qed

text \<open>
  C13. Routing recovers. However long Core was away or answered badly, one tick of the background loop
  that gets a configuration with a usable model restores the service: until the lifetime of the
  cache is over, every model is resolved in that configuration, without asking Core and whatever
  Core answers then.
\<close>

theorem routing_recovery:
  assumes "StartBackgroundRefresh (ws @ [Tick (tr, je, clk, clk')]) c = Some (c', ended)"
    "Done \<notin> set ws" "tr (core_get c ''/v1/internal/ai/routing'') = Response 200 body err"
    "unmarshal_routing body = Some cfg" "valid_models (rc_Models cfg) \<noteq> []"
    "now 0 \<le> clk 1 + c_cacheTTL c"
  shows "ResolveRoute tr' je' now model c' = (find_route model (valid_models (rc_Models cfg)), c')"
proof -
  define d where "d = fst (ticker_loop core_body ws c)"
  let ?cfg = "cfg\<lparr>rc_Models := valid_models (rc_Models cfg)\<rparr>"
  have d: "c_baseURL d = c_baseURL c" "c_apiKey d = c_apiKey c" "c_cacheTTL d = c_cacheTTL c"
    using client_steps_frame [OF core_loop_steps] unfolding d_def by blast+
  have "core_get d ''/v1/internal/ai/routing'' = core_get c ''/v1/internal/ai/routing''"
    by (simp add: core_get_def d)
  then have "snd (refreshRouting tr je clk d) = store_routing ?cfg (clk 1) (clk 2) d"
    using assms(3-5) by (simp add: refreshRouting_def Let_def)
  moreover have "c' = core_body (tr, je, clk, clk') d"
    using assms(1) ticker_loop_append [OF assms(2), of core_body "[Tick (tr, je, clk, clk')]" c]
    by (auto simp: StartBackgroundRefresh_def d_def)
  ultimately have c': "c' = snd (refreshPlatformConfig tr je clk' (store_routing ?cfg (clk 1) (clk 2) d))"
    by (simp add: core_body_def background_tick_def)
  have "c_routing c' = ?cfg" "c_expiresAt c' = clk 1 + c_cacheTTL c"
    using platform_keeps_routing [of tr je clk' "store_routing ?cfg (clk 1) (clk 2) d"]
    unfolding c' by (simp_all add: store_routing_eq d)
  then show ?thesis
    using assms(5,6) by (simp add: ResolveRoute_def GetRouting_def routing_fresh_def)
qed

theorem routing_recovery_witness:
  "\<exists>c' ended. StartBackgroundRefresh
       ([Tick (\<lambda>_. DoFailed [], \<lambda>_. errorf [], \<lambda>_. 0, \<lambda>_. 0)] @
        [Tick (demo_core, \<lambda>_. errorf [], \<lambda>_. 0, \<lambda>_. 0)]) (ap_core demo_start) = Some (c', ended) \<and>
     ResolveRoute (\<lambda>_. DoFailed []) (\<lambda>_. errorf []) (\<lambda>_. 0) ''gpt'' c' = (Inr demo_route, c')"
proof -
  let ?ws = "[Tick (\<lambda>_. DoFailed [], \<lambda>_. errorf [], \<lambda>_. 0, \<lambda>_. 0)]"
  let ?t = "Tick (demo_core, \<lambda>_. errorf [], \<lambda>_. 0, \<lambda>_. 0)"
  have ttl: "c_cacheTTL (ap_core demo_start) = 5 * second"
    by (simp add: demo_start_def Coreclient.New_def seconds_id second_def)
  obtain c' ended where s: "StartBackgroundRefresh (?ws @ [?t]) (ap_core demo_start) = Some (c', ended)"
    by (cases "ticker_loop core_body (?ws @ [?t]) (ap_core demo_start)")
       (simp add: StartBackgroundRefresh_def new_ticker_def ttl second_def)
  have g: "demo_core (core_get (ap_core demo_start) ''/v1/internal/ai/routing'') =
      Response 200 demo_routing_body None"
    by (simp add: demo_core_def core_get_def demo_start_def Coreclient.New_def)
  have v: "valid_models (rc_Models demo_config) = [demo_route]"
    by (simp add: valid_models_def demo_config_def)
  have "ResolveRoute (\<lambda>_. DoFailed []) (\<lambda>_. errorf []) (\<lambda>_. 0) ''gpt'' c' =
      (find_route ''gpt'' (valid_models (rc_Models demo_config)), c')"
    by (rule routing_recovery [OF s _ g demo_routing_decoded]) (simp_all add: v ttl second_def)
  then show ?thesis using s by (simp add: v find_route_def)
qed

end
