(* ===== verification/Spec2Isabelle.thy ===== *)
theory Spec2Isabelle
  imports Prelude Float64 Json Json_Lemmas Json_Roundtrip Decode Http Apierr Ratelimit
    Ratelimit_Steps Cache Coreclient Coreclient_Steps Regex Redact Redact_Props Redact_Card Regex_Syntax
    Auth Router Accounting Stream Stream_Endless Manifest Manifest_Roundtrip Config Handler Handler_Props Response_Roundtrip App
    App_Steps Demo Answers Process Process_Props
begin

text \<open>
  A verification development of yadra-bridge, the proxy between the Yadra app and AI providers. A
  chat request passes the token check, the rate limiter, the redaction engine and the routing
  configuration of the Core Platform before it is forwarded to its provider, whole or as a stream;
  usage is reported back to Core. Beside it the proxy serves the manifest of downloadable models and
  two probes.

  The parts, and the theories that model them (paths under src/).

  Go itself: \<open>Prelude\<close> (byte strings, decimal conversion, time and duration at 64 bits, errors with
  sentinels, log entries), \<open>Float64\<close> (float64 as exact rationals with rounding to nearest even,
  shortest printing), \<open>Json\<close> (encoding/json: printer and parser), \<open>Json_Lemmas\<close> and \<open>Json_Roundtrip\<close>
  (the parser needs no more fuel than it has, and reads back what the printer prints, with U+FFFD for
  every byte that is not UTF-8), \<open>Decode\<close>
  (decoding into Go types by fields), \<open>Http\<close> (header maps, requests and their outcomes, the response writer with its sent status
  and headers), \<open>Regex\<close> (package regexp: leftmost-first matching, word boundaries, FindAll).

  internal/apierr: \<open>Apierr\<close>. internal/ratelimit: \<open>Ratelimit\<close>, and \<open>Ratelimit_Steps\<close> for checks whose
  round trips to Redis are interleaved. internal/coreclient: \<open>Coreclient\<close> (the
  operations) and \<open>Coreclient_Steps\<close> (the locked sections as a step relation, reachable states);
  \<open>Cache\<close> holds the contract of a cache with a time to live as the locales \<open>ttl_fallback\<close> and
  \<open>ttl_cache\<close>, interpreted for routing, platform configuration and manifest. internal/redact:
  \<open>Redact\<close>, with its lemmas in \<open>Redact_Props\<close> (the locale \<open>span_finder\<close> of any expression's matches,
  interpreted for \<open>find_all\<close>), \<open>Redact_Card\<close> and \<open>Regex_Syntax\<close> (a reader of
  patterns, by which the built-in expressions are checked against a copy of the patterns of
  rules.go). internal/auth: \<open>Auth\<close>. internal/router: \<open>Router\<close>, \<open>Accounting\<close> (token counts and the cost
  of a buffered call, against the exact price), \<open>Stream\<close>, and \<open>Stream_Endless\<close> for relays whose source may never end. internal/yadmanifest: \<open>Manifest\<close>, with \<open>Manifest_Roundtrip\<close> for the way of a
  manifest from its source to a client. config: \<open>Config\<close>. internal/handler: \<open>Handler\<close> and
  \<open>Handler_Props\<close> for chat.go, \<open>Response_Roundtrip\<close> for its buffered answers as a client reads them,
  \<open>App\<close> for the other endpoints, internal/version, internal/logging and the components and routes of
  cmd/proxy/main.go; \<open>App_Steps\<close> is that program under concurrency, and \<open>Answers\<close> gives the type of
  every answer of the endpoints. \<open>Process\<close> is the process around it: the two background loops
  (\<open>StartRefresh\<close>, \<open>StartBackgroundRefresh\<close>), the listener, the signal and the shutdown of main.go,
  requests in flight and the goroutines that report usage; \<open>Process_Props\<close> has what holds of it, with
  the locale \<open>ticker\<close> of what every tick of a loop keeps, interpreted for both loops. \<open>Demo\<close> holds the
  inputs that the witnesses share.

  Correspondence. A struct is a record with its fields under a short prefix, a method is a function
  that takes the state and returns its result beside the new state, an error is the left side of a
  sum or an option. Every effect outside the process is an argument: the HTTP transport (what a
  request is answered with, or how it fails), the Redis commands over a state of any type, the clock
  (\<open>clk i\<close> is the i-th reading an operation makes), generated ids, the text of a JSON error, the order
  in which Go enumerates a map, which writes to a client fail, whether a writer can flush. Requests
  and background goroutines share the client, the key cache and the manifest service; each access is
  one section under a lock, so an interleaving is a sequence of \<open>app_step\<close>, and the operations are
  shown to be such sequences. What happens to the process is a sequence of \<open>proc_event\<close>, each one a
  choice of the scheduler, the operating system or a client, and \<open>proc_next\<close> is the state after it,
  or None where it cannot happen; what \<open>main\<close> does after a signal (the shutdown, its log entry, the
  cancellation of the loops, the return) is one event each. There a request takes effect in one
  event, and a connection is the request on it; the claims of a usage goroutine are those of its
  request. The calls of a provider return, beside their result, the requests they sent (\<open>sent\<close>), so
  that the outcome of a chat says what left the process.

  The lemmas. Per component: what each operation does on each branch (\<open>Check_admitted\<close>,
  \<open>serve_chat_cases\<close>, \<open>jwks_refresh_cases\<close>, \<open>find_route_Inr\<close>, \<open>validateManifest_sound\<close>), the invariants
  (\<open>client_inv\<close>, \<open>service_inv\<close>, \<open>keys_inv\<close>, \<open>app_inv\<close>, \<open>proc_inv\<close>) and their preservation by the steps, refinement of
  the steps by the operations (names ending in \<open>_steps\<close>), and bounds. The properties C1 to C40 stand
  in the theories of the components they are about; those that span the program are here: who reaches
  a provider, the program's invariant, the manifest as its clients see it, refinement and readiness.
  Termination is stated for the relays (they return exactly when their source ends or a write fails)
  and liveness for the process (a signal ends every fair run: each stage of \<open>main\<close> after it lasts until
  its own event, which is possible at once or, for the shutdown, after ten seconds) and for routing (one good tick
  restores it). Properties about errors state what the code does, also where that is a flaw: routing in an
  outage of Core, the Gemini key in the log, truncated streams, usage that is
  lost at an exit; lemmas do so for unknown minimal tiers, misread timeouts, misspelt categories and card numbers that are
  missed.

  Bounds and fuel. Integers are mathematical with the wrap-around written out (\<open>wrap64\<close>) where the
  sources compute at 64 bits, and \<open>64 word\<close> for the RSA exponent. The JSON parser has fuel of twice
  the length of the input plus two, and \<open>parse_fuel\<close> shows that more changes nothing; the scan
  for the matches of an expression makes at most one round per byte and one more; matching itself
  recurses on a lexicographic measure and needs no fuel. \<open>itoa\<close> has the 20 bytes of its buffer, and
  19 are shown to be enough. All other recursion is structural or has its measure.

  Not modelled. The libraries chi (routing is exact equality of method and path; its middlewares
  are left out), go-redis, golang-jwt, uuid, zerolog and godotenv are parameters, or their calls are
  recorded; claims that rest on one name what it documents (\<open>redis_counts\<close>, \<open>redis_local\<close>,
  \<open>jwt_sound\<close>). \<open>regexp.Compile\<close> for custom rules is a parameter; the reader of
  \<open>Regex_Syntax\<close> covers the syntax of the built-in patterns, not all of package regexp. In encoding/json, an element of an array is not decoded over the one of an
  earlier duplicate key; the zero of float64 has no sign, and no fused multiply-add is used. Times
  are wall-clock readings; the zero \<open>time.Time\<close> of a cache that never fetched is the time 0. The error of
  a failed request quotes its URL with the escapes of %q for quotes and backslashes; other escapes,
  and the way net/url prints a parsed URL, are left out (the URL is taken as it was given). The
  effect of the timeouts of HTTP clients is one of the failures of the transport, or the end of the
  source of a stream. Of the listener, TLS, signals and \<open>Shutdown\<close> only what net/http and os/signal
  document is used: a closed server accepts nothing, \<open>Shutdown\<close> returns when no request is in flight
  or its time is over, a further signal stays in the channel. A signal before \<open>signal.Notify\<close>, the
  read timeout of request headers, tests, images and pipelines are left out.
\<close>

section \<open>Properties of the whole program\<close>

text \<open>
  C1. Who reaches a provider. In every reachable state of the program, under any interleaving, and
  given a token library as documented, a request that makes a usage event, which is every request
  that makes a provider call, is a POST to the chat endpoint with a Bearer token that validates: it
  verifies under RS256 with a stored key, and its claims carry the configured issuer and audience and
  a live subscription. Its rate limit admitted it, the model of the event has a complete route, and
  the tier of the claims allows that route. The event is charged to the token's subject.
\<close>

theorem chat_authorised:
  assumes "app_reachable a" "jwt_sound verify (ev_parse env)"
    "rp_usage (serve env rq r a) = Some evt"
  shows "in_method rq = ''POST'' \<and> in_path rq = ''/v1/chat'' \<and>
    (\<exists>tok (cl :: claims) kid key. in_authorization rq = ''Bearer '' @ tok \<and>
       Validate (ev_parse env) (ap_validator a) (ap_jwks a) tok = Inr cl \<and>
       (kid, key) \<in> set (jc_keys (ap_jwks a)) \<and> kid \<noteq> [] \<and> verify ''RS256'' tok key \<and>
       cl_Issuer cl = va_issuer (ap_validator a) \<and>
       va_audience (ap_validator a) \<in> set (cl_Audience cl) \<and>
       cl_SubscriptionStatus cl \<in> {''active'', ''trial''} \<and>
       (\<exists>rl. fst (Check (ap_limiter a) (ce_redis env) (cl_Subject cl) (cl_RateLimitBucket cl)
                    (ce_now env) r) = Inr rl) \<and>
       (\<exists>route model. fst (ResolveRoute (ce_core env) (ce_core_je env) (ce_core_clk env) model
                            (ap_core a)) = Inr route \<and>
          complete_route route \<and> TierAllows (cl_SubscriptionTier cl) (re_TierMin route) \<and>
          ue_ModelExternalID evt = model \<and> ue_ProviderID evt = re_ProviderID route) \<and>
       ue_UserID evt = cl_Subject cl)" (is "_ \<and> _ \<and> (\<exists>tok cl kid key. _ \<and> ?claims tok cl kid key)")
proof -
  obtain cl where s: "in_method rq = ''POST''" "in_path rq = ''/v1/chat''"
    "bearer_claims (ev_parse env) (ap_validator a) (ap_jwks a) (in_authorization rq) = Some cl"
    "oc_usage (Handle (chat_env_of a env) (Some cl) (in_body rq) r (ap_core a) new_writer) = Some evt"
    using assms(3) by (rule serve_usage)
  obtain tok where tok: "in_authorization rq = ''Bearer '' @ tok"
    "Validate (ev_parse env) (ap_validator a) (ap_jwks a) tok = Inr cl"
    using s(3) by (rule bearer_claims_Some)
  obtain kid key where key: "(kid, key) \<in> set (jc_keys (ap_jwks a))" "verify ''RS256'' tok key"
    using jwt_sound_key [OF assms(2) tok(2)] .
  obtain rl req0 req red route where u:
    "fst (Check (ap_limiter a) (ce_redis env) (cl_Subject cl) (cl_RateLimitBucket cl) (ce_now env) r) = Inr rl"
    "decode_request (in_body rq) = Some req0"
    "applyRedaction (ce_order env) (Some (ap_redactor a)) req0 = (req, red)"
    "fst (ResolveRoute (ce_core env) (ce_core_je env) (ce_core_clk env) (cq_Model req0) (ap_core a)) = Inr route"
    "TierAllows (cl_SubscriptionTier cl) (re_TierMin route)"
    "ue_UserID evt = cl_Subject cl" "ue_ModelExternalID evt = cq_Model req0"
    "ue_ProviderID evt = re_ProviderID route"
    by (rule Handle_usage [OF s(4), unfolded chat_env_of_def chat_env.simps])
  have "kid \<noteq> []" using app_reachable_inv [OF assms(1)] key(1) by (auto simp: app_inv_def keys_inv_def)
  moreover have "\<exists>route model. fst (ResolveRoute (ce_core env) (ce_core_je env) (ce_core_clk env)
      model (ap_core a)) = Inr route \<and> complete_route route \<and>
      TierAllows (cl_SubscriptionTier cl) (re_TierMin route) \<and>
      ue_ModelExternalID evt = model \<and> ue_ProviderID evt = re_ProviderID route"
    using u ResolveRoute_complete [OF u(4)] by blast
  ultimately have "\<exists>kid key. in_authorization rq = ''Bearer '' @ tok \<and> ?claims tok cl kid key"
    using tok key Validate_Inr [OF tok(2)] u(1,6) by blast
  then show ?thesis using s(1,2) by blast
qed

theorem chat_authorised_witness:
  "\<exists>evt cl. rp_usage (serve demo_request_env demo_post [] demo_app) = Some evt \<and>
     cl_Issuer (cl :: claims) = ''i'' \<and> ue_UserID evt = cl_Subject cl"
proof -
  obtain evt where e: "rp_usage (serve demo_request_env demo_post [] demo_app) = Some evt"
    using demo_served by blast
  have "jwt_sound demo_verify (ev_parse demo_request_env)"
    using demo_parse_sound by (simp add: demo_request_env_def)
  from chat_authorised [OF demo_app_reachable this e] obtain cl where
    "cl_Issuer (cl :: claims) = va_issuer (ap_validator demo_app)" "ue_UserID evt = cl_Subject cl" by blast
  moreover have "va_issuer (ap_validator demo_app) = ''i''"
    by (simp add: demo_app_parts demo_validator_def)
  ultimately show ?thesis using e by auto
qed

text \<open>
  C6. The invariant of the program. In every reachable state the cached routes are all complete, the
  manifest that is served is empty or sound, and no stored key has an empty id or a zero exponent;
  serving any request, a refresh of the keys and a background refresh of the client all lead to
  reachable states again.
\<close>

theorem program_invariant:
  assumes "app_reachable a"
  shows "list_all complete_route (rc_Models (c_routing (ap_core a))) \<and>
    (mf_Models (sv_manifest (ap_manifest a)) = [] \<or> sound_manifest (sv_manifest (ap_manifest a))) \<and>
    list_all (\<lambda>(kid, key). kid \<noteq> [] \<and> rsa_E key \<noteq> 0) (jc_keys (ap_jwks a)) \<and>
    app_reachable (rp_app (serve env rq r a)) \<and> app_reachable (jwks_tick tr je now a) \<and>
    app_reachable (core_tick tr je clk clk' a)"
proof (intro conjI)
  note inv = app_reachable_inv [OF assms, unfolded app_inv_def]
  show "list_all complete_route (rc_Models (c_routing (ap_core a)))"
    "mf_Models (sv_manifest (ap_manifest a)) = [] \<or> sound_manifest (sv_manifest (ap_manifest a))"
    "list_all (\<lambda>(kid, key). kid \<noteq> [] \<and> rsa_E key \<noteq> 0) (jc_keys (ap_jwks a))"
    using inv by (auto simp: client_inv_def keys_inv_def list_all_iff dest: fetched_sound)
qed (rule app_steps_reachable [OF _ assms], rule serve_steps jwks_tick_steps core_tick_steps)+

theorem program_invariant_witness:
  "app_reachable (rp_app (serve demo_request_env demo_post [] demo_app))"
  by (simp add: program_invariant [OF demo_app_reachable])

text \<open>
  C27. The manifest as a client sees it. In every reachable state, GET of the manifest endpoint is
  answered by 200 with a body that decodes to a sound manifest, or by the unified error for a
  manifest that is unavailable or invalid.
\<close>

theorem manifest_client_view:
  assumes "app_reachable a" "in_method rq = ''GET''" "in_path rq = ''/v1/yad/manifest''"
    "w = rp_writer (serve env rq r a)"
  shows "rw_status w = 200 \<and> (\<exists>m. unmarshal_manifest (rw_body w) = Some m \<and> sound_manifest m) \<or>
    error_reply 503 ''manifest_unavailable'' w \<or> error_reply 502 ''manifest_invalid'' w"
proof -
  obtain res core svc lg where g: "Get (ce_core env) (ev_manifest env) (ev_manifest_je env)
      (ce_core_clk env) (ev_manifest_clk env) (Some (ap_core a)) (ap_manifest a) = (res, core, svc, lg)"
    using prod_cases4 by blast
  then have w: "w = ManifestHandle res new_writer"
    using assms(2-4) by (simp add: serve_def plain_reply_def)
  show ?thesis
  proof (cases res)
    case (Inl e)
    then show ?thesis
      using error_writers(11,12) [OF untouched_new] by (simp add: w ManifestHandle_def)
  next
    case (Inr m)
    have "mf_Models (sv_manifest (ap_manifest a)) = [] \<or> fetched (sv_manifest (ap_manifest a))"
      using app_reachable_inv [OF assms(1)] by (simp add: app_inv_def)
    moreover have "fst (Get (ce_core env) (ev_manifest env) (ev_manifest_je env) (ce_core_clk env)
        (ev_manifest_clk env) (Some (ap_core a)) (ap_manifest a)) = Inr m" using g Inr by simp
    ultimately have "fetched m" by (rule Get_fetched)
    moreover have "rw_status w = 200" "rw_body w = encode_line (manifest_json m)"
      by (simp_all add: w Inr ManifestHandle_def rw_status_def new_writer_def writer)
    ultimately show ?thesis using fetched_roundtrip fetched_sound by auto
  qed
qed

theorem manifest_client_view_witness:
  "error_reply 503 ''manifest_unavailable'' (rp_writer (serve demo_request_env demo_manifest_get [] demo_start))"
proof -
  let ?w = "rp_writer (serve demo_request_env demo_manifest_get [] demo_start)"
  have "?w = WriteManifestUnavailable new_writer"
    by (simp add: serve_def plain_reply_def demo_manifest_get_def demo_request_env_def demo_start_def
        Get_def GetPlatformConfig_def platform_fresh_def refreshPlatformConfig_def Coreclient.New_def
        Manifest.New_def empty_platform_def empty_manifest_def getCachedPlatformOrError_def
        setPlatformFetchError_def get_manifest_def cachedOrError_def ManifestHandle_def Let_def)
  then have "rw_status ?w = 503" by (simp add: write_defs Write_status)
  then show ?thesis
    using manifest_client_view [OF demo_start_reachable _ _ refl, of demo_manifest_get demo_request_env "[]"]
    by (auto simp: demo_manifest_get_def error_reply_def)
qed

text \<open>
  C40. The steps refine. Serving a request and the background refreshes change the shared state only
  by sequences of the locked steps (a client section, storing a sound manifest, storing keys), and
  none of them touches what the configuration fixed: validator, limiter, router, engine, address.
\<close>

theorem serve_refines:
  "app_step\<^sup>*\<^sup>* a (rp_app (serve env rq r a)) \<and> app_step\<^sup>*\<^sup>* a (jwks_tick tr je now a) \<and>
   app_step\<^sup>*\<^sup>* a (core_tick tr je clk clk' a) \<and>
   app_fixed (rp_app (serve env rq r a)) = app_fixed a"
  by (simp add: serve_steps jwks_tick_steps core_tick_steps app_steps_fixed [OF serve_steps])

text \<open>
  C39. Readiness. GET /ready answers 200 exactly when Redis answers the ping, the key cache holds a
  key and the routing configuration, cached or fetched now, has a model; otherwise it answers 503.
\<close>

theorem ready_status:
  assumes "in_method rq = ''GET''" "in_path rq = ''/ready''"
  shows "rw_status (rp_writer (serve env rq r a)) =
    (if Ping (ce_redis env) r = None \<and> HasKeys (ap_jwks a) \<and>
        (case fst (GetRouting (ce_core env) (ce_core_je env) (ce_core_clk env) (ap_core a)) of
           Inl _ \<Rightarrow> False | Inr cfg \<Rightarrow> rc_Models cfg \<noteq> [])
     then 200 else 503)"
  using assms
  by (auto simp: serve_def Ready_def unready_def plain_reply_def Let_def writer rw_status_def new_writer_def
      split: prod.splits option.splits sum.splits)

theorem ready_status_witness:
  "rw_status (rp_writer (serve demo_request_env
     \<lparr>in_method = ''GET'', in_path = ''/ready'', in_authorization = [], in_body = []\<rparr> [] demo_start)) = 503"
  by (subst ready_status) (simp_all add: HasKeys_def demo_start_def NewJWKSCache_def)

text \<open>
  A misspelt category list. When every configured category is unknown and there is no rules
  file, the program starts, with the engine enabled or not, and redacts nothing: every request goes
  to its provider as it came.
\<close>

lemma misspelt_categories:
  assumes "startup env compile je read_file = Inr a" "env ''REDACTION_RULES_FILE'' = []"
    "parseCategories (env ''REDACTION_CATEGORIES'') \<noteq> []"
    "set (parseCategories (env ''REDACTION_CATEGORIES'')) \<inter> set (map ru_category defaultRules) = {}"
    "applyRedaction order (Some (ap_redactor a)) req = (req', red)"
  shows "req' = req \<and> rr_Count red = 0"
proof -
  obtain cfg engine where c: "Load env = Inr cfg"
    "Redact.New compile je read_file (cf_RedactionEnabled cfg) (cf_RedactionCategories cfg)
       (cf_RedactionRulesFile cfg) = Inr engine" "ap_redactor a = engine"
    using assms(1) by (rule startup_parts)
  have cfg: "cf_RedactionCategories cfg = parseCategories (env ''REDACTION_CATEGORIES'')"
    "cf_RedactionRulesFile cfg = []"
    using Load_redaction [OF c(1)] assms(2) by simp_all
  have "en_rules (ap_redactor a) = []"
    using c(2) filter_rules_unknown [OF assms(3,4)] c(3) by (auto simp: cfg New_no_file)
  then show ?thesis using applyRedaction_no_rules assms(5) by blast
qed

end
